(* ===== verification/Bastion_Prelude.thy ===== *)
theory Bastion_Prelude
  imports Main "HOL-Library.Word" "HOL-Library.AList"
begin

text \<open>
  The shared vocabulary of the development: Rust strings and the standard-library functions
  the sources call on them, decimal printing and parsing of machine integers, the
  \<open>Result\<close> type, association lists that stand for concurrent maps, and the interface of a
  closed set of keywords (an enum with \<open>parse\<close> and \<open>as_str\<close>).

  Strings. A value of type \<open>string\<close> stands for a Rust \<open>str\<close> whose characters are code
  points up to U+00FF: the HOL character with code \<open>n\<close> is the Unicode scalar value
  \<open>n\<close>. On that range \<open>is_whitespace\<close>, \<open>is_alphanumeric\<close> and \<open>len_utf8\<close> below are the
  standard library's functions exactly; code points above U+00FF are outside the model.
\<close>

subsection \<open>Collections of facts\<close>

named_theorems text_simps \<open>rewrite rules for strings: splitting, joining, trimming, prefixes\<close>
named_theorems result_simps \<open>rewrite rules for computations that may fail\<close>
named_theorems alist_simps \<open>rewrite rules for maps held as association lists\<close>

subsection \<open>Results\<close>

type_synonym ('e, 'a) result = "'e + 'a"

abbreviation Err :: "'e \<Rightarrow> ('e, 'a) result" where "Err \<equiv> Inl"
abbreviation Ok :: "'a \<Rightarrow> ('e, 'a) result" where "Ok \<equiv> Inr"

text \<open>The question-mark operator: stop at the first error.\<close>

fun try_bind :: "('e, 'a) result \<Rightarrow> ('a \<Rightarrow> ('e, 'b) result) \<Rightarrow> ('e, 'b) result" where
  "try_bind (Inl e) f = Inl e"
| "try_bind (Inr x) f = f x"

fun is_ok :: "('e, 'a) result \<Rightarrow> bool" where
  "is_ok (Inl e) = False"
| "is_ok (Inr x) = True"

definition ok_or :: "'e \<Rightarrow> 'a option \<Rightarrow> ('e, 'a) result" where
  "ok_or e x = (case x of None \<Rightarrow> Inl e | Some a \<Rightarrow> Inr a)"

lemma try_bind_Ok_iff [result_simps]:
  "try_bind r f = Inr y \<longleftrightarrow> (\<exists>x. r = Inr x \<and> f x = Inr y)"
  by (cases r) auto

lemma try_bind_Err_iff [result_simps]:
  "try_bind r f = Inl e \<longleftrightarrow> r = Inl e \<or> (\<exists>x. r = Inr x \<and> f x = Inl e)"
  by (cases r) auto

lemma ok_or_simps [simp]: "ok_or e None = Inl e" "ok_or e (Some a) = Inr a"
  by (simp_all add: ok_or_def)

lemma ok_or_Ok_iff [result_simps]: "ok_or e x = Inr a \<longleftrightarrow> x = Some a"
  by (cases x) auto

lemma ok_or_Err_iff [result_simps]: "ok_or e x = Inl e' \<longleftrightarrow> x = None \<and> e' = e"
  by (cases x) auto

lemma is_ok_iff: "is_ok r \<longleftrightarrow> (\<exists>x. r = Inr x)"
  by (cases r) auto

text \<open>
  The same for a computation that also changes a state: \<open>and_then m f\<close> runs \<open>m\<close>, stops with its
  error and the state it left behind, or goes on with its value. \<open>on_fst\<close> and \<open>on_snd\<close> run a
  computation on one half of a paired state.
\<close>

definition and_then ::
    "('s \<Rightarrow> ('e, 'a) result \<times> 's) \<Rightarrow> ('a \<Rightarrow> 's \<Rightarrow> ('e, 'b) result \<times> 's) \<Rightarrow>
     's \<Rightarrow> ('e, 'b) result \<times> 's" where
  "and_then m f s = (case m s of (Inl e, s') \<Rightarrow> (Inl e, s') | (Inr x, s') \<Rightarrow> f x s')"

definition on_fst :: "('r \<Rightarrow> 'x \<times> 'r) \<Rightarrow> 'r \<times> 'w \<Rightarrow> 'x \<times> 'r \<times> 'w" where
  "on_fst m = (\<lambda>(r, w). case m r of (x, r') \<Rightarrow> (x, r', w))"

definition on_snd :: "('w \<Rightarrow> 'x \<times> 'w) \<Rightarrow> 'r \<times> 'w \<Rightarrow> 'x \<times> 'r \<times> 'w" where
  "on_snd m = (\<lambda>(r, w). case m w of (x, w') \<Rightarrow> (x, r, w'))"

lemma and_then_simps [simp]:
  "m s = (Inl e, s') \<Longrightarrow> and_then m f s = (Inl e, s')"
  "m s = (Inr x, s') \<Longrightarrow> and_then m f s = f x s'"
  by (simp_all add: and_then_def)

lemma on_fst_simp [simp]: "on_fst m (r, w) = (fst (m r), snd (m r), w)"
  by (simp add: on_fst_def split: prod.splits)

lemma on_snd_simp [simp]: "on_snd m (r, w) = (fst (m w), r, snd (m w))"
  by (simp add: on_snd_def split: prod.splits)

subsection \<open>Characters\<close>

text \<open>\<open>char::is_whitespace\<close>: the White_Space property up to U+00FF.\<close>

definition is_whitespace :: "char \<Rightarrow> bool" where
  "is_whitespace c =
     (let n = (of_char c :: nat)
      in (9 \<le> n \<and> n \<le> 13) \<or> n = 32 \<or> n = 133 \<or> n = 160)"

definition is_ascii_digit :: "char \<Rightarrow> bool" where
  "is_ascii_digit c = (let n = (of_char c :: nat) in 48 \<le> n \<and> n \<le> 57)"

definition is_ascii_letter :: "char \<Rightarrow> bool" where
  "is_ascii_letter c =
     (let n = (of_char c :: nat) in (65 \<le> n \<and> n \<le> 90) \<or> (97 \<le> n \<and> n \<le> 122))"

text \<open>
  \<open>char::is_alphanumeric\<close> up to U+00FF: the ASCII letters and digits, the Latin-1 letters
  (U+00AA, U+00B5, U+00BA, U+00C0 to U+00FF without the two operator signs) and the Latin-1
  numbers (superscripts U+00B2, U+00B3, U+00B9 and fractions U+00BC to U+00BE).
\<close>

definition is_alphanumeric :: "char \<Rightarrow> bool" where
  "is_alphanumeric c =
     (let n = (of_char c :: nat)
      in is_ascii_letter c \<or> is_ascii_digit c
         \<or> n = 170 \<or> n = 178 \<or> n = 179 \<or> n = 181 \<or> n = 185 \<or> n = 186
         \<or> (188 \<le> n \<and> n \<le> 190) \<or> (192 \<le> n \<and> n \<noteq> 215 \<and> n \<noteq> 247))"

text \<open>\<open>char::len_utf8\<close> up to U+00FF.\<close>

definition len_utf8 :: "char \<Rightarrow> nat" where
  "len_utf8 c = (if (of_char c :: nat) < 128 then 1 else 2)"

text \<open>\<open>str::len\<close>, which counts bytes.\<close>

definition str_len :: "string \<Rightarrow> nat" where
  "str_len s = sum_list (map len_utf8 s)"

lemma str_len_simps [simp]:
  "str_len [] = 0"
  "str_len (c # s) = len_utf8 c + str_len s"
  "str_len (s @ t) = str_len s + str_len t"
  by (simp_all add: str_len_def)

lemma len_utf8_pos [simp]: "0 < len_utf8 c"
  by (simp add: len_utf8_def)

lemma str_len_0_iff [simp]: "str_len s = 0 \<longleftrightarrow> s = []"
proof (cases s)
  case (Cons c t)
  then show ?thesis using len_utf8_pos [of c] by auto
qed simp

subsection \<open>Substrings\<close>

fun starts_with :: "string \<Rightarrow> string \<Rightarrow> bool" where
  "starts_with [] s = True"
| "starts_with (p # ps) [] = False"
| "starts_with (p # ps) (c # s) = (p = c \<and> starts_with ps s)"

lemma starts_with_iff [text_simps]: "starts_with p s \<longleftrightarrow> (\<exists>t. s = p @ t)"
  by (induction p s rule: starts_with.induct) auto

lemma starts_with_append [simp]: "starts_with p (p @ t)"
  by (simp add: starts_with_iff)

lemma starts_with_drop: "starts_with p s \<Longrightarrow> s = p @ drop (length p) s"
  by (auto simp: starts_with_iff)

text \<open>\<open>str::contains\<close> on a string pattern.\<close>

fun str_contains :: "string \<Rightarrow> string \<Rightarrow> bool" where
  "str_contains sub [] = (sub = [])"
| "str_contains sub (c # s) = (starts_with sub (c # s) \<or> str_contains sub s)"

lemma str_contains_iff [text_simps]: "str_contains sub s \<longleftrightarrow> (\<exists>u v. s = u @ sub @ v)"
proof (induction s)
  case Nil
  show ?case by auto
next
  case (Cons c s)
  show ?case
  proof
    assume "str_contains sub (c # s)"
    then consider "\<exists>t. c # s = sub @ t" | "\<exists>u v. s = u @ sub @ v"
      using Cons.IH by (auto simp: starts_with_iff)
    then show "\<exists>u v. c # s = u @ sub @ v"
    proof cases
      case 1
      then show ?thesis by (metis append_Nil)
    next
      case 2
      then show ?thesis by (metis append_Cons)
    qed
  next
    assume "\<exists>u v. c # s = u @ sub @ v"
    then obtain u v where uv: "c # s = u @ sub @ v" by blast
    show "str_contains sub (c # s)"
    proof (cases u)
      case Nil
      with uv have "starts_with sub (c # s)" by (metis append_Nil starts_with_append)
      then show ?thesis by simp
    next
      case (Cons d u1)
      with uv have "\<exists>u v. s = u @ sub @ v" by auto
      then show ?thesis using Cons.IH by simp
    qed
  qed
qed

text \<open>\<open>str::trim\<close>.\<close>

definition trim_start :: "string \<Rightarrow> string" where
  "trim_start s = dropWhile is_whitespace s"

definition trim_end :: "string \<Rightarrow> string" where
  "trim_end s = rev (dropWhile is_whitespace (rev s))"

definition trim :: "string \<Rightarrow> string" where
  "trim s = trim_end (trim_start s)"

lemma trim_start_id [text_simps]: "s \<noteq> [] \<Longrightarrow> \<not> is_whitespace (hd s) \<Longrightarrow> trim_start s = s"
  by (cases s) (simp_all add: trim_start_def)

lemma trim_end_id [text_simps]: "s \<noteq> [] \<Longrightarrow> \<not> is_whitespace (last s) \<Longrightarrow> trim_end s = s"
  by (cases s rule: rev_cases) (simp_all add: trim_end_def)

lemma trim_end_length: "length (trim_end s) \<le> length s"
  by (metis length_dropWhile_le length_rev trim_end_def)

lemma trim_end_shorter:
  assumes "s \<noteq> []" and "is_whitespace (last s)"
  shows "trim_end s \<noteq> s"
proof -
  obtain xs x where s: "s = xs @ [x]" using assms(1) by (cases s rule: rev_cases) auto
  then have "trim_end s = trim_end xs" using assms(2) by (simp add: trim_end_def)
  then have "length (trim_end s) < length s" using s trim_end_length [of xs] by simp
  then show ?thesis by auto
qed

subsection \<open>Splitting at a separator\<close>

text \<open>\<open>str::split\<close> on a character: one part more than there are separators.\<close>

fun split_on :: "char \<Rightarrow> string \<Rightarrow> string list" where
  "split_on c [] = [[]]"
| "split_on c (x # xs) =
     (if x = c then [] # split_on c xs
      else case split_on c xs of [] \<Rightarrow> [[x]] | p # ps \<Rightarrow> (x # p) # ps)"

fun join_with :: "char \<Rightarrow> string list \<Rightarrow> string" where
  "join_with c [] = []"
| "join_with c [p] = p"
| "join_with c (p # q # ps) = p @ c # join_with c (q # ps)"

lemma split_on_nonempty [simp]: "split_on c s \<noteq> []"
  by (induction s) (auto split: list.splits)

lemma join_split_on [text_simps]: "join_with c (split_on c s) = s"
proof (induction s)
  case (Cons x xs)
  obtain p ps where ps: "split_on c xs = p # ps"
    using split_on_nonempty [of c xs] by (cases "split_on c xs") auto
  show ?case using Cons ps by (cases ps) auto
qed simp

lemma split_on_no_sep: "p \<in> set (split_on c s) \<Longrightarrow> c \<notin> set p"
proof (induction s arbitrary: p)
  case (Cons x xs)
  obtain q qs where qs: "split_on c xs = q # qs"
    using split_on_nonempty [of c xs] by (cases "split_on c xs") auto
  show ?case using Cons qs by (auto split: if_splits)
qed simp

lemma split_on_absent [text_simps]: "c \<notin> set s \<Longrightarrow> split_on c s = [s]"
  by (induction s) auto

lemma split_on_append [text_simps]: "c \<notin> set p \<Longrightarrow> split_on c (p @ c # s) = p # split_on c s"
  by (induction p) auto

lemma split_on_eq3_iff:
  "split_on c s = [p, q, r] \<longleftrightarrow>
     s = p @ c # q @ c # r \<and> c \<notin> set p \<and> c \<notin> set q \<and> c \<notin> set r"
proof
  assume h: "split_on c s = [p, q, r]"
  then have "s = p @ c # q @ c # r" using join_split_on [of c s] by simp
  with h show "s = p @ c # q @ c # r \<and> c \<notin> set p \<and> c \<notin> set q \<and> c \<notin> set r"
    by (metis list.set_intros split_on_no_sep)
qed (simp add: text_simps)

subsection \<open>Decimal numbers\<close>

definition digit_char :: "nat \<Rightarrow> char" where
  "digit_char d = char_of (48 + d)"

definition digit_value :: "char \<Rightarrow> nat" where
  "digit_value c = (of_char c :: nat) - 48"

text \<open>\<open>to_string\<close> of an unsigned and of a signed integer.\<close>

fun nat_to_string :: "nat \<Rightarrow> string" where
  "nat_to_string n =
     (if n < 10 then [digit_char n] else nat_to_string (n div 10) @ [digit_char (n mod 10)])"

declare nat_to_string.simps [simp del]

definition int_to_string :: "int \<Rightarrow> string" where
  "int_to_string k = (if k < 0 then CHR ''-'' # nat_to_string (nat (- k)) else nat_to_string (nat k))"

definition digits_value :: "string \<Rightarrow> nat" where
  "digits_value s = foldl (\<lambda>acc c. 10 * acc + digit_value c) 0 s"

text \<open>
  \<open>str::parse\<close> of a signed integer type with the bounds \<open>lo\<close> and \<open>hi\<close>: an optional sign, then at
  least one ASCII digit and nothing else, with a value within the bounds.
\<close>

definition parse_int :: "int \<Rightarrow> int \<Rightarrow> string \<Rightarrow> int option" where
  "parse_int lo hi s =
     (let (negative, digits) =
            (case s of
               CHR ''+'' # ds \<Rightarrow> (False, ds)
             | CHR ''-'' # ds \<Rightarrow> (True, ds)
             | _ \<Rightarrow> (False, s));
          value = (if negative then - int (digits_value digits) else int (digits_value digits))
      in if digits = [] \<or> \<not> list_all is_ascii_digit digits then None
         else if value < lo \<or> hi < value then None
         else Some value)"

abbreviation parse_i32 :: "string \<Rightarrow> int option" where
  "parse_i32 \<equiv> parse_int (- (2 ^ 31)) (2 ^ 31 - 1)"

abbreviation parse_i64 :: "string \<Rightarrow> int option" where
  "parse_i64 \<equiv> parse_int (- (2 ^ 63)) (2 ^ 63 - 1)"

lemma of_char_digit [simp]: "d < 10 \<Longrightarrow> (of_char (digit_char d) :: nat) = 48 + d"
  by (simp add: digit_char_def)

lemma digit_char_facts [simp]:
  assumes "d < 10"
  shows "is_ascii_digit (digit_char d)" "digit_value (digit_char d) = d"
  using assms by (simp_all add: is_ascii_digit_def digit_value_def Let_def)

lemma nat_to_string_digits: "list_all is_ascii_digit (nat_to_string n) \<and> nat_to_string n \<noteq> []"
proof (induction n rule: nat_to_string.induct)
  case (1 n)
  then show ?case by (simp add: nat_to_string.simps [of n])
qed

lemma digits_value_append [simp]:
  "digits_value (s @ [c]) = 10 * digits_value s + digit_value c"
  by (simp add: digits_value_def)

lemma digits_value_nat_to_string [simp]: "digits_value (nat_to_string n) = n"
proof (induction n rule: nat_to_string.induct)
  case (1 n)
  then show ?case
    by (subst nat_to_string.simps) (auto simp: digits_value_def)
qed

lemma is_ascii_digit_sign: "is_ascii_digit c \<Longrightarrow> c \<noteq> CHR ''+'' \<and> c \<noteq> CHR ''-''"
  by (auto simp: is_ascii_digit_def)

lemma parse_int_digits:
  assumes "s \<noteq> []" and "list_all is_ascii_digit s"
  shows "parse_int lo hi s =
    (if lo \<le> int (digits_value s) \<and> int (digits_value s) \<le> hi then Some (int (digits_value s)) else None)"
proof -
  obtain c t where s: "s = c # t" using assms(1) by (cases s) auto
  have "c \<noteq> CHR ''+''" "c \<noteq> CHR ''-''" using assms(2) s is_ascii_digit_sign by auto
  then have "(case s of CHR ''+'' # ds \<Rightarrow> (False, ds) | CHR ''-'' # ds \<Rightarrow> (True, ds) | _ \<Rightarrow> (False, s))
      = (False, s)"
    by (auto simp: s split: char.splits bool.splits)
  then show ?thesis using assms by (auto simp: parse_int_def)
qed

lemma parse_int_to_string [text_simps]:
  assumes "lo \<le> k" "k \<le> hi"
  shows "parse_int lo hi (int_to_string k) = Some k"
proof (cases "k < 0")
  case True
  then show ?thesis using assms nat_to_string_digits [of "nat (- k)"]
    by (simp add: parse_int_def int_to_string_def)
next
  case False
  then show ?thesis using assms nat_to_string_digits [of "nat k"]
    by (simp add: int_to_string_def parse_int_digits)
qed

lemma int_to_string_inject [simp]: "int_to_string a = int_to_string b \<longleftrightarrow> a = b"
proof
  assume "int_to_string a = int_to_string b"
  then have "parse_int (min a b) (max a b) (int_to_string a)
      = parse_int (min a b) (max a b) (int_to_string b)" by simp
  then show "a = b" by (simp add: parse_int_to_string)
qed simp

subsection \<open>Signed reading of machine integers\<close>

lemma wrap_signed:
  fixes k m :: int
  assumes "0 \<le> k" "k < 2 * m"
  shows "(k + m) mod (2 * m) - m = (if k < m then k else k - 2 * m)"
proof (cases "k < m")
  case True
  then show ?thesis using assms by simp
next
  case False
  have "(k + m) mod (2 * m) = (k - m + 1 * (2 * m)) mod (2 * m)" by (simp add: algebra_simps)
  also have "\<dots> = k - m" using False assms by (simp only: mod_mult_self1) simp
  finally show ?thesis using False by simp
qed

lemma sint_unat:
  fixes w :: "'a::len word"
  shows "sint w = (if unat w < 2 ^ (LENGTH('a) - 1) then int (unat w)
                   else int (unat w) - 2 ^ LENGTH('a))"
proof -
  obtain n where n: "LENGTH('a) = Suc n" using len_gt_0 by (cases "LENGTH('a)") auto
  have bound: "int (unat w) < 2 * 2 ^ n" using uint_lt2p [of w] by (simp add: n)
  have "sint w = signed_take_bit n (int (unat w))" by (simp add: sint_uint n)
  also have "\<dots> = (int (unat w) + 2 ^ n) mod (2 * 2 ^ n) - 2 ^ n"
    by (simp add: signed_take_bit_eq_take_bit_shift take_bit_eq_mod)
  also have "\<dots> = (if int (unat w) < 2 ^ n then int (unat w) else int (unat w) - 2 * 2 ^ n)"
    by (rule wrap_signed) (simp, rule bound)
  also have "int (unat w) < 2 ^ n \<longleftrightarrow> unat w < 2 ^ n"
    by (metis of_nat_less_iff of_nat_numeral of_nat_power)
  finally show ?thesis by (simp add: n)
qed

lemma sint_neg_iff:
  fixes w :: "'a::len word"
  shows "sint w < 0 \<longleftrightarrow> 2 ^ (LENGTH('a) - 1) \<le> unat w"
proof -
  have "int (unat w) < 2 ^ LENGTH('a)" using uint_lt2p [of w] by simp
  then show ?thesis by (simp add: sint_unat)
qed

lemma sint_of_nat_small:
  assumes "n < 2 ^ (LENGTH('a) - 1)"
  shows "sint (of_nat n :: 'a::len word) = int n"
proof -
  have "n < 2 ^ LENGTH('a)"
    using assms by (meson diff_le_self le_less_trans less_le_trans one_le_numeral power_increasing)
  then have "unat (of_nat n :: 'a word) = n"
    by (simp add: unat_of_nat take_bit_nat_eq_self)
  then show ?thesis using assms by (simp add: sint_unat)
qed

subsection \<open>Closed sets of keywords\<close>

text \<open>
  Several enums of the program have a \<open>parse\<close> from a string and an \<open>as_str\<close> back. The law they
  share: a string parses to a constructor exactly when it is the constructor's keyword.
\<close>

locale keyword_codec =
  fixes parse :: "string \<Rightarrow> ('e, 'a) result"
    and as_str :: "'a \<Rightarrow> string"
  assumes parse_iff: "parse s = Inr x \<longleftrightarrow> s = as_str x"
begin

lemma parse_as_str [simp]: "parse (as_str x) = Inr x"
  by (simp add: parse_iff)

lemma as_str_inject [simp]: "as_str x = as_str y \<longleftrightarrow> x = y"
  by (metis parse_as_str Inr_inject)

lemma parse_error_iff: "(\<exists>e. parse s = Inl e) \<longleftrightarrow> (\<forall>x. s \<noteq> as_str x)"
  by (metis Inl_Inr_False parse_iff sumE)

end

end
