(* ===== verification/Brn_Auth.thy ===== *)
theory Brn_Auth
  imports Bastion_Prelude
begin

unbundle bit_operations_syntax

text \<open>
  Bastion resource names and capability-based authorization
  (\<open>crates/bastion-domain/src/shared/brn.rs\<close>): the namespace and type enums with their
  keywords, the name as a record, its parser and printer, the factory methods, the capability
  set as a 32-bit word of flags, and the policy that maps a name and an action to the
  capabilities it needs.
\<close>

subsection \<open>Namespaces and resource types\<close>

datatype brn_namespace =
  NsSandbox | NsProject | NsProvider | NsTemplate | NsCatalog | NsInfra

datatype brn_type =
  TySandbox | TyProject | TyProvider | TyInstance | TyTemplate | TyArtifact
  | TyDoctor | TyAssertion | TyAdvice | TyExperience
  | TyPool | TyWorker | TyConfig | TySecret

datatype brn_error =
  InvalidFormat | UnknownNamespace string | UnknownType string | MissingResourceId

definition ns_parse :: "string \<Rightarrow> (brn_error, brn_namespace) result" where
  "ns_parse s =
     (if s = ''sandbox'' then Ok NsSandbox
      else if s = ''project'' then Ok NsProject
      else if s = ''provider'' then Ok NsProvider
      else if s = ''template'' then Ok NsTemplate
      else if s = ''catalog'' then Ok NsCatalog
      else if s = ''infra'' then Ok NsInfra
      else Err (UnknownNamespace s))"

fun ns_as_str :: "brn_namespace \<Rightarrow> string" where
  "ns_as_str NsSandbox = ''sandbox''"
| "ns_as_str NsProject = ''project''"
| "ns_as_str NsProvider = ''provider''"
| "ns_as_str NsTemplate = ''template''"
| "ns_as_str NsCatalog = ''catalog''"
| "ns_as_str NsInfra = ''infra''"

definition type_parse :: "string \<Rightarrow> (brn_error, brn_type) result" where
  "type_parse s =
     (if s = ''sandbox'' then Ok TySandbox
      else if s = ''project'' then Ok TyProject
      else if s = ''provider'' then Ok TyProvider
      else if s = ''instance'' then Ok TyInstance
      else if s = ''template'' then Ok TyTemplate
      else if s = ''artifact'' then Ok TyArtifact
      else if s = ''doctor'' then Ok TyDoctor
      else if s = ''assertion'' then Ok TyAssertion
      else if s = ''advice'' then Ok TyAdvice
      else if s = ''experience'' then Ok TyExperience
      else if s = ''pool'' then Ok TyPool
      else if s = ''worker'' then Ok TyWorker
      else if s = ''config'' then Ok TyConfig
      else if s = ''secret'' then Ok TySecret
      else Err (UnknownType s))"

fun type_as_str :: "brn_type \<Rightarrow> string" where
  "type_as_str TySandbox = ''sandbox''"
| "type_as_str TyProject = ''project''"
| "type_as_str TyProvider = ''provider''"
| "type_as_str TyInstance = ''instance''"
| "type_as_str TyTemplate = ''template''"
| "type_as_str TyArtifact = ''artifact''"
| "type_as_str TyDoctor = ''doctor''"
| "type_as_str TyAssertion = ''assertion''"
| "type_as_str TyAdvice = ''advice''"
| "type_as_str TyExperience = ''experience''"
| "type_as_str TyPool = ''pool''"
| "type_as_str TyWorker = ''worker''"
| "type_as_str TyConfig = ''config''"
| "type_as_str TySecret = ''secret''"

subsection \<open>Names\<close>

record brn =
  brn_ns :: brn_namespace
  brn_ty :: brn_type
  brn_id :: string

definition brn_sandbox :: "string \<Rightarrow> brn" where
  "brn_sandbox i = \<lparr>brn_ns = NsSandbox, brn_ty = TySandbox, brn_id = i\<rparr>"
definition brn_project :: "string \<Rightarrow> brn" where
  "brn_project i = \<lparr>brn_ns = NsProject, brn_ty = TyProject, brn_id = i\<rparr>"
definition brn_provider :: "string \<Rightarrow> brn" where
  "brn_provider i = \<lparr>brn_ns = NsProvider, brn_ty = TyProvider, brn_id = i\<rparr>"
definition brn_provider_instance :: "string \<Rightarrow> brn" where
  "brn_provider_instance i = \<lparr>brn_ns = NsProvider, brn_ty = TyInstance, brn_id = i\<rparr>"
definition brn_template :: "string \<Rightarrow> brn" where
  "brn_template i = \<lparr>brn_ns = NsTemplate, brn_ty = TyTemplate, brn_id = i\<rparr>"
definition brn_artifact :: "string \<Rightarrow> brn" where
  "brn_artifact i = \<lparr>brn_ns = NsTemplate, brn_ty = TyArtifact, brn_id = i\<rparr>"
definition brn_doctor :: "string \<Rightarrow> brn" where
  "brn_doctor i = \<lparr>brn_ns = NsCatalog, brn_ty = TyDoctor, brn_id = i\<rparr>"
definition brn_assertion :: "string \<Rightarrow> brn" where
  "brn_assertion i = \<lparr>brn_ns = NsCatalog, brn_ty = TyAssertion, brn_id = i\<rparr>"
definition brn_advice :: "string \<Rightarrow> brn" where
  "brn_advice i = \<lparr>brn_ns = NsCatalog, brn_ty = TyAdvice, brn_id = i\<rparr>"
definition brn_experience :: "string \<Rightarrow> brn" where
  "brn_experience i = \<lparr>brn_ns = NsCatalog, brn_ty = TyExperience, brn_id = i\<rparr>"
definition brn_pool :: brn where
  "brn_pool = \<lparr>brn_ns = NsInfra, brn_ty = TyPool, brn_id = ''default''\<rparr>"
definition brn_worker :: "string \<Rightarrow> brn" where
  "brn_worker i = \<lparr>brn_ns = NsInfra, brn_ty = TyWorker, brn_id = i\<rparr>"
definition brn_config :: brn where
  "brn_config = \<lparr>brn_ns = NsInfra, brn_ty = TyConfig, brn_id = ''default''\<rparr>"
definition brn_secret :: "string \<Rightarrow> brn" where
  "brn_secret i = \<lparr>brn_ns = NsInfra, brn_ty = TySecret, brn_id = i\<rparr>"

lemmas brn_factory_defs =
  brn_sandbox_def brn_project_def brn_provider_def brn_provider_instance_def
  brn_template_def brn_artifact_def brn_doctor_def brn_assertion_def brn_advice_def
  brn_experience_def brn_pool_def brn_worker_def brn_config_def brn_secret_def

definition brn_parse :: "string \<Rightarrow> (brn_error, brn) result" where
  "brn_parse s0 =
     (let s = trim s0 in
      if \<not> starts_with ''brn:'' s then Err InvalidFormat
      else case split_on CHR '':'' (drop 4 s) of
             [p0, p1, p2] \<Rightarrow>
               try_bind (ns_parse p0) (\<lambda>ns.
               try_bind (type_parse p1) (\<lambda>ty.
                 if p2 = [] then Err MissingResourceId
                 else Ok \<lparr>brn_ns = ns, brn_ty = ty, brn_id = p2\<rparr>))
           | _ \<Rightarrow> Err InvalidFormat)"

definition brn_to_string :: "brn \<Rightarrow> string" where
  "brn_to_string b =
     ''brn:'' @ ns_as_str (brn_ns b) @ '':'' @ type_as_str (brn_ty b) @ '':'' @ brn_id b"

definition is_sandbox :: "brn \<Rightarrow> bool" where
  "is_sandbox b = (brn_ns b = NsSandbox)"

definition is_provider_instance :: "brn \<Rightarrow> bool" where
  "is_provider_instance b = (brn_ns b = NsProvider \<and> brn_ty b = TyInstance)"

definition is_infra :: "brn \<Rightarrow> bool" where
  "is_infra b = (brn_ns b = NsInfra)"

subsection \<open>Capabilities and the policy\<close>

text \<open>\<open>CapabilitySet\<close> is a set of flags over a 32-bit word.\<close>

type_synonym capability_set = "32 word"

definition EXECUTION :: capability_set where "EXECUTION = push_bit 0 1"
definition ADMIN :: capability_set where "ADMIN = push_bit 1 1"
definition READONLY :: capability_set where "READONLY = push_bit 2 1"

definition cs_contains :: "capability_set \<Rightarrow> capability_set \<Rightarrow> bool" where
  "cs_contains actual required = (actual AND required = required)"

datatype action = Read | Write | Execute

record auth_context =
  principal :: string
  capabilities :: capability_set

datatype auth_error = InsufficientCapabilities capability_set capability_set

definition required_capabilities :: "brn \<Rightarrow> action \<Rightarrow> capability_set" where
  "required_capabilities b a =
     (if brn_ns b = NsCatalog \<and> brn_ty b = TyExperience then READONLY
      else if brn_ns b = NsSandbox then EXECUTION
      else if brn_ns b = NsProject then
        (case a of Read \<Rightarrow> READONLY | Write \<Rightarrow> EXECUTION OR ADMIN | Execute \<Rightarrow> EXECUTION)
      else if brn_ns b = NsProvider then
        (case a of Read \<Rightarrow> READONLY | Write \<Rightarrow> ADMIN | Execute \<Rightarrow> 0)
      else if brn_ns b = NsTemplate then
        (case a of Read \<Rightarrow> READONLY | Write \<Rightarrow> ADMIN | Execute \<Rightarrow> 0)
      else if brn_ns b = NsCatalog \<and> brn_ty b = TyDoctor then
        (case a of Read \<Rightarrow> READONLY | Write \<Rightarrow> ADMIN | Execute \<Rightarrow> ADMIN)
      else if brn_ns b = NsCatalog \<and> (brn_ty b = TyAssertion \<or> brn_ty b = TyAdvice) then
        (case a of Read \<Rightarrow> READONLY | Write \<Rightarrow> ADMIN | Execute \<Rightarrow> 0)
      else if brn_ns b = NsInfra then
        (case a of Read \<Rightarrow> READONLY | Write \<Rightarrow> ADMIN | Execute \<Rightarrow> 0)
      else 0)"

definition authorize :: "auth_context \<Rightarrow> brn \<Rightarrow> action \<Rightarrow> (auth_error, unit) result" where
  "authorize auth b a =
     (let required = required_capabilities b a in
      if cs_contains (capabilities auth) required then Ok ()
      else Err (InsufficientCapabilities required (capabilities auth)))"

subsection \<open>Keywords\<close>

lemma ns_parse_iff: "ns_parse s = Inr x \<longleftrightarrow> s = ns_as_str x"
  by (cases x) (auto simp: ns_parse_def)

lemma type_parse_iff: "type_parse s = Inr x \<longleftrightarrow> s = type_as_str x"
  by (cases x) (auto simp: type_parse_def)

interpretation ns_kw: keyword_codec ns_parse ns_as_str
  by unfold_locales (rule ns_parse_iff)

interpretation type_kw: keyword_codec type_parse type_as_str
  by unfold_locales (rule type_parse_iff)

lemma no_colon_keywords [simp]:
  "CHR '':'' \<notin> set (ns_as_str n)" "CHR '':'' \<notin> set (type_as_str t)"
  by (cases n; simp) (cases t; simp)

subsection \<open>Parsing and printing\<close>

lemma brn_to_string_simps:
  "brn_to_string b \<noteq> []"
  "hd (brn_to_string b) = CHR ''b''"
  "brn_id b \<noteq> [] \<Longrightarrow> last (brn_to_string b) = last (brn_id b)"
  by (simp_all add: brn_to_string_def)

lemma trim_start_brn [simp]: "trim_start (brn_to_string b) = brn_to_string b"
  by (rule trim_start_id) (simp_all add: brn_to_string_simps is_whitespace_def)

lemma brn_parse_Ok_iff:
  "brn_parse s = Inr b \<longleftrightarrow>
     trim s = brn_to_string b \<and> brn_id b \<noteq> [] \<and> CHR '':'' \<notin> set (brn_id b)"
proof
  assume h: "brn_parse s = Inr b"
  then have pre: "starts_with ''brn:'' (trim s)"
    by (auto simp: brn_parse_def Let_def split: if_splits)
  with h obtain p0 p1 p2 where parts: "split_on CHR '':'' (drop 4 (trim s)) = [p0, p1, p2]"
    by (auto simp: brn_parse_def Let_def split: list.splits)
  with h pre have b: "p0 = ns_as_str (brn_ns b)" "p1 = type_as_str (brn_ty b)"
      "p2 = brn_id b" "p2 \<noteq> []"
    by (auto simp: brn_parse_def Let_def result_simps ns_parse_iff type_parse_iff
        split: if_splits)
  from parts have d: "drop 4 (trim s) = p0 @ CHR '':'' # p1 @ CHR '':'' # p2"
      and c: "CHR '':'' \<notin> set p2"
    by (auto simp: split_on_eq3_iff)
  have "trim s = ''brn:'' @ drop 4 (trim s)" using starts_with_drop [OF pre] by (simp add: numeral_eq_Suc)
  then show "trim s = brn_to_string b \<and> brn_id b \<noteq> [] \<and> CHR '':'' \<notin> set (brn_id b)"
    using b c d by (simp add: brn_to_string_def)
next
  assume h: "trim s = brn_to_string b \<and> brn_id b \<noteq> [] \<and> CHR '':'' \<notin> set (brn_id b)"
  then have "split_on CHR '':'' (drop 4 (trim s)) =
      [ns_as_str (brn_ns b), type_as_str (brn_ty b), brn_id b]"
    by (simp add: split_on_eq3_iff brn_to_string_def)
  moreover have "starts_with ''brn:'' (trim s)" using h by (simp add: brn_to_string_def)
  ultimately show "brn_parse s = Inr b" using h by (simp add: brn_parse_def)
qed

lemma trim_brn_iff:
  "brn_id b \<noteq> [] \<Longrightarrow>
     trim (brn_to_string b) = brn_to_string b \<longleftrightarrow> \<not> is_whitespace (last (brn_id b))"
  using brn_to_string_simps [of b] trim_end_id [of "brn_to_string b"]
    trim_end_shorter [of "brn_to_string b"]
  by (auto simp: trim_def)

text \<open>
  C2: a resource name survives printing and parsing exactly when its identifier is not empty,
  holds no colon and does not end in white space; for every other name \<open>Brn::parse\<close> of
  \<open>to_string\<close> is an error or another name.
\<close>

theorem brn_roundtrip_iff:
  "brn_parse (brn_to_string b) = Inr b \<longleftrightarrow>
     brn_id b \<noteq> [] \<and> CHR '':'' \<notin> set (brn_id b) \<and> \<not> is_whitespace (last (brn_id b))"
  using trim_brn_iff [of b] by (auto simp: brn_parse_Ok_iff)

text \<open>
  The errors of the parser, each for exactly the inputs that deserve it. The shape of a name is
  three colon-free parts after the prefix.
\<close>

definition brn_shape :: "string \<Rightarrow> string \<Rightarrow> string \<Rightarrow> string \<Rightarrow> bool" where
  "brn_shape s n t i \<longleftrightarrow>
     trim s = ''brn:'' @ n @ '':'' @ t @ '':'' @ i
     \<and> CHR '':'' \<notin> set n \<and> CHR '':'' \<notin> set t \<and> CHR '':'' \<notin> set i"

lemma brn_shape_split:
  "brn_shape s n t i \<longleftrightarrow>
     starts_with ''brn:'' (trim s) \<and> split_on CHR '':'' (drop 4 (trim s)) = [n, t, i]"
proof -
  have "trim s = ''brn:'' @ n @ '':'' @ t @ '':'' @ i \<longleftrightarrow>
      starts_with ''brn:'' (trim s) \<and> drop 4 (trim s) = n @ '':'' @ t @ '':'' @ i"
    using starts_with_drop [of "''brn:''" "trim s"] by (auto simp: numeral_eq_Suc)
  then show ?thesis by (auto simp: brn_shape_def split_on_eq3_iff)
qed

lemma brn_parse_shape:
  assumes "brn_shape s n t i"
  shows "brn_parse s =
     try_bind (ns_parse n) (\<lambda>ns. try_bind (type_parse t) (\<lambda>ty.
       if i = [] then Inl MissingResourceId
       else Inr \<lparr>brn_ns = ns, brn_ty = ty, brn_id = i\<rparr>))"
  using assms by (simp add: brn_shape_split brn_parse_def Let_def)

lemma brn_parse_no_shape:
  assumes "\<nexists>n t i. brn_shape s n t i"
  shows "brn_parse s = Inl InvalidFormat"
proof (cases "starts_with ''brn:'' (trim s)")
  case True
  then have "\<nexists>n t i. split_on CHR '':'' (drop 4 (trim s)) = [n, t, i]"
    using assms by (simp add: brn_shape_split)
  then show ?thesis using True by (auto simp: brn_parse_def Let_def split: list.splits)
qed (simp add: brn_parse_def Let_def)

lemma ns_parse_Err: "ns_parse s = Inl e \<Longrightarrow> e = UnknownNamespace s"
  by (auto simp: ns_parse_def split: if_splits)

lemma type_parse_Err: "type_parse s = Inl e \<Longrightarrow> e = UnknownType s"
  by (auto simp: type_parse_def split: if_splits)

text \<open>
  every error of \<open>Brn::parse\<close> names its cause. \<open>InvalidFormat\<close> is returned exactly for
  strings that are not three colon-separated parts after \<open>brn:\<close>; the namespace is checked before
  the type, the type before the identifier, and the error carries the rejected text.
\<close>

theorem brn_parse_errors:
  "(brn_parse s = Inl InvalidFormat \<longleftrightarrow> (\<nexists>n t i. brn_shape s n t i))
   \<and> (brn_parse s = Inl (UnknownNamespace n) \<longleftrightarrow>
        (\<exists>t i. brn_shape s n t i) \<and> n \<notin> range ns_as_str)
   \<and> (brn_parse s = Inl (UnknownType t) \<longleftrightarrow>
        (\<exists>ns i. brn_shape s (ns_as_str ns) t i) \<and> t \<notin> range type_as_str)
   \<and> (brn_parse s = Inl MissingResourceId \<longleftrightarrow>
        (\<exists>ns ty. brn_shape s (ns_as_str ns) (type_as_str ty) []))"
proof (cases "\<exists>n t i. brn_shape s n t i")
  case False
  then show ?thesis by (auto simp: brn_parse_no_shape)
next
  case True
  then obtain n0 t0 i0 where sh: "brn_shape s n0 t0 i0" by blast
  then have uniq: "\<And>n t i. brn_shape s n t i \<longleftrightarrow> n = n0 \<and> t = t0 \<and> i = i0"
    by (auto simp: brn_shape_split)
  note parse = brn_parse_shape [OF sh]
  show ?thesis
  proof (cases "ns_parse n0")
    case (Inl e)
    then have "n0 \<notin> range ns_as_str" by (metis Inl_Inr_False ns_parse_iff rangeE)
    then show ?thesis using Inl ns_parse_Err [OF Inl] parse by (auto simp: uniq)
  next
    case (Inr ns)
    then have n0: "n0 = ns_as_str ns" by (simp add: ns_parse_iff)
    show ?thesis
    proof (cases "type_parse t0")
      case (Inl e)
      then have "t0 \<notin> range type_as_str" by (metis Inl_Inr_False type_parse_iff rangeE)
      then show ?thesis using Inl type_parse_Err [OF Inl] parse n0 by (auto simp: uniq)
    next
      case (Inr ty)
      then have "t0 = type_as_str ty" by (simp add: type_parse_iff)
      then show ?thesis using parse n0 by (auto simp: uniq)
    qed
  qed
qed

subsection \<open>Names built by the factory methods\<close>

text \<open>The namespace under which the comments of \<open>BrnType\<close> file each resource type.\<close>

fun type_namespace :: "brn_type \<Rightarrow> brn_namespace" where
  "type_namespace TySandbox = NsSandbox"
| "type_namespace TyProject = NsProject"
| "type_namespace TyProvider = NsProvider"
| "type_namespace TyInstance = NsProvider"
| "type_namespace TyTemplate = NsTemplate"
| "type_namespace TyArtifact = NsTemplate"
| "type_namespace TyDoctor = NsCatalog"
| "type_namespace TyAssertion = NsCatalog"
| "type_namespace TyAdvice = NsCatalog"
| "type_namespace TyExperience = NsCatalog"
| "type_namespace _ = NsInfra"

definition factories :: "string \<Rightarrow> brn set" where
  "factories i =
     {brn_sandbox i, brn_project i, brn_provider i, brn_provider_instance i, brn_template i,
      brn_artifact i, brn_doctor i, brn_assertion i, brn_advice i, brn_experience i,
      brn_pool, brn_worker i, brn_config, brn_secret i}"

text \<open>
  the factory methods build exactly the well-typed names: for every resource type one name, in
  the namespace the type belongs to, with the given identifier (the pool and the configuration are
  singletons named \<open>default\<close>); and on such names the query helpers decide by the type.
\<close>

theorem factories_exact:
  "factories i =
     {b. brn_ns b = type_namespace (brn_ty b)
         \<and> brn_id b = (if brn_ty b \<in> {TyPool, TyConfig} then ''default'' else i)
         \<and> is_sandbox b = (brn_ty b = TySandbox)
         \<and> is_provider_instance b = (brn_ty b = TyInstance)
         \<and> is_infra b = (brn_ty b \<in> {TyPool, TyWorker, TyConfig, TySecret})}"
  (is "_ = ?S")
proof
  show "factories i \<subseteq> ?S"
    by (auto simp: factories_def brn_factory_defs is_sandbox_def is_provider_instance_def
        is_infra_def)
  show "?S \<subseteq> factories i"
  proof
    fix b assume b: "b \<in> ?S"
    then show "b \<in> factories i"
      by (cases "brn_ty b") (auto simp: factories_def brn_factory_defs brn.equality)
  qed
qed

subsection \<open>Authorization\<close>

text \<open>The set of flags a word stands for, as an abstract set of bit positions.\<close>

definition flags :: "capability_set \<Rightarrow> nat set" where
  "flags w = {n. bit w n}"

lemma flags_single: "k < 32 \<Longrightarrow> flags (push_bit k 1) = {k}"
  by (auto simp: flags_def push_bit_of_1 bit_exp_iff)

lemma flags_empty [simp]: "flags 0 = {}"
  by (simp add: flags_def)

lemma flags_or [simp]: "flags (a OR b) = flags a \<union> flags b"
  by (auto simp: flags_def bit_or_iff)

lemma flags_EXECUTION [simp]: "flags EXECUTION = {0}"
  unfolding EXECUTION_def by (rule flags_single) simp

lemma flags_ADMIN [simp]: "flags ADMIN = {1}"
  unfolding ADMIN_def by (rule flags_single) simp

lemma flags_READONLY [simp]: "flags READONLY = {2}"
  unfolding READONLY_def by (rule flags_single) simp

lemma cs_contains_flags: "cs_contains a r \<longleftrightarrow> flags r \<subseteq> flags a"
proof
  assume "cs_contains a r"
  then have "\<And>n. bit (a AND r) n = bit r n" by (simp add: cs_contains_def)
  then show "flags r \<subseteq> flags a" by (auto simp: flags_def bit_and_iff)
next
  assume "flags r \<subseteq> flags a"
  then have "a AND r = r" by (intro bit_word_eqI) (auto simp: flags_def bit_and_iff)
  then show "cs_contains a r" by (simp add: cs_contains_def)
qed

lemma authorize_flags:
  "authorize auth b a = Inr () \<longleftrightarrow>
     flags (required_capabilities b a) \<subseteq> flags (capabilities auth)"
  by (simp add: authorize_def cs_contains_flags Let_def)

text \<open>
  The policy as a table, read off the comments of \<open>required_capabilities\<close>: which flag positions
  (0 execution, 1 administration, 2 read-only) an action on a resource needs.
\<close>

fun policy_table :: "brn_namespace \<Rightarrow> brn_type \<Rightarrow> action \<Rightarrow> nat set" where
  "policy_table NsSandbox _ _ = {0}"
| "policy_table NsProject _ Read = {2}"
| "policy_table NsProject _ Write = {0, 1}"
| "policy_table NsProject _ Execute = {0}"
| "policy_table NsCatalog TyExperience _ = {2}"
| "policy_table NsCatalog TyDoctor Read = {2}"
| "policy_table NsCatalog TyDoctor _ = {1}"
| "policy_table NsCatalog TyAssertion Read = {2}"
| "policy_table NsCatalog TyAssertion Write = {1}"
| "policy_table NsCatalog TyAdvice Read = {2}"
| "policy_table NsCatalog TyAdvice Write = {1}"
| "policy_table NsCatalog _ _ = {}"
| "policy_table _ _ Read = {2}"
| "policy_table _ _ Write = {1}"
| "policy_table _ _ Execute = {}"

lemma required_flags:
  "flags (required_capabilities b a) = policy_table (brn_ns b) (brn_ty b) a"
  by (cases "brn_ns b"; cases "brn_ty b"; cases a) (auto simp: required_capabilities_def)

text \<open>
  C1: \<open>CapabilityPolicy::authorize\<close> implements the access table of its comments, bit by bit. A request is
  allowed exactly when the caller holds every flag the table lists for the resource and the action;
  otherwise the error reports the required and the actual set.
\<close>

theorem authorize_implements_table:
  "authorize auth b a =
     (if policy_table (brn_ns b) (brn_ty b) a \<subseteq> flags (capabilities auth) then Inr ()
      else Inl (InsufficientCapabilities (required_capabilities b a) (capabilities auth)))"
  by (simp add: authorize_def cs_contains_flags required_flags Let_def)

text \<open>
  exactly which requests a caller without any capability may make. Beside execution of
  providers, templates, infrastructure and the passive catalog entries, every action (writes
  included) on a catalog name whose type is not one of the four catalog types is open, and
  \<open>Brn::parse\<close> accepts such names.
\<close>

theorem anonymous_access_iff:
  "authorize \<lparr>principal = p, capabilities = 0\<rparr> b a = Inr () \<longleftrightarrow>
     (a = Execute \<and> brn_ns b \<in> {NsProvider, NsTemplate, NsInfra})
     \<or> (a = Execute \<and> brn_ns b = NsCatalog \<and> brn_ty b \<in> {TyAssertion, TyAdvice})
     \<or> (brn_ns b = NsCatalog
         \<and> brn_ty b \<notin> {TyDoctor, TyAssertion, TyAdvice, TyExperience})"
  unfolding authorize_flags required_flags
  by (cases "brn_ns b"; cases "brn_ty b"; cases a) auto

end
