(* ===== verification/Sandbox_Lifecycle.thy ===== *)
theory Sandbox_Lifecycle
  imports Bastion_Prelude
begin

text \<open>
  The sandbox aggregate and its two state machines: statuses, resource and network
  specifications (\<open>crates/bastion-domain/src/sandbox/value_objects.rs\<close>), domain errors
  (\<open>shared/error.rs\<close>), the entity with its transitions (\<open>sandbox/entity.rs\<close>), the
  state manager port (\<open>sandbox/state_manager.rs\<close>) as a locale, and its two
  implementations (\<open>crates/bastion-domain/src/provider/state_machine.rs\<close> and
  \<open>crates/bastion-infrastructure/src/provider/state_machine.rs\<close>), each an
  interpretation of the locale.

  Times are integers (nanoseconds since an epoch); the clock's reading is an argument of the
  operations that read it. The arithmetic of the date library is an argument too: \<open>add_millis t d\<close>
  is the date \<open>d\<close> milliseconds after \<open>t\<close>, \<open>None\<close> where the library panics.
\<close>

subsection \<open>Identifiers, statuses, errors\<close>

type_synonym sandbox_id = string
type_synonym template_id = string
type_synonym provider_id = string
type_synonym timestamp = int

datatype sandbox_status = Pending | Running | Paused | Stopped | Failed

fun status_display :: "sandbox_status \<Rightarrow> string" where
  "status_display Pending = ''pending''"
| "status_display Running = ''running''"
| "status_display Paused = ''paused''"
| "status_display Stopped = ''stopped''"
| "status_display Failed = ''failed''"

text \<open>The derived \<open>Debug\<close> text, used in error messages.\<close>

fun status_debug :: "sandbox_status \<Rightarrow> string" where
  "status_debug Pending = ''Pending''"
| "status_debug Running = ''Running''"
| "status_debug Paused = ''Paused''"
| "status_debug Stopped = ''Stopped''"
| "status_debug Failed = ''Failed''"

fun status_is_active :: "sandbox_status \<Rightarrow> bool" where
  "status_is_active Running = True"
| "status_is_active Pending = True"
| "status_is_active _ = False"

fun status_is_terminal :: "sandbox_status \<Rightarrow> bool" where
  "status_is_terminal Stopped = True"
| "status_is_terminal Failed = True"
| "status_is_terminal _ = False"

datatype domain_error =
    NotFound string
  | AlreadyExists string
  | Timeout string
  | UnsupportedOperation string
  | ProviderUnavailable string
  | ResourceExhausted string
  | PermissionDenied string
  | CommandFailed "32 word" string
  | Config string
  | Validation string
  | Internal string
  | PoisonedLock string
  | WorkerNotConnected string

subsection \<open>Value objects\<close>

record resources_spec =
  cpu_count :: "32 word"
  memory_mb :: "64 word"
  disk_mb :: "64 word"

definition resources_new ::
    "32 word \<Rightarrow> 64 word \<Rightarrow> 64 word \<Rightarrow> (domain_error, resources_spec) result" where
  "resources_new cpu mem disk =
     (if cpu = 0 then Err (Validation ''cpu_count must be at least 1'')
      else Ok \<lparr>cpu_count = cpu, memory_mb = mem, disk_mb = disk\<rparr>)"

definition resources_default :: resources_spec where
  "resources_default = \<lparr>cpu_count = 1, memory_mb = 512, disk_mb = 1024\<rparr>"

record network_spec =
  allow_internet :: bool
  allowed_hosts :: "string list"
  denied_hosts :: "string list"
  expose_ports :: bool
  exposed_ports :: "16 word list"

definition network_default :: network_spec where
  "network_default =
     \<lparr>allow_internet = True, allowed_hosts = [], denied_hosts = [],
      expose_ports = False, exposed_ports = []\<rparr>"

record sandbox_filter =
  flt_provider_name :: "string option"
  flt_status :: "sandbox_status option"
  flt_limit :: "32 word option"
  flt_cursor :: "string option"

datatype sandbox_purpose =
  AdHocTest | ProofOfConcept | E2eTest | RealTest | PipelineStage | Job

subsection \<open>The sandbox entity\<close>

record sandbox =
  sb_id :: sandbox_id
  sb_template :: template_id
  sb_provider :: provider_id
  sb_instance :: "string option"
  sb_status :: sandbox_status
  sb_created :: timestamp
  sb_expires :: "timestamp option"
  sb_resources :: resources_spec
  sb_network :: network_spec
  sb_metadata :: "(string \<times> string) list"
  sb_project :: "string option"
  sb_purpose :: "sandbox_purpose option"

definition sandbox_new ::
    "timestamp \<Rightarrow> sandbox_id \<Rightarrow> template_id \<Rightarrow> provider_id \<Rightarrow> string option \<Rightarrow>
     resources_spec \<Rightarrow> network_spec \<Rightarrow> sandbox" where
  "sandbox_new now i tmpl prov inst res net =
     \<lparr>sb_id = i, sb_template = tmpl, sb_provider = prov, sb_instance = inst,
      sb_status = Pending, sb_created = now, sb_expires = None, sb_resources = res,
      sb_network = net, sb_metadata = [], sb_project = None, sb_purpose = None\<rparr>"

definition sandbox_new_with_project ::
    "timestamp \<Rightarrow> sandbox_id \<Rightarrow> template_id \<Rightarrow> provider_id \<Rightarrow> string option \<Rightarrow>
     resources_spec \<Rightarrow> network_spec \<Rightarrow> string \<Rightarrow> sandbox_purpose \<Rightarrow> sandbox" where
  "sandbox_new_with_project now i tmpl prov inst res net proj purpose =
     \<lparr>sb_id = i, sb_template = tmpl, sb_provider = prov, sb_instance = inst,
      sb_status = Pending, sb_created = now, sb_expires = None, sb_resources = res,
      sb_network = net, sb_metadata = [], sb_project = Some proj, sb_purpose = Some purpose\<rparr>"

definition mark_running :: "sandbox \<Rightarrow> (domain_error, unit) result \<times> sandbox" where
  "mark_running s =
     (case sb_status s of
        Pending \<Rightarrow> (Ok (), s\<lparr>sb_status := Running\<rparr>)
      | Paused \<Rightarrow> (Ok (), s\<lparr>sb_status := Running\<rparr>)
      | st \<Rightarrow> (Err (Validation (''Cannot transition sandbox '' @ sb_id s @ '' from ''
                 @ status_debug st @ '' to Running'')), s))"

definition sb_terminate :: "sandbox \<Rightarrow> (domain_error, unit) result \<times> sandbox" where
  "sb_terminate s =
     (case sb_status s of
        Running \<Rightarrow> (Ok (), s\<lparr>sb_status := Stopped\<rparr>)
      | Pending \<Rightarrow> (Ok (), s\<lparr>sb_status := Stopped\<rparr>)
      | Paused \<Rightarrow> (Ok (), s\<lparr>sb_status := Stopped\<rparr>)
      | Stopped \<Rightarrow> (Err (Validation (''Sandbox '' @ sb_id s @ '' is already stopped'')), s)
      | Failed \<Rightarrow>
          (Err (Validation (''Sandbox '' @ sb_id s @ '' has failed, cannot terminate'')), s))"

definition mark_failed :: "sandbox \<Rightarrow> sandbox" where
  "mark_failed s = s\<lparr>sb_status := Failed\<rparr>"

definition is_expired :: "timestamp \<Rightarrow> sandbox \<Rightarrow> bool" where
  "is_expired now s = (case sb_expires s of Some e \<Rightarrow> now > e | None \<Rightarrow> False)"

text \<open>The 64-bit timeout is cast to a signed number of milliseconds; \<open>None\<close> is the panic.\<close>

definition set_timeout ::
    "(timestamp \<Rightarrow> int \<Rightarrow> timestamp option) \<Rightarrow> 64 word \<Rightarrow> sandbox \<Rightarrow> sandbox option" where
  "set_timeout add_millis timeout_ms s =
     map_option (\<lambda>e. s\<lparr>sb_expires := Some e\<rparr>) (add_millis (sb_created s) (sint timeout_ms))"

definition sb_is_active :: "sandbox \<Rightarrow> bool" where
  "sb_is_active s = (sb_status s = Running \<or> sb_status s = Pending)"

subsection \<open>The state manager port\<close>

fun is_valid_transition :: "sandbox_status \<Rightarrow> sandbox_status \<Rightarrow> bool" where
  "is_valid_transition Pending Running = True"
| "is_valid_transition Pending Stopped = True"
| "is_valid_transition Pending Failed = True"
| "is_valid_transition Running Paused = True"
| "is_valid_transition Running Stopped = True"
| "is_valid_transition Running Failed = True"
| "is_valid_transition Paused Running = True"
| "is_valid_transition Paused Stopped = True"
| "is_valid_transition _ _ = False"

text \<open>The statuses a sandbox can pass through, from one on: zero or more valid transitions.\<close>

inductive lifecycle :: "sandbox_status \<Rightarrow> sandbox_status \<Rightarrow> bool" where
  stay: "lifecycle st st"
| move: "lifecycle st st1 \<Longrightarrow> is_valid_transition st1 st2 \<Longrightarrow> lifecycle st st2"

inductive_cases lifecycle_moveE: "lifecycle st st2"

lemma lifecycle_trans: "lifecycle b c \<Longrightarrow> lifecycle a b \<Longrightarrow> lifecycle a c"
  by (induction rule: lifecycle.induct) (auto intro: lifecycle.intros)

lemma no_transition_from_terminal: "status_is_terminal a \<Longrightarrow> \<not> is_valid_transition a b"
  by (cases a; cases b) auto

lemma lifecycle_terminal: "lifecycle a b \<Longrightarrow> status_is_terminal a \<Longrightarrow> b = a"
  by (induction rule: lifecycle.induct) (auto simp: no_transition_from_terminal)

text \<open>
  The calls of the port that change the table, as data, so that a run is a list of them. The
  time a registration reads from the clock travels with the call.
\<close>

datatype fsm_op =
  OpRegister timestamp sandbox_id | OpTransition sandbox_id sandbox_status | OpRemove sandbox_id

fun apply_op ::
    "(timestamp \<Rightarrow> sandbox_id \<Rightarrow> 's \<Rightarrow> (domain_error, unit) result \<times> 's) \<Rightarrow>
     (sandbox_id \<Rightarrow> sandbox_status \<Rightarrow> 's \<Rightarrow> (domain_error, sandbox_status) result \<times> 's) \<Rightarrow>
     (sandbox_id \<Rightarrow> 's \<Rightarrow> 'p option \<times> 's) \<Rightarrow> fsm_op \<Rightarrow> 's \<Rightarrow> 's" where
  "apply_op register transition remove (OpRegister t i) s = snd (register t i s)"
| "apply_op register transition remove (OpTransition i st) s = snd (transition i st s)"
| "apply_op register transition remove (OpRemove i) s = snd (remove i s)"

fun touches :: "sandbox_id \<Rightarrow> fsm_op \<Rightarrow> bool" where
  "touches i (OpRegister t j) = (i = j)"
| "touches i (OpRemove j) = (i = j)"
| "touches i (OpTransition j st) = False"

text \<open>
  What the port promises. A registration always leaves the sandbox pending and fails when the
  identifier was taken; a transition changes the status exactly when it is valid.
\<close>

locale state_manager =
  fixes get_state :: "'s \<Rightarrow> sandbox_id \<Rightarrow> sandbox_status option"
    and register :: "timestamp \<Rightarrow> sandbox_id \<Rightarrow> 's \<Rightarrow> (domain_error, unit) result \<times> 's"
    and transition ::
      "sandbox_id \<Rightarrow> sandbox_status \<Rightarrow> 's \<Rightarrow> (domain_error, sandbox_status) result \<times> 's"
    and remove :: "sandbox_id \<Rightarrow> 's \<Rightarrow> 'p option \<times> 's"
  assumes register_result:
      "is_ok (fst (register t i s)) \<longleftrightarrow> get_state s i = None"
    and register_state:
      "get_state (snd (register t i s)) = (get_state s)(i \<mapsto> Pending)"
    and transition_result:
      "fst (transition i st s) = Inr old \<longleftrightarrow>
         get_state s i = Some old \<and> is_valid_transition old st"
    and transition_state:
      "get_state (snd (transition i st s)) =
         (if is_ok (fst (transition i st s)) then (get_state s)(i \<mapsto> st) else get_state s)"
    and remove_state: "get_state (snd (remove i s)) = (get_state s)(i := None)"
begin

lemma apply_op_step:
  assumes "get_state s i = Some st" and "\<not> touches i c"
  shows "\<exists>st'. get_state (apply_op register transition remove c s) i = Some st' \<and>
           (st' = st \<or> is_valid_transition st st')"
proof (cases c)
  case (OpTransition j new)
  show ?thesis
  proof (cases "is_ok (fst (transition j new s))")
    case True
    then obtain old where "fst (transition j new s) = Inr old" by (auto simp: is_ok_iff)
    then have "get_state s j = Some old" "is_valid_transition old new"
      by (simp_all add: transition_result)
    then show ?thesis using True OpTransition assms by (auto simp: transition_state)
  qed (use OpTransition assms in \<open>simp add: transition_state\<close>)
qed (use assms in \<open>auto simp: register_state remove_state\<close>)

lemma run_lifecycle:
  assumes "get_state s i = Some st" and "\<forall>c \<in> set cs. \<not> touches i c"
  shows "\<exists>st'. get_state (fold (apply_op register transition remove) cs s) i = Some st'
           \<and> lifecycle st st'"
  using assms
proof (induction cs arbitrary: s st)
  case Nil
  then show ?case by (auto intro: lifecycle.stay)
next
  case (Cons c cs)
  obtain st1 where st1: "get_state (apply_op register transition remove c s) i = Some st1"
      "st1 = st \<or> is_valid_transition st st1"
    using apply_op_step [of s i st c] Cons.prems by auto
  then have "lifecycle st st1" by (auto intro: lifecycle.intros)
  with Cons.IH [OF st1(1)] Cons.prems st1 show ?case
    by (auto intro: lifecycle_trans)
qed

lemma run_terminal:
  assumes "get_state s i = Some st" and "status_is_terminal st"
    and "\<forall>c \<in> set cs. \<not> touches i c"
  shows "get_state (fold (apply_op register transition remove) cs s) i = Some st"
  using run_lifecycle [OF assms(1,3)] assms(2) lifecycle_terminal by blast

lemma register_resets:
  "get_state s i = Some st \<Longrightarrow>
     \<not> is_ok (fst (register t i s)) \<and> get_state (snd (register t i s)) i = Some Pending"
  by (simp add: register_result register_state)

end

subsection \<open>The state machine of the domain crate\<close>

text \<open>
  The concurrent map from identifiers to entries is an association list with one entry per
  identifier, in the (unspecified) order in which the map is iterated. The payload is opaque.
\<close>

record 'p state_entry =
  se_status :: sandbox_status
  se_payload :: "'p option"
  se_registered :: timestamp

type_synonym 'p fsm = "(sandbox_id \<times> 'p state_entry) list"

definition fsm_new :: "'p fsm" where
  "fsm_new = []"

definition fsm_register ::
    "timestamp \<Rightarrow> sandbox_id \<Rightarrow> 'p fsm \<Rightarrow> (domain_error, unit) result \<times> 'p fsm" where
  "fsm_register now i s =
     (let entry = \<lparr>se_status = Pending, se_payload = None, se_registered = now\<rparr>;
          s' = AList.update i entry s
      in if map_of s i \<noteq> None
         then (Err (AlreadyExists ''Sandbox already registered''), s')
         else (Ok (), s'))"

definition fsm_transition ::
    "sandbox_id \<Rightarrow> sandbox_status \<Rightarrow> 'p fsm \<Rightarrow>
     (domain_error, sandbox_status) result \<times> 'p fsm" where
  "fsm_transition i new_status s =
     (case map_of s i of
        None \<Rightarrow> (Err (NotFound (''Sandbox '' @ i @ '' not found'')), s)
      | Some entry \<Rightarrow>
          (let old_status = se_status entry in
           if \<not> is_valid_transition old_status new_status
           then (Err (Validation (''Invalid transition from '' @ status_debug old_status
                   @ '' to '' @ status_debug new_status)), s)
           else (Ok old_status, AList.update i (entry\<lparr>se_status := new_status\<rparr>) s)))"

definition fsm_get_state :: "'p fsm \<Rightarrow> sandbox_id \<Rightarrow> sandbox_status option" where
  "fsm_get_state s i = map_option se_status (map_of s i)"

definition fsm_attach_payload ::
    "sandbox_id \<Rightarrow> 'p \<Rightarrow> 'p fsm \<Rightarrow> (domain_error, unit) result \<times> 'p fsm" where
  "fsm_attach_payload i payload s =
     (case map_of s i of
        None \<Rightarrow> (Err (NotFound (''Sandbox '' @ i @ '' not found'')), s)
      | Some entry \<Rightarrow> (Ok (), AList.update i (entry\<lparr>se_payload := Some payload\<rparr>) s))"

text \<open>The typed read: \<open>downcast\<close> is the run-time type test, \<open>None\<close> for another type.\<close>

definition fsm_get_payload ::
    "('p \<Rightarrow> 't option) \<Rightarrow> sandbox_id \<Rightarrow> 'p fsm \<Rightarrow> 't option" where
  "fsm_get_payload downcast i s =
     Option.bind (map_of s i) (\<lambda>entry. Option.bind (se_payload entry) downcast)"

definition fsm_remove :: "sandbox_id \<Rightarrow> 'p fsm \<Rightarrow> 'p option \<times> 'p fsm" where
  "fsm_remove i s = (Option.bind (map_of s i) se_payload, AList.delete i s)"

definition fsm_list_active :: "'p fsm \<Rightarrow> sandbox_id list" where
  "fsm_list_active s = map fst s"

text \<open>\<open>*counts.entry(status).or_default() += 1\<close> for every entry.\<close>

definition bump_count :: "sandbox_status \<Rightarrow> (sandbox_status \<rightharpoonup> nat) \<Rightarrow> (sandbox_status \<rightharpoonup> nat)"
  where
  "bump_count st m = m(st \<mapsto> (case m st of None \<Rightarrow> 0 | Some n \<Rightarrow> n) + 1)"

definition fsm_count_by_status :: "'p fsm \<Rightarrow> (sandbox_status \<rightharpoonup> nat)" where
  "fsm_count_by_status s = fold (\<lambda>(i, e). bump_count (se_status e)) s Map.empty"

lemmas fsm_defs = fsm_register_def fsm_transition_def fsm_get_state_def fsm_remove_def
  fsm_attach_payload_def

lemma fsm_get_state_eq: "fsm_get_state s = map_option se_status \<circ> map_of s"
  by (simp add: fun_eq_iff fsm_get_state_def)

interpretation fsm: state_manager fsm_get_state fsm_register fsm_transition fsm_remove
proof (unfold_locales, goal_cases)
  case (1 t i s)
  show ?case by (auto simp: fsm_defs Let_def)
next
  case (2 t i s)
  show ?case by (auto simp: fsm_defs Let_def fun_eq_iff update_conv')
next
  case (3 i st s old)
  show ?case by (auto simp: fsm_defs Let_def split: option.splits)
next
  case (4 i st s)
  show ?case by (auto simp: fsm_defs Let_def fun_eq_iff update_conv' split: option.splits)
next
  case (5 i s)
  show ?case by (auto simp: fsm_defs fun_eq_iff delete_conv')
qed

subsection \<open>The state machine of the infrastructure crate\<close>

text \<open>
  \<open>DashMapSandboxStateMachine\<close> repeats the table and the operations on its own types; it is
  modelled from its own source and is a second interpretation of the port.
\<close>

fun dm_is_valid_transition :: "sandbox_status \<Rightarrow> sandbox_status \<Rightarrow> bool" where
  "dm_is_valid_transition Pending to = (to = Running \<or> to = Stopped \<or> to = Failed)"
| "dm_is_valid_transition Running to = (to = Paused \<or> to = Stopped \<or> to = Failed)"
| "dm_is_valid_transition Paused to = (to = Running \<or> to = Stopped)"
| "dm_is_valid_transition Stopped to = False"
| "dm_is_valid_transition Failed to = False"

definition dm_register ::
    "timestamp \<Rightarrow> sandbox_id \<Rightarrow> 'p fsm \<Rightarrow> (domain_error, unit) result \<times> 'p fsm" where
  "dm_register now i s =
     (let entry = \<lparr>se_status = Pending, se_payload = None, se_registered = now\<rparr> in
      ((case map_of s i of
          Some old \<Rightarrow> Err (AlreadyExists ''Sandbox already registered'')
        | None \<Rightarrow> Ok ()),
       AList.update i entry s))"

definition dm_transition ::
    "sandbox_id \<Rightarrow> sandbox_status \<Rightarrow> 'p fsm \<Rightarrow>
     (domain_error, sandbox_status) result \<times> 'p fsm" where
  "dm_transition i new_status s =
     (case map_of s i of
        None \<Rightarrow> (Err (NotFound (''Sandbox '' @ i @ '' not found'')), s)
      | Some entry \<Rightarrow>
          (if dm_is_valid_transition (se_status entry) new_status
           then (Ok (se_status entry), AList.update i (entry\<lparr>se_status := new_status\<rparr>) s)
           else (Err (Validation (''Invalid transition from ''
                   @ status_debug (se_status entry) @ '' to '' @ status_debug new_status)), s)))"

definition dm_get_state :: "'p fsm \<Rightarrow> sandbox_id \<Rightarrow> sandbox_status option" where
  "dm_get_state s i = map_option se_status (map_of s i)"

definition dm_remove :: "sandbox_id \<Rightarrow> 'p fsm \<Rightarrow> 'p option \<times> 'p fsm" where
  "dm_remove i s =
     (case map_of s i of None \<Rightarrow> None | Some entry \<Rightarrow> se_payload entry, AList.delete i s)"

lemma dm_is_valid_transition_eq: "dm_is_valid_transition a b = is_valid_transition a b"
  by (cases a; cases b) auto

lemma dm_eqs:
  "dm_get_state = fsm_get_state" "dm_register = fsm_register"
  "dm_transition = fsm_transition" "dm_remove = fsm_remove"
  by (auto simp: fun_eq_iff dm_get_state_def dm_register_def dm_transition_def dm_remove_def
      fsm_defs Let_def dm_is_valid_transition_eq split: option.splits)

interpretation dm: state_manager dm_get_state dm_register dm_transition dm_remove
  unfolding dm_eqs by (rule fsm.state_manager_axioms)

subsection \<open>What the state machines guarantee\<close>

text \<open>
  C3: in both state machines, whatever calls are made, the status of a sandbox that is neither
  registered again nor removed moves only along valid transitions, and a stopped or failed sandbox
  keeps its status for ever.
\<close>

theorem statuses_follow_lifecycle:
  assumes "fsm_get_state s i = Some st" and "\<forall>c \<in> set cs. \<not> touches i c"
  shows "\<exists>st'. fsm_get_state (fold (apply_op fsm_register fsm_transition fsm_remove) cs s) i
               = Some st'
           \<and> dm_get_state (fold (apply_op dm_register dm_transition dm_remove) cs s) i = Some st'
           \<and> lifecycle st st' \<and> (if status_is_terminal st then st' = st else True)"
proof -
  obtain st' where st': "fsm_get_state
      (fold (apply_op fsm_register fsm_transition fsm_remove) cs s) i = Some st'" "lifecycle st st'"
    using fsm.run_lifecycle [OF assms] by blast
  moreover have "status_is_terminal st \<Longrightarrow> st' = st"
    using lifecycle_terminal [OF st'(2)] by simp
  ultimately show ?thesis by (auto simp: dm_eqs)
qed

lemma statuses_follow_lifecycle_witness:
  "\<exists>st'. fsm_get_state (fold (apply_op fsm_register fsm_transition fsm_remove)
             [OpTransition ''a'' Running, OpTransition ''a'' Stopped, OpTransition ''a'' Running]
             [(''a'', \<lparr>se_status = Pending, se_payload = None :: nat option, se_registered = 0\<rparr>)])
             ''a'' = Some st'
     \<and> lifecycle Pending st' \<and> st' = Stopped"
  using statuses_follow_lifecycle [of "[(''a'', \<lparr>se_status = Pending,
      se_payload = None :: nat option, se_registered = 0\<rparr>)]" "''a''" Pending
      "[OpTransition ''a'' Running, OpTransition ''a'' Stopped, OpTransition ''a'' Running]"]
  by (simp add: fsm_defs Let_def)

text \<open>
  registering an identifier that is already taken reports \<open>AlreadyExists\<close> but has already
  replaced the entry: the sandbox is pending again, whatever its status was (a stopped one
  included), and its payload is lost.
\<close>

theorem register_taken_id_resets:
  assumes "fsm_get_state s i = Some st"
  shows "fst (fsm_register now i s) = Inl (AlreadyExists ''Sandbox already registered'')
         \<and> fsm_get_state (snd (fsm_register now i s)) i = Some Pending
         \<and> fsm_get_payload downcast i (snd (fsm_register now i s)) = None
         \<and> dm_register now i s = fsm_register now i s"
  using assms fsm.register_resets [OF assms, of now]
  by (auto simp: fsm_register_def fsm_get_payload_def Let_def fsm_get_state_def update_conv' dm_eqs)

lemma register_taken_id_resets_witness:
  "fsm_get_state (snd (fsm_register 7 ''a''
      [(''a'', \<lparr>se_status = Stopped, se_payload = Some (1 :: nat), se_registered = 0\<rparr>)])) ''a''
   = Some Pending"
  using register_taken_id_resets [of "[(''a'', \<lparr>se_status = Stopped, se_payload = Some (1 :: nat),
      se_registered = 0\<rparr>)]" "''a''" Stopped 7 Some]
  by (simp add: fsm_get_state_def)

lemma fold_apply_op_distinct:
  "distinct (map fst s) \<Longrightarrow>
     distinct (map fst (fold (apply_op fsm_register fsm_transition fsm_remove) cs s))"
proof (induction cs arbitrary: s)
  case (Cons c cs)
  have "distinct (map fst (apply_op fsm_register fsm_transition fsm_remove c s))"
    using Cons.prems
    by (cases c) (auto simp: fsm_defs Let_def distinct_update distinct_delete
        split: option.splits)
  then show ?case by (simp add: Cons.IH)
qed simp

lemma fold_bump_count:
  "fold (\<lambda>(i, e). bump_count (se_status e)) s m st =
     (let n = length (filter (\<lambda>(i, e). se_status e = st) s)
      in if n = 0 then m st else Some ((case m st of None \<Rightarrow> 0 | Some k \<Rightarrow> k) + n))"
  by (induction s arbitrary: m) (auto simp: bump_count_def Let_def split: option.splits)

lemma card_status:
  assumes "distinct (map fst s)"
  shows "card {i. fsm_get_state s i = Some st} =
           length (filter (\<lambda>(i, e). se_status e = st) s)"
proof -
  have "{i. fsm_get_state s i = Some st} = fst ` set (filter (\<lambda>(i, e). se_status e = st) s)"
    using assms by (force simp: fsm_get_state_def image_iff)
  also have "\<dots> = set (map fst (filter (\<lambda>(i, e). se_status e = st) s))" by simp
  also have "card \<dots> = length (map fst (filter (\<lambda>(i, e). se_status e = st) s))"
    using assms by (intro distinct_card distinct_map_filter)
  finally show ?thesis by simp
qed

text \<open>
  in every state the machine can reach, \<open>list_active\<close> lists each known sandbox once and
  \<open>count_by_status\<close> maps a status to the number of sandboxes that have it, with no entry for a
  status nobody has.
\<close>

theorem reachable_counts_exact:
  "let s = fold (apply_op fsm_register fsm_transition fsm_remove) cs fsm_new;
       n = card {i. fsm_get_state s i = Some st}
   in distinct (fsm_list_active s)
      \<and> set (fsm_list_active s) = {i. fsm_get_state s i \<noteq> None}
      \<and> fsm_count_by_status s st = (if n = 0 then None else Some n)"
proof -
  define s :: "'a fsm"
    where "s = fold (apply_op fsm_register fsm_transition fsm_remove) cs fsm_new"
  have d: "distinct (map fst s)"
    unfolding s_def by (rule fold_apply_op_distinct) (simp add: fsm_new_def)
  have "set (map fst s) = {i. fsm_get_state s i \<noteq> None}"
    by (auto simp: fsm_get_state_def map_of_eq_None_iff)
  moreover have "fsm_count_by_status s st =
      (let n = card {i. fsm_get_state s i = Some st} in if n = 0 then None else Some n)"
    unfolding card_status [OF d] fsm_count_by_status_def
    by (simp add: fold_bump_count Let_def)
  ultimately show ?thesis
    using d unfolding s_def [symmetric] by (simp add: fsm_list_active_def Let_def)
qed

subsection \<open>The entity agrees with the state machine\<close>

text \<open>
  the entity's own transitions follow the machine's table. \<open>mark_running\<close> and \<open>terminate\<close>
  succeed exactly when the move to \<open>Running\<close> or \<open>Stopped\<close> is valid, set that status and touch
  nothing else, and leave the sandbox unchanged when they fail; \<open>mark_failed\<close> performs a valid
  transition only from \<open>Pending\<close> and \<open>Running\<close>, but is never refused.
\<close>

theorem entity_follows_table:
  "(is_ok (fst (mark_running s)) \<longleftrightarrow> is_valid_transition (sb_status s) Running)
   \<and> (is_ok (fst (sb_terminate s)) \<longleftrightarrow> is_valid_transition (sb_status s) Stopped)
   \<and> (is_valid_transition (sb_status s) (sb_status (mark_failed s)) \<longleftrightarrow>
        sb_status s = Pending \<or> sb_status s = Running)
   \<and> snd (mark_running s) = (if is_ok (fst (mark_running s)) then s\<lparr>sb_status := Running\<rparr> else s)
   \<and> snd (sb_terminate s) = (if is_ok (fst (sb_terminate s)) then s\<lparr>sb_status := Stopped\<rparr> else s)"
  by (cases "sb_status s") (simp_all add: mark_running_def sb_terminate_def mark_failed_def)

text \<open>
  a sandbox cannot be terminated twice: after \<open>terminate\<close> was called once, with any outcome,
  every later call fails with a validation error and changes nothing, and the sandbox accepts no
  commands any more.
\<close>

theorem terminate_at_most_once:
  "let t = snd (sb_terminate s)
   in (\<exists>msg. sb_terminate t = (Inl (Validation msg), t))
      \<and> \<not> sb_is_active t \<and> \<not> is_ok (fst (mark_running t))"
  by (cases "sb_status s")
    (simp_all add: sb_terminate_def mark_running_def sb_is_active_def Let_def)

text \<open>
  the timeout of a sandbox is stored as a 64-bit unsigned number of milliseconds but added as a
  signed one: a timeout of 2^63 milliseconds or more puts the expiry before the creation, so the
  sandbox is expired from the moment it is created, while smaller timeouts expire it only after its
  creation time has passed. The hypotheses are the date library's addition law for
  negative and non-negative numbers of milliseconds.
\<close>

theorem set_timeout_sign:
  assumes add_neg: "\<And>t d e. d < 0 \<Longrightarrow> add_millis t d = Some e \<Longrightarrow> e < t"
    and add_pos: "\<And>t d e. 0 \<le> d \<Longrightarrow> add_millis t d = Some e \<Longrightarrow> t \<le> e"
    and set: "set_timeout add_millis timeout_ms s = Some s'"
  shows "is_expired (sb_created s) s' \<longleftrightarrow> 2 ^ 63 \<le> unat timeout_ms"
proof -
  obtain e where e: "add_millis (sb_created s) (sint timeout_ms) = Some e"
      and s': "s' = s\<lparr>sb_expires := Some e\<rparr>"
    using set by (auto simp: set_timeout_def)
  have "is_expired (sb_created s) s' \<longleftrightarrow> e < sb_created s" by (simp add: s' is_expired_def)
  also have "\<dots> \<longleftrightarrow> sint timeout_ms < 0"
    using add_neg [OF _ e] add_pos [OF _ e] by (cases "sint timeout_ms < 0") auto
  also have "\<dots> \<longleftrightarrow> 2 ^ 63 \<le> unat timeout_ms"
    using sint_neg_iff [of timeout_ms] by simp
  finally show ?thesis .
qed

text \<open>
  Witness for the previous property: a clock in nanoseconds, to which milliseconds are added without
  bounds, and a timeout of 2^63 milliseconds.
\<close>

theorem set_timeout_sign_witness:
  "is_expired 5 (sandbox_new 5 ''id'' ''t'' ''p'' None resources_default network_default
     \<lparr>sb_expires := Some (5 + sint (2 ^ 63 :: 64 word) * 1000000)\<rparr>)"
  using set_timeout_sign [of "\<lambda>t d. Some (t + d * 1000000)" "2 ^ 63"
      "sandbox_new 5 ''id'' ''t'' ''p'' None resources_default network_default"]
  by (simp add: set_timeout_def sandbox_new_def)

end
