(* ===== verification/Sandbox_Usecases.thy ===== *)
theory Sandbox_Usecases
  imports Sandbox_Lifecycle
begin

text \<open>
  The application layer over its two ports: the provider port
  (\<open>crates/bastion-domain/src/provider/port.rs\<close>) and the repository port
  (\<open>crates/bastion-domain/src/sandbox/repository.rs\<close>) as records of functions, the in-memory
  repository (\<open>crates/bastion-infrastructure/src/persistence/in_memory.rs\<close>), and the use cases of
  \<open>crates/bastion-application/src\<close> (\<open>sandbox\<close>, \<open>execution\<close>, \<open>file_ops\<close>) that call
  them.

  A port object is a record of its methods. Every operation takes the state it acts on and gives it back:
  \<open>'r\<close> is what the repository keeps, \<open>'w\<close> is everything a provider acts on (containers, processes,
  files). A use case runs on the pair of the two. Nothing is assumed of a provider; what a repository
  promises is the locale \<open>sandbox_repository\<close>, interpreted on the in-memory repository. The random
  identifier a use case draws is an argument.
\<close>

subsection \<open>Commands and files\<close>

datatype secret_source = SecretRef string | SecretInline string

record command_spec =
  cmd_command :: string
  cmd_args :: "string list"
  cmd_working_dir :: "string option"
  cmd_env_vars :: "(string \<times> string) list"
  cmd_timeout_ms :: "64 word option"
  cmd_secrets :: "(string \<times> secret_source) list"

record command_result =
  res_exit_code :: "32 word"
  res_stdout :: "8 word list"
  res_stderr :: "8 word list"
  res_duration_ms :: "64 word"
  res_timed_out :: bool

datatype chunk_type = StdoutChunk | StderrChunk | ExitCodeChunk | ProgressChunk | ErrorChunk

record command_chunk =
  chunk_kind :: chunk_type
  chunk_data :: "8 word list"
  chunk_final :: bool

record file_entry =
  fe_path :: string
  fe_is_directory :: bool
  fe_size_bytes :: "64 word"
  fe_modified_at :: "timestamp option"
  fe_permissions :: string

type_synonym command_stream = "(domain_error, command_chunk) result list"

text \<open>A call of a port: it may fail and it changes the state \<open>'s\<close> of the object behind it.\<close>

type_synonym ('s, 'a) port_call = "'s \<Rightarrow> (domain_error, 'a) result \<times> 's"

subsection \<open>The provider port\<close>

record 'w provider =
  pr_create :: "sandbox_id \<Rightarrow> string \<Rightarrow> resources_spec \<Rightarrow> network_spec \<Rightarrow>
     (string \<times> string) list \<Rightarrow> 64 word \<Rightarrow> ('w, sandbox) port_call"
  pr_terminate :: "sandbox_id \<Rightarrow> ('w, unit) port_call"
  pr_is_alive :: "sandbox_id \<Rightarrow> ('w, bool) port_call"
  pr_run_command :: "sandbox_id \<Rightarrow> command_spec \<Rightarrow> ('w, command_result) port_call"
  pr_run_command_stream :: "sandbox_id \<Rightarrow> command_spec \<Rightarrow> ('w, command_stream) port_call"
  pr_cancel_command :: "sandbox_id \<Rightarrow> 64 word \<Rightarrow> ('w, bool) port_call"
  pr_write_file :: "sandbox_id \<Rightarrow> string \<Rightarrow> 8 word list \<Rightarrow> ('w, unit) port_call"
  pr_read_file :: "sandbox_id \<Rightarrow> string \<Rightarrow> ('w, 8 word list) port_call"
  pr_list_files :: "sandbox_id \<Rightarrow> string \<Rightarrow> ('w, file_entry list) port_call"
  pr_list_sandboxes :: "sandbox_filter \<Rightarrow> ('w, sandbox list) port_call"

subsection \<open>The repository port\<close>

record 'r repository =
  rp_save :: "sandbox \<Rightarrow> ('r, unit) port_call"
  rp_find_by_id :: "sandbox_id \<Rightarrow> ('r, sandbox option) port_call"
  rp_update :: "sandbox \<Rightarrow> ('r, unit) port_call"
  rp_delete :: "sandbox_id \<Rightarrow> ('r, unit) port_call"
  rp_find_active :: "('r, sandbox list) port_call"
  rp_find_expired :: "timestamp \<Rightarrow> ('r, sandbox list) port_call"

subsection \<open>The in-memory repository\<close>

text \<open>
  A hash map from identifiers to sandboxes, as an association list in the order in which the map
  happens to be iterated.
\<close>

type_synonym in_memory_store = "(sandbox_id \<times> sandbox) list"

definition mem_new :: in_memory_store where
  "mem_new = []"

definition mem_save :: "sandbox \<Rightarrow> (in_memory_store, unit) port_call" where
  "mem_save s m = (Ok (), AList.update (sb_id s) s m)"

definition mem_find_by_id :: "sandbox_id \<Rightarrow> (in_memory_store, sandbox option) port_call" where
  "mem_find_by_id i m = (Ok (map_of m i), m)"

definition mem_update :: "sandbox \<Rightarrow> (in_memory_store, unit) port_call" where
  "mem_update s m = (Ok (), AList.update (sb_id s) s m)"

definition mem_delete :: "sandbox_id \<Rightarrow> (in_memory_store, unit) port_call" where
  "mem_delete i m =
     (case map_of m i of
        None \<Rightarrow> (Err (NotFound i), m)
      | Some s \<Rightarrow> (Ok (), AList.delete i m))"

definition mem_find_active :: "(in_memory_store, sandbox list) port_call" where
  "mem_find_active m = (Ok (map snd m), m)"

definition mem_find_expired :: "timestamp \<Rightarrow> (in_memory_store, sandbox list) port_call" where
  "mem_find_expired now m =
     (Ok (filter (\<lambda>s. case sb_expires s of Some e \<Rightarrow> e < now | None \<Rightarrow> False) (map snd m)), m)"

definition in_memory :: "in_memory_store repository" where
  "in_memory =
     \<lparr>rp_save = mem_save, rp_find_by_id = mem_find_by_id, rp_update = mem_update,
      rp_delete = mem_delete, rp_find_active = mem_find_active, rp_find_expired = mem_find_expired\<rparr>"

lemmas mem_defs = mem_save_def mem_find_by_id_def mem_update_def mem_delete_def
  mem_find_active_def mem_find_expired_def

lemma in_memory_simps [simp]:
  "rp_save in_memory = mem_save" "rp_find_by_id in_memory = mem_find_by_id"
  "rp_update in_memory = mem_update" "rp_delete in_memory = mem_delete"
  "rp_find_active in_memory = mem_find_active" "rp_find_expired in_memory = mem_find_expired"
  by (simp_all add: in_memory_def)

subsection \<open>The use cases\<close>

record create_input =
  ci_template :: string
  ci_provider :: "provider_id option"
  ci_resources :: resources_spec
  ci_network :: network_spec
  ci_env_vars :: "(string \<times> string) list"
  ci_timeout_ms :: "64 word"

text \<open>
  \<open>CreateSandboxUseCase::execute\<close>. The provider chosen by the input is computed and dropped: the
  provider that is called is the one passed in.
\<close>

definition create_execute ::
    "'r repository \<Rightarrow> 'w provider \<Rightarrow> sandbox_id \<Rightarrow> create_input \<Rightarrow> ('r \<times> 'w, sandbox) port_call"
  where
  "create_execute R P fresh input =
     and_then (on_snd (pr_create P fresh (ci_template input) (ci_resources input)
                        (ci_network input) (ci_env_vars input) (ci_timeout_ms input)))
       (\<lambda>s. and_then (on_fst (rp_save R s)) (\<lambda>_ st. (Ok s, st)))"

text \<open>\<open>find_by_id(..).await?.ok_or_else(NotFound)?\<close>, the opening of the other use cases.\<close>

definition find_or_not_found :: "'r repository \<Rightarrow> sandbox_id \<Rightarrow> ('r \<times> 'w, sandbox) port_call" where
  "find_or_not_found R i =
     and_then (on_fst (rp_find_by_id R i)) (\<lambda>found st. (ok_or (NotFound i) found, st))"

definition info_execute :: "'r repository \<Rightarrow> sandbox_id \<Rightarrow> ('r \<times> 'w, sandbox) port_call" where
  "info_execute R i = find_or_not_found R i"

definition list_execute :: "'r repository \<Rightarrow> ('r \<times> 'w, sandbox list) port_call" where
  "list_execute R = on_fst (rp_find_active R)"

definition terminate_execute ::
    "'r repository \<Rightarrow> 'w provider \<Rightarrow> sandbox_id \<Rightarrow> ('r \<times> 'w, unit) port_call" where
  "terminate_execute R P i =
     and_then (find_or_not_found R i) (\<lambda>s.
     and_then (on_snd (pr_terminate P i)) (\<lambda>_.
     and_then (\<lambda>st. (fst (sb_terminate s), st)) (\<lambda>_.
     on_fst (rp_delete R i))))"

definition run_command_execute ::
    "'r repository \<Rightarrow> 'w provider \<Rightarrow> sandbox_id \<Rightarrow> command_spec \<Rightarrow>
     ('r \<times> 'w, command_result) port_call" where
  "run_command_execute R P i command =
     and_then (find_or_not_found R i) (\<lambda>s st.
       if \<not> sb_is_active s
       then (Err (Validation (''Sandbox '' @ i @ '' is not active (status: ''
               @ status_display (sb_status s) @ '')'')), st)
       else on_snd (pr_run_command P i command) st)"

definition run_command_stream_execute ::
    "'r repository \<Rightarrow> 'w provider \<Rightarrow> sandbox_id \<Rightarrow> command_spec \<Rightarrow>
     ('r \<times> 'w, command_stream) port_call" where
  "run_command_stream_execute R P i command =
     and_then (find_or_not_found R i) (\<lambda>s st.
       if \<not> sb_is_active s
       then (Err (Validation (''Sandbox '' @ i @ '' is not active (status: ''
               @ status_display (sb_status s) @ '')'')), st)
       else on_snd (pr_run_command_stream P i command) st)"

definition read_file_execute ::
    "'r repository \<Rightarrow> 'w provider \<Rightarrow> sandbox_id \<Rightarrow> string \<Rightarrow>
     ('r \<times> 'w, 8 word list) port_call" where
  "read_file_execute R P i path =
     and_then (find_or_not_found R i) (\<lambda>s st.
       if \<not> sb_is_active s
       then (Err (Validation (''Sandbox '' @ i @ '' is not active'')), st)
       else on_snd (pr_read_file P i path) st)"

definition write_file_execute ::
    "'r repository \<Rightarrow> 'w provider \<Rightarrow> sandbox_id \<Rightarrow> string \<Rightarrow> 8 word list \<Rightarrow>
     ('r \<times> 'w, unit) port_call" where
  "write_file_execute R P i path content =
     and_then (find_or_not_found R i) (\<lambda>s st.
       if \<not> sb_is_active s
       then (Err (Validation (''Sandbox '' @ i @ '' is not active'')), st)
       else on_snd (pr_write_file P i path content) st)"

definition list_files_execute ::
    "'r repository \<Rightarrow> 'w provider \<Rightarrow> sandbox_id \<Rightarrow> string \<Rightarrow>
     ('r \<times> 'w, file_entry list) port_call" where
  "list_files_execute R P i dir =
     and_then (find_or_not_found R i) (\<lambda>s st.
       if \<not> sb_is_active s
       then (Err (Validation (''Sandbox '' @ i @ '' is not active'')), st)
       else on_snd (pr_list_files P i dir) st)"

subsection \<open>What a repository promises, and what the use cases make of it\<close>

text \<open>
  Histories of use-case calls. Each call leaves an event that says what it did to the set of known
  sandboxes; the abstract registry of the specification is the map the events build.
\<close>

datatype uc_op =
    UcCreate sandbox_id create_input
  | UcInfo sandbox_id
  | UcList
  | UcTerminate sandbox_id
  | UcRunCommand sandbox_id command_spec
  | UcRunCommandStream sandbox_id command_spec
  | UcReadFile sandbox_id string
  | UcWriteFile sandbox_id string "8 word list"
  | UcListFiles sandbox_id string

datatype uc_event = Created sandbox | Terminated sandbox_id | Unchanged

fun uc_exec :: "'r repository \<Rightarrow> 'w provider \<Rightarrow> uc_op \<Rightarrow> 'r \<times> 'w \<Rightarrow> uc_event \<times> 'r \<times> 'w" where
  "uc_exec R P (UcCreate fresh input) st =
     (case create_execute R P fresh input st of
        (Inr s, st') \<Rightarrow> (Created s, st') | (Inl e, st') \<Rightarrow> (Unchanged, st'))"
| "uc_exec R P (UcTerminate i) st =
     (case terminate_execute R P i st of
        (Inr _, st') \<Rightarrow> (Terminated i, st') | (Inl e, st') \<Rightarrow> (Unchanged, st'))"
| "uc_exec R P (UcInfo i) st = (Unchanged, snd (info_execute R i st))"
| "uc_exec R P UcList st = (Unchanged, snd (list_execute R st))"
| "uc_exec R P (UcRunCommand i c) st = (Unchanged, snd (run_command_execute R P i c st))"
| "uc_exec R P (UcRunCommandStream i c) st =
     (Unchanged, snd (run_command_stream_execute R P i c st))"
| "uc_exec R P (UcReadFile i path) st = (Unchanged, snd (read_file_execute R P i path st))"
| "uc_exec R P (UcWriteFile i path bs) st = (Unchanged, snd (write_file_execute R P i path bs st))"
| "uc_exec R P (UcListFiles i dir) st = (Unchanged, snd (list_files_execute R P i dir st))"

fun uc_run ::
    "'r repository \<Rightarrow> 'w provider \<Rightarrow> uc_op list \<Rightarrow> 'r \<times> 'w \<Rightarrow> uc_event list \<times> 'r \<times> 'w" where
  "uc_run R P [] st = ([], st)"
| "uc_run R P (c # cs) st =
     (case uc_exec R P c st of (ev, st') \<Rightarrow>
        case uc_run R P cs st' of (evs, st'') \<Rightarrow> (ev # evs, st''))"

fun registry_event :: "uc_event \<Rightarrow> (sandbox_id \<rightharpoonup> sandbox) \<Rightarrow> (sandbox_id \<rightharpoonup> sandbox)" where
  "registry_event (Created s) m = m(sb_id s \<mapsto> s)"
| "registry_event (Terminated i) m = m(i := None)"
| "registry_event Unchanged m = m"

text \<open>
  The laws of the port: a lookup answers from the stored sandboxes, a write that succeeds stores the
  sandbox under its own identifier, a deletion succeeds exactly for a stored identifier, and an
  operation that fails stores nothing.
\<close>

locale sandbox_repository =
  fixes R :: "'r repository"
    and contents :: "'r \<Rightarrow> (sandbox_id \<rightharpoonup> sandbox)"
  assumes find: "rp_find_by_id R i r = (Inr (contents r i), r)"
    and save: "contents (snd (rp_save R s r)) =
      (if is_ok (fst (rp_save R s r)) then (contents r)(sb_id s \<mapsto> s) else contents r)"
    and update: "contents (snd (rp_update R s r)) =
      (if is_ok (fst (rp_update R s r)) then (contents r)(sb_id s \<mapsto> s) else contents r)"
    and delete_ok: "is_ok (fst (rp_delete R i r)) \<longleftrightarrow> contents r i \<noteq> None"
    and delete: "contents (snd (rp_delete R i r)) = (contents r)(i := None)"
    and find_active: "contents (snd (rp_find_active R r)) = contents r"
begin

lemma find_or_not_found_eq [simp]:
  "find_or_not_found R i (r, w) = (ok_or (NotFound i) (contents r i), (r, w))"
  by (cases "contents r i") (simp_all add: find_or_not_found_def find and_then_def)

lemma find_then:
  "and_then (find_or_not_found R i) f (r, w) =
     (case contents r i of None \<Rightarrow> (Inl (NotFound i), (r, w)) | Some s \<Rightarrow> f s (r, w))"
  by (cases "contents r i") (simp_all add: and_then_def)

lemma delete_absent: "contents r i = None \<Longrightarrow> contents (snd (rp_delete R i r)) = contents r"
  by (auto simp: delete)

lemma terminate_ok_iff:
  "is_ok (fst (terminate_execute R P i (r, w))) \<longleftrightarrow>
     (\<exists>s. contents r i = Some s \<and> \<not> status_is_terminal (sb_status s))
     \<and> is_ok (fst (pr_terminate P i w))"
proof (cases "contents r i")
  case None
  then show ?thesis by (simp add: terminate_execute_def find_then)
next
  case (Some s)
  then have d: "is_ok (fst (rp_delete R i r))" by (simp add: delete_ok)
  obtain x w' where pt: "pr_terminate P i w = (x, w')" by fastforce
  show ?thesis
    using Some d pt
    by (cases x; cases "sb_status s")
      (auto simp: terminate_execute_def find_then and_then_def sb_terminate_def)
qed

lemma terminate_contents:
  "contents (fst (snd (terminate_execute R P i (r, w)))) =
     (if is_ok (fst (terminate_execute R P i (r, w))) then (contents r)(i := None)
      else contents r)"
proof (cases "contents r i")
  case None
  then show ?thesis by (simp add: terminate_execute_def find_then)
next
  case (Some s)
  then have d: "is_ok (fst (rp_delete R i r))" by (simp add: delete_ok)
  obtain x w' where pt: "pr_terminate P i w = (x, w')" by fastforce
  show ?thesis
    using Some d pt
    by (cases x; cases "sb_status s")
      (auto simp: terminate_execute_def find_then and_then_def sb_terminate_def delete)
qed

lemma create_contents:
  "contents (fst (snd (create_execute R P fresh input (r, w)))) =
     (case fst (create_execute R P fresh input (r, w)) of
        Inl e \<Rightarrow> contents r | Inr s \<Rightarrow> (contents r)(sb_id s \<mapsto> s))"
  by (auto simp: create_execute_def and_then_def save split: prod.splits sum.splits)

lemma guarded_contents:
  "contents (fst (snd (and_then (find_or_not_found R i)
     (\<lambda>s st. if g s then (Inl (e s), st) else on_snd (f s) st) (r, w)))) = contents r"
  by (simp add: find_then split: option.splits)

lemma uc_exec_contents:
  "contents (fst (snd (uc_exec R P c (r, w)))) = registry_event (fst (uc_exec R P c (r, w))) (contents r)"
proof (cases c)
  case (UcCreate fresh input)
  then show ?thesis using create_contents [of P fresh input r w]
    by (auto split: prod.splits sum.splits)
next
  case (UcTerminate i)
  then show ?thesis using terminate_contents [of P i r w]
    by (auto split: prod.splits sum.splits)
qed (simp_all add: info_execute_def list_execute_def find_active run_command_execute_def
    run_command_stream_execute_def read_file_execute_def write_file_execute_def
    list_files_execute_def guarded_contents)

lemma uc_run_contents:
  "contents (fst (snd (uc_run R P cs (r, w)))) =
     fold registry_event (fst (uc_run R P cs (r, w))) (contents r)"
proof (induction cs arbitrary: r w)
  case (Cons c cs)
  obtain ev r1 w1 where e: "uc_exec R P c (r, w) = (ev, r1, w1)" by (metis prod_cases3)
  then have "contents r1 = registry_event ev (contents r)"
    using uc_exec_contents [of P c r w] by simp
  then show ?case using Cons.IH [of r1 w1] e by (auto split: prod.splits)
qed simp

end

interpretation mem: sandbox_repository in_memory map_of
proof (unfold_locales, goal_cases)
  case (5 i r)
  show ?case by (auto simp: mem_defs delete_conv' fun_eq_iff split: option.splits)
qed (auto simp: mem_defs update_conv' split: option.splits)

lemma mem_update_list_all:
  "list_all (\<lambda>(i, s). sb_id s = i) m \<Longrightarrow>
     list_all (\<lambda>(i, s). sb_id s = i) (AList.update (sb_id s) s m)"
  by (induction m) auto

definition mem_wf :: "in_memory_store \<Rightarrow> bool" where
  "mem_wf m = (distinct (map fst m) \<and> list_all (\<lambda>(i, s). sb_id s = i) m)"

lemma mem_wf_new: "mem_wf mem_new"
  by (simp add: mem_wf_def mem_new_def)

lemma mem_wf_update: "mem_wf m \<Longrightarrow> mem_wf (AList.update (sb_id s) s m)"
  by (simp add: mem_wf_def distinct_update mem_update_list_all)

lemma mem_wf_delete: "mem_wf m \<Longrightarrow> mem_wf (AList.delete i m)"
  by (auto simp: mem_wf_def AList.delete_eq list_all_iff intro: distinct_map_filter)

lemmas mem_wf_intros = mem_wf_update mem_wf_delete mem_wf_new

lemma mem_wf_methods:
  assumes "mem_wf m"
  shows "mem_wf (snd (mem_save s m))" "mem_wf (snd (mem_update s m))" "mem_wf (snd (mem_delete i m))"
    "mem_wf (snd (mem_find_active m))" "mem_wf (snd (mem_find_by_id i m))"
  using assms by (auto simp: mem_defs intro: mem_wf_intros split: option.splits)

lemma mem_wf_find_id: "mem_wf m \<Longrightarrow> map_of m i = Some s \<Longrightarrow> sb_id s = i"
  by (auto simp: mem_wf_def list_all_iff dest: map_of_SomeD)

lemma mem_wf_values:
  assumes "mem_wf m"
  shows "distinct (map sb_id (map snd m))" and "set (map snd m) = ran (map_of m)"
proof -
  have "map sb_id (map snd m) = map fst m"
    using assms by (auto simp: mem_wf_def list_all_iff)
  then show "distinct (map sb_id (map snd m))" using assms by (simp only: mem_wf_def)
  show "set (map snd m) = ran (map_of m)"
    using assms by (simp add: mem_wf_def ran_distinct)
qed

lemma uc_exec_mem_wf:
  assumes "mem_wf m"
  shows "mem_wf (fst (snd (uc_exec in_memory P c (m, w))))"
proof (cases c)
  case (UcCreate fresh input)
  then show ?thesis using assms
    by (auto simp: create_execute_def and_then_def mem_defs intro: mem_wf_intros
        split: prod.splits sum.splits)
next
  case (UcTerminate i)
  then show ?thesis using assms mem_wf_methods [of m]
    by (auto simp: terminate_execute_def mem.find_then and_then_def
        split: prod.splits sum.splits option.splits)
qed (use assms in \<open>simp_all add: info_execute_def list_execute_def mem_find_active_def
    run_command_execute_def run_command_stream_execute_def read_file_execute_def
    write_file_execute_def list_files_execute_def mem.find_then split: option.splits\<close>)

lemma uc_run_mem_wf:
  "mem_wf m \<Longrightarrow> mem_wf (fst (snd (uc_run in_memory P cs (m, w))))"
proof (induction cs arbitrary: m w)
  case (Cons c cs)
  obtain ev m1 w1 where e: "uc_exec in_memory P c (m, w) = (ev, m1, w1)" by (metis prod_cases3)
  then have "mem_wf m1" using uc_exec_mem_wf [OF Cons.prems, of P c w] by simp
  then show ?case using Cons.IH [of m1 w1] e by (auto split: prod.splits)
qed simp

subsection \<open>Properties of the application layer\<close>

text \<open>
  C4: the application layer over the in-memory repository implements the abstract registry of
  sandboxes: after any sequence of use-case calls, with any provider, a lookup by identifier returns
  exactly what the history says (the sandbox of the last successful creation under that identifier,
  unless a successful termination of it came later, and not-found otherwise), and the listing
  returns every registered sandbox once, under distinct identifiers, whatever its status.
\<close>

theorem usecases_refine_registry:
  "let (evs, st) = uc_run in_memory P cs (mem_new, w);
       registry = fold registry_event evs Map.empty
   in fst (info_execute in_memory i st) = ok_or (NotFound i) (registry i)
      \<and> (\<exists>xs. fst (list_execute in_memory st) = Inr xs
           \<and> distinct (map sb_id xs) \<and> set xs = ran registry)"
proof -
  obtain evs m w' where r: "uc_run in_memory P cs (mem_new, w) = (evs, m, w')"
    by (metis prod_cases3)
  have reg: "map_of m = fold registry_event evs Map.empty"
    using mem.uc_run_contents [of P cs mem_new w] r by (simp add: mem_new_def)
  have "mem_wf m" using uc_run_mem_wf [OF mem_wf_new, of P cs w] r by simp
  note vals = mem_wf_values [OF this]
  show ?thesis
    using vals by (simp add: r Let_def info_execute_def list_execute_def mem_find_active_def
        flip: reg)
qed

text \<open>
  C5: no command, stream or file operation reaches the provider unless the repository holds the
  sandbox as running or pending: otherwise the call fails, with not-found or a validation error, and
  changes neither the repository nor the provider's world; and when it does, the result and the
  effect are the provider's own.
\<close>

theorem provider_reached_iff_active:
  "let found = map_of m i;
       refused = (\<lambda>e. e = NotFound i \<and> found = None
                     \<or> (\<exists>msg. e = Validation msg) \<and> found \<noteq> None);
       blocked = (case found of None \<Rightarrow> True | Some s \<Rightarrow> \<not> status_is_active (sb_status s))
   in if blocked
      then (\<exists>e. run_command_execute in_memory P i cmd (m, w) = (Inl e, (m, w)) \<and> refused e)
         \<and> (\<exists>e. run_command_stream_execute in_memory P i cmd (m, w) = (Inl e, (m, w)) \<and> refused e)
         \<and> (\<exists>e. read_file_execute in_memory P i path (m, w) = (Inl e, (m, w)) \<and> refused e)
         \<and> (\<exists>e. write_file_execute in_memory P i path bs (m, w) = (Inl e, (m, w)) \<and> refused e)
         \<and> (\<exists>e. list_files_execute in_memory P i path (m, w) = (Inl e, (m, w)) \<and> refused e)
      else run_command_execute in_memory P i cmd (m, w) = on_snd (pr_run_command P i cmd) (m, w)
         \<and> run_command_stream_execute in_memory P i cmd (m, w) =
             on_snd (pr_run_command_stream P i cmd) (m, w)
         \<and> read_file_execute in_memory P i path (m, w) = on_snd (pr_read_file P i path) (m, w)
         \<and> write_file_execute in_memory P i path bs (m, w) =
             on_snd (pr_write_file P i path bs) (m, w)
         \<and> list_files_execute in_memory P i path (m, w) = on_snd (pr_list_files P i path) (m, w)"
proof (cases "map_of m i")
  case None
  then show ?thesis
    by (simp add: run_command_execute_def run_command_stream_execute_def read_file_execute_def
        write_file_execute_def list_files_execute_def mem.find_then)
next
  case (Some s)
  have "sb_is_active s \<longleftrightarrow> status_is_active (sb_status s)"
    by (cases "sb_status s") (simp_all add: sb_is_active_def)
  with Some show ?thesis
    by (simp add: run_command_execute_def run_command_stream_execute_def read_file_execute_def
        write_file_execute_def list_files_execute_def mem.find_then)
qed

text \<open>
  terminating a sandbox through the use case succeeds exactly when the repository holds it
  in a status other than stopped and failed and the provider terminates it; then exactly its record is
  removed, and otherwise the records stay as they are. The provider is asked before the status
  is checked: for a recorded sandbox that is already stopped or failed the provider's world has been
  changed by the call although it is reported as refused, and the record is never removed.
\<close>

theorem terminate_use_case_outcome:
  "let (res, m', w') = terminate_execute in_memory P i (m, w);
       ok = ((\<exists>s. map_of m i = Some s \<and> \<not> status_is_terminal (sb_status s))
               \<and> is_ok (fst (pr_terminate P i w)))
   in (is_ok res \<longleftrightarrow> ok)
      \<and> map_of m' = (if ok then (map_of m)(i := None) else map_of m)
      \<and> w' = (if map_of m i = None then w else snd (pr_terminate P i w))"
proof -
  obtain res m' w' where r: "terminate_execute in_memory P i (m, w) = (res, m', w')"
    by (metis prod_cases3)
  have "w' = (if map_of m i = None then w else snd (pr_terminate P i w))"
    using r by (auto simp: terminate_execute_def mem.find_then and_then_def
        split: option.splits prod.splits sum.splits)
  then show ?thesis
    using mem.terminate_ok_iff [of P i m w] mem.terminate_contents [of P i m w] r
    by (simp add: Let_def)
qed

end
