(* ===== verification/Sandbox_Pool.thy ===== *)
theory Sandbox_Pool
  imports Sandbox_Usecases
begin

text \<open>
  The warm pool (\<open>crates/bastion-infrastructure/src/pool/manager.rs\<close>): per-template queues of
  idle sandboxes, checkout and checkin, the periodic eviction and refill, recovery after a restart,
  shutdown and statistics.

  The manager's state is one record: the concurrent map of queues as an association list, the two
  atomic counters as 64-bit words that wrap, the free permits of the semaphore, the state behind the
  repository and behind the provider, and how many random identifiers have been drawn. The ports are
  the records of \<open>Sandbox_Usecases\<close>; \<open>clock\<close> reads the monotonic clock (nanoseconds) from the
  provider's world at the moment of the call and \<open>fresh n\<close> is the \<open>n\<close>-th random identifier. Calls of
  the manager run one after another; waiting for a permit that nobody returns is the value \<open>None\<close>.
\<close>

subsection \<open>Configuration, entries and queues\<close>

record pool_config =
  cfg_min_idle :: nat
  cfg_max_idle :: nat
  cfg_max_total :: nat
  cfg_idle_timeout_ms :: "64 word"
  cfg_refill_interval_ms :: "64 word"

definition pool_config_default :: pool_config where
  "pool_config_default =
     \<lparr>cfg_min_idle = 5, cfg_max_idle = 20, cfg_max_total = 200,
      cfg_idle_timeout_ms = 600000, cfg_refill_interval_ms = 5000\<rparr>"

record pool_entry =
  pe_sandbox :: sandbox
  pe_created :: nat
  pe_last_used :: nat

definition pool_entry_new :: "nat \<Rightarrow> sandbox \<Rightarrow> pool_entry" where
  "pool_entry_new now s = \<lparr>pe_sandbox = s, pe_created = now, pe_last_used = now\<rparr>"

text \<open>\<open>elapsed\<close> is zero when the clock reads earlier than the entry: truncating subtraction.\<close>

definition is_idle_timeout :: "nat \<Rightarrow> 64 word \<Rightarrow> pool_entry \<Rightarrow> bool" where
  "is_idle_timeout now timeout_ms e = (now - pe_last_used e > unat timeout_ms * 1000000)"

record pool_queue =
  pq_entries :: "pool_entry list"
  pq_min_idle :: nat
  pq_max_idle :: nat
  pq_idle_timeout_ms :: "64 word"

definition pq_new :: "nat \<Rightarrow> nat \<Rightarrow> 64 word \<Rightarrow> pool_queue" where
  "pq_new mn mx timeout =
     \<lparr>pq_entries = [], pq_min_idle = mn, pq_max_idle = mx, pq_idle_timeout_ms = timeout\<rparr>"

definition pq_checkout :: "pool_queue \<Rightarrow> sandbox option \<times> pool_queue" where
  "pq_checkout q =
     (case pq_entries q of
        [] \<Rightarrow> (None, q)
      | e # es \<Rightarrow> (Some (pe_sandbox e), q\<lparr>pq_entries := es\<rparr>))"

definition pq_checkin :: "nat \<Rightarrow> sandbox \<Rightarrow> pool_queue \<Rightarrow> bool \<times> pool_queue" where
  "pq_checkin now s q =
     (if length (pq_entries q) \<ge> pq_max_idle q then (False, q)
      else (True, q\<lparr>pq_entries := pq_entries q @ [pool_entry_new now s]\<rparr>))"

definition idle_count :: "pool_queue \<Rightarrow> nat" where
  "idle_count q = length (pq_entries q)"

definition evict_idle :: "nat \<Rightarrow> pool_queue \<Rightarrow> sandbox list \<times> pool_queue" where
  "evict_idle now q =
     (let old = is_idle_timeout now (pq_idle_timeout_ms q)
      in (map pe_sandbox (filter old (pq_entries q)),
          q\<lparr>pq_entries := filter (\<lambda>e. \<not> old e) (pq_entries q)\<rparr>))"

definition needs_refill :: "pool_queue \<Rightarrow> bool" where
  "needs_refill q = (length (pq_entries q) < pq_min_idle q)"

subsection \<open>The manager\<close>

record ('r, 'w) pool_manager =
  pm_pools :: "(string \<times> pool_queue) list"
  pm_config :: pool_config
  pm_active :: "64 word"
  pm_idle :: "64 word"
  pm_permits :: nat
  pm_started :: bool
  pm_repo :: 'r
  pm_world :: 'w
  pm_drawn :: nat

text \<open>
  \<open>SandboxPoolManager::new\<close>; the semaphore's constructor panics above its limit of 2^61 - 1 permits.
\<close>

definition pm_new :: "pool_config \<Rightarrow> 'r \<Rightarrow> 'w \<Rightarrow> ('r, 'w) pool_manager option" where
  "pm_new config r w =
     (if cfg_max_total config \<ge> 2 ^ 61 then None
      else Some \<lparr>pm_pools = [], pm_config = config, pm_active = 0, pm_idle = 0,
                 pm_permits = cfg_max_total config, pm_started = False, pm_repo = r, pm_world = w,
                 pm_drawn = 0\<rparr>)"

definition call_repo ::
    "('r \<Rightarrow> 'x \<times> 'r) \<Rightarrow> ('r, 'w) pool_manager \<Rightarrow> 'x \<times> ('r, 'w) pool_manager" where
  "call_repo m pm = (case m (pm_repo pm) of (x, r) \<Rightarrow> (x, pm\<lparr>pm_repo := r\<rparr>))"

definition call_provider ::
    "('w \<Rightarrow> 'x \<times> 'w) \<Rightarrow> ('r, 'w) pool_manager \<Rightarrow> 'x \<times> ('r, 'w) pool_manager" where
  "call_provider m pm = (case m (pm_world pm) of (x, w) \<Rightarrow> (x, pm\<lparr>pm_world := w\<rparr>))"

definition acquire_permit :: "('r, 'w) pool_manager \<Rightarrow> ('r, 'w) pool_manager" where
  "acquire_permit pm = pm\<lparr>pm_permits := pm_permits pm - 1\<rparr>"

definition release_permit :: "('r, 'w) pool_manager \<Rightarrow> ('r, 'w) pool_manager" where
  "release_permit pm = pm\<lparr>pm_permits := pm_permits pm + 1\<rparr>"

definition create_with ::
    "'r repository \<Rightarrow> 'w provider \<Rightarrow> (nat \<Rightarrow> sandbox_id) \<Rightarrow> 64 word \<Rightarrow> string \<Rightarrow>
     ('r, 'w) pool_manager \<Rightarrow> (domain_error, sandbox) result \<times> ('r, 'w) pool_manager" where
  "create_with R P fresh timeout_ms template pm =
     and_then (call_provider (pr_create P (fresh (pm_drawn pm)) template resources_default
                 network_default [] timeout_ms))
       (\<lambda>s. and_then (call_repo (rp_save R s)) (\<lambda>_ pm. (Ok s, pm)))
       (pm\<lparr>pm_drawn := pm_drawn pm + 1\<rparr>)"

text \<open>Pooled sandboxes get one hour.\<close>

definition create_sandbox ::
    "'r repository \<Rightarrow> 'w provider \<Rightarrow> (nat \<Rightarrow> sandbox_id) \<Rightarrow> string \<Rightarrow>
     ('r, 'w) pool_manager \<Rightarrow> (domain_error, sandbox) result \<times> ('r, 'w) pool_manager" where
  "create_sandbox R P fresh template pm = create_with R P fresh 3600000 template pm"

text \<open>Terminate an evicted sandbox and forget it; both results are ignored.\<close>

definition dispose ::
    "'r repository \<Rightarrow> 'w provider \<Rightarrow> sandbox \<Rightarrow> ('r, 'w) pool_manager \<Rightarrow> ('r, 'w) pool_manager"
  where
  "dispose R P s pm =
     snd (call_repo (rp_delete R (sb_id s)) (snd (call_provider (pr_terminate P (sb_id s)) pm)))"

text \<open>The loop over all queues that evicts, with the number of evicted sandboxes.\<close>

fun evict_pools ::
    "'r repository \<Rightarrow> 'w provider \<Rightarrow> ('w \<Rightarrow> nat) \<Rightarrow> (string \<times> pool_queue) list \<Rightarrow>
     ('r, 'w) pool_manager \<Rightarrow> (string \<times> pool_queue) list \<times> nat \<times> ('r, 'w) pool_manager" where
  "evict_pools R P clock [] pm = ([], 0, pm)"
| "evict_pools R P clock ((k, q) # ps) pm =
     (case evict_idle (clock (pm_world pm)) q of (evicted, q') \<Rightarrow>
        (case evict_pools R P clock ps (fold (dispose R P) evicted pm) of (ps', n, pm') \<Rightarrow>
           ((k, q') # ps', length evicted + n, pm')))"

text \<open>
  The refill loop of one queue. A permit is held while a sandbox is created and checked in, and given
  back before the next round. A sandbox that does not fit is left alone: the identifier that is
  terminated is a newly drawn one.
\<close>

function refill_queue ::
    "'r repository \<Rightarrow> 'w provider \<Rightarrow> ('w \<Rightarrow> nat) \<Rightarrow> (nat \<Rightarrow> sandbox_id) \<Rightarrow> string \<Rightarrow>
     pool_queue \<Rightarrow> ('r, 'w) pool_manager \<Rightarrow> pool_queue \<times> ('r, 'w) pool_manager" where
  "refill_queue R P clock fresh template q pm =
     (if \<not> needs_refill q then (q, pm)
      else if pm_permits pm = 0 then (q, pm)
      else case create_sandbox R P fresh template (acquire_permit pm) of
          (Inl e, pm1) \<Rightarrow> (q, release_permit pm1)
        | (Inr s, pm1) \<Rightarrow>
            (let (fits, q') = pq_checkin (clock (pm_world pm1)) s q in
             if \<not> fits
             then (q', release_permit (snd (call_provider (pr_terminate P (fresh (pm_drawn pm1)))
                                      (pm1\<lparr>pm_drawn := pm_drawn pm1 + 1\<rparr>))))
             else refill_queue R P clock fresh template q'
                    (release_permit (pm1\<lparr>pm_idle := pm_idle pm1 + 1\<rparr>))))"
  by pat_completeness auto
termination
  by (relation "measure (\<lambda>(R, P, clock, fresh, template, q, pm).
        pq_min_idle q - length (pq_entries q))")
    (auto simp: needs_refill_def pq_checkin_def split: if_splits)

declare refill_queue.simps [simp del]

fun refill_pools ::
    "'r repository \<Rightarrow> 'w provider \<Rightarrow> ('w \<Rightarrow> nat) \<Rightarrow> (nat \<Rightarrow> sandbox_id) \<Rightarrow>
     (string \<times> pool_queue) list \<Rightarrow> ('r, 'w) pool_manager \<Rightarrow>
     (string \<times> pool_queue) list \<times> ('r, 'w) pool_manager" where
  "refill_pools R P clock fresh [] pm = ([], pm)"
| "refill_pools R P clock fresh ((k, q) # ps) pm =
     (case refill_queue R P clock fresh k q pm of (q', pm') \<Rightarrow>
        (case refill_pools R P clock fresh ps pm' of (ps', pm'') \<Rightarrow> ((k, q') # ps', pm'')))"

definition refill_and_evict ::
    "'r repository \<Rightarrow> 'w provider \<Rightarrow> ('w \<Rightarrow> nat) \<Rightarrow> (nat \<Rightarrow> sandbox_id) \<Rightarrow>
     ('r, 'w) pool_manager \<Rightarrow> ('r, 'w) pool_manager" where
  "refill_and_evict R P clock fresh pm =
     (case evict_pools R P clock (pm_pools pm) pm of (ps, n, pm1) \<Rightarrow>
        (case refill_pools R P clock fresh ps (pm1\<lparr>pm_idle := pm_idle pm1 - of_nat n\<rparr>) of
           (ps', pm2) \<Rightarrow> pm2\<lparr>pm_pools := ps'\<rparr>))"

text \<open>
  Shutdown: signal and join the background task, run the eviction of every queue, and zero the
  counters.
\<close>

definition pm_stop ::
    "'r repository \<Rightarrow> 'w provider \<Rightarrow> ('w \<Rightarrow> nat) \<Rightarrow> ('r, 'w) pool_manager \<Rightarrow>
     (domain_error, unit) result \<times> ('r, 'w) pool_manager" where
  "pm_stop R P clock pm =
     (case evict_pools R P clock (pm_pools pm) (pm\<lparr>pm_started := False\<rparr>) of (ps, n, pm1) \<Rightarrow>
        (Ok (), pm1\<lparr>pm_pools := ps, pm_idle := 0, pm_active := 0\<rparr>))"

text \<open>
  Checkout: the oldest idle sandbox of the template's queue, or a new sandbox. \<open>None\<close>: the call
  waits for a permit for ever.
\<close>

definition checkout_direct ::
    "'r repository \<Rightarrow> 'w provider \<Rightarrow> (nat \<Rightarrow> sandbox_id) \<Rightarrow> string \<Rightarrow> 64 word \<Rightarrow>
     ('r, 'w) pool_manager \<Rightarrow>
     ((domain_error, sandbox) result \<times> ('r, 'w) pool_manager) option" where
  "checkout_direct R P fresh template timeout_ms pm =
     (if pm_permits pm = 0 then None
      else Some (case create_with R P fresh timeout_ms template (acquire_permit pm) of
          (Inl e, pm1) \<Rightarrow> (Err e, release_permit pm1)
        | (Inr s, pm1) \<Rightarrow> (Ok s, release_permit (pm1\<lparr>pm_active := pm_active pm1 + 1\<rparr>))))"

definition pm_checkout ::
    "'r repository \<Rightarrow> 'w provider \<Rightarrow> (nat \<Rightarrow> sandbox_id) \<Rightarrow> string \<Rightarrow> 64 word \<Rightarrow>
     ('r, 'w) pool_manager \<Rightarrow>
     ((domain_error, sandbox) result \<times> ('r, 'w) pool_manager) option" where
  "pm_checkout R P fresh template timeout_ms pm =
     (case map_of (pm_pools pm) template of
        None \<Rightarrow> checkout_direct R P fresh template timeout_ms pm
      | Some q \<Rightarrow>
          (case pq_checkout q of
             (None, _) \<Rightarrow> checkout_direct R P fresh template timeout_ms pm
           | (Some s, q') \<Rightarrow>
               Some (Ok s, snd (call_repo (rp_update R s)
                 (pm\<lparr>pm_pools := AList.update template q' (pm_pools pm),
                    pm_idle := pm_idle pm - 1, pm_active := pm_active pm + 1\<rparr>)))))"

text \<open>
  Checkin of a recorded sandbox: it is terminated (the result is only logged) and then, if its
  template's queue has room, put back into the queue.
\<close>

definition checkin_found ::
    "'w provider \<Rightarrow> ('w \<Rightarrow> nat) \<Rightarrow> sandbox_id \<Rightarrow> sandbox \<Rightarrow> ('r, 'w) pool_manager \<Rightarrow>
     (domain_error, unit) result \<times> ('r, 'w) pool_manager" where
  "checkin_found P clock i s pm =
     (let template = sb_template s;
          pm1 = snd (call_provider (pr_terminate P i) pm);
          rejected = (Ok (), pm1\<lparr>pm_active := pm_active pm1 - 1\<rparr>)
      in case map_of (pm_pools pm1) template of
           None \<Rightarrow> rejected
         | Some q \<Rightarrow>
             (case pq_checkin (clock (pm_world pm1)) s q of
                (True, q') \<Rightarrow>
                  (Ok (), pm1\<lparr>pm_pools := AList.update template q' (pm_pools pm1),
                            pm_active := pm_active pm1 - 1, pm_idle := pm_idle pm1 + 1\<rparr>)
              | (False, _) \<Rightarrow> rejected))"

definition pm_checkin ::
    "'r repository \<Rightarrow> 'w provider \<Rightarrow> ('w \<Rightarrow> nat) \<Rightarrow> sandbox_id \<Rightarrow> ('r, 'w) pool_manager \<Rightarrow>
     (domain_error, unit) result \<times> ('r, 'w) pool_manager" where
  "pm_checkin R P clock i =
     and_then (call_repo (rp_find_by_id R i)) (\<lambda>found.
     and_then (\<lambda>pm. (ok_or (NotFound i) found, pm)) (\<lambda>s. checkin_found P clock i s))"

subsection \<open>Statistics and registration\<close>

record template_stats =
  ts_template :: string
  ts_idle :: nat
  ts_min_idle :: nat
  ts_max_idle :: nat

record pool_stats =
  st_templates :: "template_stats list"
  st_active :: "64 word"
  st_idle :: nat
  st_total :: "64 word"

definition pm_stats :: "('r, 'w) pool_manager \<Rightarrow> pool_stats" where
  "pm_stats pm =
     (let total_idle = sum_list (map (\<lambda>(k, q). idle_count q) (pm_pools pm))
      in \<lparr>st_templates = map (\<lambda>(k, q). \<lparr>ts_template = k, ts_idle = idle_count q,
            ts_min_idle = pq_min_idle q, ts_max_idle = pq_max_idle q\<rparr>) (pm_pools pm),
          st_active = pm_active pm, st_idle = total_idle,
          st_total = of_nat total_idle + pm_active pm\<rparr>)"

definition register_template ::
    "string \<Rightarrow> ('r, 'w) pool_manager \<Rightarrow> ('r, 'w) pool_manager" where
  "register_template template pm =
     pm\<lparr>pm_pools := AList.update template
          (pq_new (cfg_min_idle (pm_config pm)) (cfg_max_idle (pm_config pm))
             (cfg_idle_timeout_ms (pm_config pm))) (pm_pools pm)\<rparr>"

subsection \<open>Recovery\<close>

record recovery_result =
  rr_reintegrated :: nat
  rr_skipped_pool_full :: nat
  rr_skipped_not_registered :: nat
  rr_orphaned_terminated :: nat
  rr_failed :: nat

definition recovery_default :: recovery_result where
  "recovery_default =
     \<lparr>rr_reintegrated = 0, rr_skipped_pool_full = 0, rr_skipped_not_registered = 0,
      rr_orphaned_terminated = 0, rr_failed = 0\<rparr>"

text \<open>
  One round of the first phase, for a sandbox \<open>s\<close> the provider reports as running. Its record is set
  to running where the entity allows it; \<open>s\<close> itself goes into its template's queue if it fits.
\<close>

definition pool_reintegrate ::
    "('w \<Rightarrow> nat) \<Rightarrow> sandbox \<Rightarrow> recovery_result \<Rightarrow> ('r, 'w) pool_manager \<Rightarrow>
     recovery_result \<times> ('r, 'w) pool_manager" where
  "pool_reintegrate clock s res pm =
     (case map_of (pm_pools pm) (sb_template s) of
        None \<Rightarrow> (res, pm)
      | Some q \<Rightarrow>
          (case pq_checkin (clock (pm_world pm)) s q of
             (True, q') \<Rightarrow>
               (res\<lparr>rr_reintegrated := rr_reintegrated res + 1\<rparr>,
                pm\<lparr>pm_pools := AList.update (sb_template s) q' (pm_pools pm),
                   pm_idle := pm_idle pm + 1\<rparr>)
           | (False, _) \<Rightarrow>
               (res\<lparr>rr_skipped_pool_full := rr_skipped_pool_full res + 1\<rparr>, pm)))"

definition sync_record ::
    "'r repository \<Rightarrow> sandbox \<Rightarrow> ('r, 'w) pool_manager \<Rightarrow> ('r, 'w) pool_manager" where
  "sync_record R rs pm =
     (if sb_status rs \<noteq> Running
      then (case mark_running rs of
              (Inl e, _) \<Rightarrow> pm
            | (Inr _, updated) \<Rightarrow> snd (call_repo (rp_update R updated) pm))
      else pm)"

definition recover_one ::
    "'r repository \<Rightarrow> ('w \<Rightarrow> nat) \<Rightarrow> sandbox \<Rightarrow> recovery_result \<times> ('r, 'w) pool_manager \<Rightarrow>
     recovery_result \<times> ('r, 'w) pool_manager" where
  "recover_one R clock s = (\<lambda>(res, pm).
     if map_of (pm_pools pm) (sb_template s) = None
     then (res\<lparr>rr_skipped_not_registered := rr_skipped_not_registered res + 1\<rparr>, pm)
     else case call_repo (rp_find_by_id R (sb_id s)) pm of
         (Inr (Some rs), pm1) \<Rightarrow>
           (let pm2 = sync_record R rs pm1 in
            case map_of (pm_pools pm2) (sb_template s) of
              None \<Rightarrow> (res, pm2)
            | Some q \<Rightarrow>
                (if idle_count q \<ge> pq_max_idle q
                 then (res\<lparr>rr_skipped_pool_full := rr_skipped_pool_full res + 1\<rparr>, pm2)
                 else pool_reintegrate clock s res pm2))
       | (Inr None, pm1) \<Rightarrow>
           (case call_repo (rp_save R s) pm1 of
              (Inl e, pm2) \<Rightarrow> (res\<lparr>rr_failed := rr_failed res + 1\<rparr>, pm2)
            | (Inr _, pm2) \<Rightarrow> pool_reintegrate clock s res pm2)
       | (Inl e, pm1) \<Rightarrow> (res\<lparr>rr_failed := rr_failed res + 1\<rparr>, pm1))"

text \<open>One round of the second phase, for a record the repository lists.\<close>

definition retire_orphan ::
    "'r repository \<Rightarrow> sandbox_id set \<Rightarrow> sandbox \<Rightarrow> recovery_result \<times> ('r, 'w) pool_manager \<Rightarrow>
     recovery_result \<times> ('r, 'w) pool_manager" where
  "retire_orphan R provider_ids rs = (\<lambda>(res, pm).
     if sb_id rs \<notin> provider_ids
     then (case sb_terminate rs of
             (Inl e, _) \<Rightarrow> (res, pm)
           | (Inr _, updated) \<Rightarrow>
               (case call_repo (rp_update R updated) pm of
                  (Inl e, pm1) \<Rightarrow> (res, pm1)
                | (Inr _, pm1) \<Rightarrow>
                    (res\<lparr>rr_orphaned_terminated := rr_orphaned_terminated res + 1\<rparr>, pm1)))
     else (res, pm))"

definition recover_active_sandboxes ::
    "'r repository \<Rightarrow> 'w provider \<Rightarrow> ('w \<Rightarrow> nat) \<Rightarrow> ('r, 'w) pool_manager \<Rightarrow>
     recovery_result \<times> ('r, 'w) pool_manager" where
  "recover_active_sandboxes R P clock pm =
     (case call_provider (pr_list_sandboxes P \<lparr>flt_provider_name = None, flt_status = Some Running,
             flt_limit = None, flt_cursor = None\<rparr>) pm of
        (Inl e, pm1) \<Rightarrow> (recovery_default, pm1)
      | (Inr listed, pm1) \<Rightarrow>
          (case fold (recover_one R clock) listed (recovery_default, pm1) of (res, pm2) \<Rightarrow>
             (case call_repo (rp_find_active R) pm2 of
                (Inl e, pm3) \<Rightarrow> (res, pm3)
              | (Inr active, pm3) \<Rightarrow>
                  fold (retire_orphan R (sb_id ` set listed)) active (res, pm3))))"

definition pm_start ::
    "'r repository \<Rightarrow> 'w provider \<Rightarrow> ('w \<Rightarrow> nat) \<Rightarrow> ('r, 'w) pool_manager \<Rightarrow>
     (domain_error, unit) result \<times> ('r, 'w) pool_manager" where
  "pm_start R P clock pm =
     (Ok (), (snd (recover_active_sandboxes R P clock pm))\<lparr>pm_started := True\<rparr>)"

subsection \<open>The queue as a bounded first-in first-out buffer\<close>

text \<open>
  What the manager relies on of a queue: \<open>items\<close> are the waiting sandboxes, oldest first. The time
  of a checkin is the argument \<open>'t\<close>.
\<close>

locale warm_queue =
  fixes checkin :: "'t \<Rightarrow> 'a \<Rightarrow> 'q \<Rightarrow> bool \<times> 'q"
    and checkout :: "'q \<Rightarrow> 'a option \<times> 'q"
    and items :: "'q \<Rightarrow> 'a list"
    and cap :: "'q \<Rightarrow> nat"
  assumes checkin_fits: "fst (checkin t x q) \<longleftrightarrow> length (items q) < cap q"
    and checkin_items: "items (snd (checkin t x q)) =
      (if length (items q) < cap q then items q @ [x] else items q)"
    and checkin_cap: "cap (snd (checkin t x q)) = cap q"
    and checkout_result: "fst (checkout q) = (case items q of [] \<Rightarrow> None | x # xs \<Rightarrow> Some x)"
    and checkout_items: "items (snd (checkout q)) = tl (items q)"
    and checkout_cap: "cap (snd (checkout q)) = cap q"
begin

text \<open>A run: \<open>Some (t, x)\<close> is a checkin, \<open>None\<close> a checkout; the outputs are what checkouts return.\<close>

fun run :: "('t \<times> 'a) option list \<Rightarrow> 'q \<Rightarrow> 'a list \<times> 'q" where
  "run [] q = ([], q)"
| "run (Some (t, x) # cs) q = run cs (snd (checkin t x q))"
| "run (None # cs) q =
     (case checkout q of (r, q') \<Rightarrow> case run cs q' of (ys, q'') \<Rightarrow>
        (case r of None \<Rightarrow> ys | Some y \<Rightarrow> y # ys, q''))"

text \<open>The checkins of a run that found room, in order.\<close>

fun accepted :: "('t \<times> 'a) option list \<Rightarrow> 'q \<Rightarrow> 'a list" where
  "accepted [] q = []"
| "accepted (Some (t, x) # cs) q =
     (if length (items q) < cap q then [x] else []) @ accepted cs (snd (checkin t x q))"
| "accepted (None # cs) q = accepted cs (snd (checkout q))"

lemma run_fifo: "fst (run cs q) @ items (snd (run cs q)) = items q @ accepted cs q"
proof (induction cs q rule: run.induct)
  case (3 cs q)
  show ?case
    using 3 checkout_result [of q] checkout_items [of q]
    by (cases "items q") (auto split: prod.splits)
qed (simp_all add: checkin_items)

lemma run_bounded:
  "length (items q) \<le> cap q \<Longrightarrow> length (items (snd (run cs q))) \<le> cap q"
proof (induction cs q rule: run.induct)
  case (2 t x cs q)
  then show ?case by (simp add: checkin_items checkin_cap)
next
  case (3 cs q)
  then show ?case
    using checkout_items [of q] checkout_cap [of q] by (auto split: prod.splits)
qed simp

end

definition pq_items :: "pool_queue \<Rightarrow> sandbox list" where
  "pq_items q = map pe_sandbox (pq_entries q)"

interpretation warm: warm_queue pq_checkin pq_checkout pq_items pq_max_idle
  by unfold_locales
    (auto simp: pq_items_def pq_checkin_def pq_checkout_def pool_entry_new_def split: list.splits)

subsection \<open>Frame lemmas\<close>

named_theorems pool_frame \<open>fields of the manager a step leaves alone\<close>

lemma call_repo_frame [pool_frame]:
  "pm_pools (snd (call_repo m pm)) = pm_pools pm" "pm_idle (snd (call_repo m pm)) = pm_idle pm"
  "pm_active (snd (call_repo m pm)) = pm_active pm"
  "pm_permits (snd (call_repo m pm)) = pm_permits pm"
  "pm_world (snd (call_repo m pm)) = pm_world pm"
  "pm_config (snd (call_repo m pm)) = pm_config pm"
  by (simp_all add: call_repo_def split: prod.splits)

lemma call_provider_frame [pool_frame]:
  "pm_pools (snd (call_provider m pm)) = pm_pools pm"
  "pm_idle (snd (call_provider m pm)) = pm_idle pm"
  "pm_active (snd (call_provider m pm)) = pm_active pm"
  "pm_permits (snd (call_provider m pm)) = pm_permits pm"
  "pm_repo (snd (call_provider m pm)) = pm_repo pm"
  "pm_config (snd (call_provider m pm)) = pm_config pm"
  by (simp_all add: call_provider_def split: prod.splits)

lemma create_with_frame [pool_frame]:
  "pm_pools (snd (create_with R P fresh t k pm)) = pm_pools pm"
  "pm_idle (snd (create_with R P fresh t k pm)) = pm_idle pm"
  "pm_active (snd (create_with R P fresh t k pm)) = pm_active pm"
  "pm_permits (snd (create_with R P fresh t k pm)) = pm_permits pm"
  "pm_config (snd (create_with R P fresh t k pm)) = pm_config pm"
  by (simp_all add: create_with_def and_then_def call_repo_def call_provider_def
      split: prod.splits sum.splits)

lemma dispose_frame [pool_frame]:
  "pm_pools (dispose R P s pm) = pm_pools pm" "pm_idle (dispose R P s pm) = pm_idle pm"
  "pm_active (dispose R P s pm) = pm_active pm" "pm_permits (dispose R P s pm) = pm_permits pm"
  "pm_config (dispose R P s pm) = pm_config pm"
  by (simp_all add: dispose_def pool_frame)

lemma fold_dispose_frame [pool_frame]:
  "pm_pools (fold (dispose R P) ss pm) = pm_pools pm"
  "pm_idle (fold (dispose R P) ss pm) = pm_idle pm"
  "pm_active (fold (dispose R P) ss pm) = pm_active pm"
  "pm_permits (fold (dispose R P) ss pm) = pm_permits pm"
  "pm_config (fold (dispose R P) ss pm) = pm_config pm"
  by (induction ss arbitrary: pm) (simp_all add: pool_frame)

lemma permit_frame [simp]:
  "pm_pools (acquire_permit pm) = pm_pools pm" "pm_pools (release_permit pm) = pm_pools pm"
  "pm_idle (acquire_permit pm) = pm_idle pm" "pm_idle (release_permit pm) = pm_idle pm"
  "pm_active (acquire_permit pm) = pm_active pm" "pm_active (release_permit pm) = pm_active pm"
  "pm_config (acquire_permit pm) = pm_config pm" "pm_config (release_permit pm) = pm_config pm"
  "pm_permits (acquire_permit pm) = pm_permits pm - 1"
  "pm_permits (release_permit pm) = pm_permits pm + 1"
  by (simp_all add: acquire_permit_def release_permit_def)

lemma evict_pools_frame [pool_frame]:
  "evict_pools R P clock ps pm = (ps', n, pm') \<Longrightarrow>
     pm_idle pm' = pm_idle pm \<and> pm_active pm' = pm_active pm \<and> pm_permits pm' = pm_permits pm
     \<and> pm_config pm' = pm_config pm \<and> pm_pools pm' = pm_pools pm"
proof (induction ps arbitrary: pm ps' n)
  case (Cons kq ps)
  then show ?case by (cases kq) (auto simp: pool_frame split: prod.splits)
qed simp

subsection \<open>The invariant\<close>

definition idle_total :: "(string \<times> pool_queue) list \<Rightarrow> nat" where
  "idle_total ps = sum_list (map (\<lambda>(k, q). length (pq_entries q)) ps)"

definition pool_inv :: "('r, 'w) pool_manager \<Rightarrow> bool" where
  "pool_inv pm =
     (distinct (map fst (pm_pools pm))
      \<and> list_all (\<lambda>(k, q). length (pq_entries q) \<le> pq_max_idle q) (pm_pools pm)
      \<and> pm_idle pm = of_nat (idle_total (pm_pools pm)))"

lemma idle_total_simps [simp]:
  "idle_total [] = 0"
  "idle_total ((k, q) # ps) = length (pq_entries q) + idle_total ps"
  by (simp_all add: idle_total_def)

lemma idle_total_update:
  assumes "map_of ps k = Some q"
  shows "idle_total (AList.update k q' ps) + length (pq_entries q)
           = idle_total ps + length (pq_entries q')"
  using assms by (induction ps) (auto split: if_splits)

lemma idle_total_update_new:
  assumes "map_of ps k = None"
  shows "idle_total (AList.update k q ps) = idle_total ps + length (pq_entries q)"
  using assms by (induction ps) (auto split: if_splits)

lemma list_all_alist_update:
  "list_all (\<lambda>(k, q). Q q) ps \<Longrightarrow> Q q \<Longrightarrow> list_all (\<lambda>(k, q). Q q) (AList.update k q ps)"
  by (induction ps) auto

lemma pool_inv_idle_pos:
  assumes "pool_inv pm" "map_of (pm_pools pm) k = Some q"
  shows "length (pq_entries q) \<le> pq_max_idle q"
  using assms by (auto simp: pool_inv_def list_all_iff dest: map_of_SomeD)

lemma pq_checkin_cases:
  assumes "pq_checkin now s q = (b, q')"
  shows "b \<longleftrightarrow> length (pq_entries q) < pq_max_idle q"
    and "length (pq_entries q') = length (pq_entries q) + of_bool b"
    and "pq_max_idle q' = pq_max_idle q" and "pq_min_idle q' = pq_min_idle q"
    and "\<not> b \<Longrightarrow> q' = q"
    and "pq_items q' = pq_items q @ (if b then [s] else [])"
  using assms by (auto simp: pq_checkin_def pq_items_def pool_entry_new_def split: if_splits)

lemma pool_inv_push:
  assumes inv: "pool_inv pm" and q: "map_of (pm_pools pm) k = Some q"
    and c: "pq_checkin now s q = (True, q')"
    and pools: "pm_pools pm' = AList.update k q' (pm_pools pm)"
    and idle: "pm_idle pm' = pm_idle pm + 1"
  shows "pool_inv pm'"
proof -
  note cc = pq_checkin_cases [OF c]
  have "idle_total (AList.update k q' (pm_pools pm)) = idle_total (pm_pools pm) + 1"
    using idle_total_update [OF q, of q'] cc(2) by simp
  moreover have "length (pq_entries q') \<le> pq_max_idle q'" using cc(1-3) by simp
  ultimately show ?thesis
    using inv by (simp add: pool_inv_def pools idle distinct_update list_all_alist_update)
qed

lemma pool_inv_pop:
  assumes inv: "pool_inv pm" and q: "map_of (pm_pools pm) k = Some q"
    and c: "pq_checkout q = (Some s, q')"
    and pools: "pm_pools pm' = AList.update k q' (pm_pools pm)"
    and idle: "pm_idle pm' = pm_idle pm - 1"
  shows "pool_inv pm'"
proof -
  obtain e es where e: "pq_entries q = e # es" "q' = q\<lparr>pq_entries := es\<rparr>"
    using c by (auto simp: pq_checkout_def split: list.splits)
  have "idle_total (AList.update k q' (pm_pools pm)) + 1 = idle_total (pm_pools pm)"
    using idle_total_update [OF q, of q'] e by simp
  then have "of_nat (idle_total (AList.update k q' (pm_pools pm))) = pm_idle pm - 1"
    using inv by (simp add: pool_inv_def flip: of_nat_Suc)
      (metis (no_types, lifting) add_diff_cancel_right' of_nat_1 of_nat_add Suc_eq_plus1)
  moreover have "length (pq_entries q') \<le> pq_max_idle q'"
    using pool_inv_idle_pos [OF inv q] e by simp
  ultimately show ?thesis
    using inv by (simp add: pool_inv_def pools idle distinct_update list_all_alist_update)
qed

lemma evict_idle_facts:
  assumes "evict_idle now q = (ev, q')"
  shows "length ev + length (pq_entries q') = length (pq_entries q)"
    and "pq_max_idle q' = pq_max_idle q" and "pq_min_idle q' = pq_min_idle q"
    and "length (pq_entries q') \<le> length (pq_entries q)"
  using assms sum_length_filter_compl [of "is_idle_timeout now (pq_idle_timeout_ms q)" "pq_entries q"]
  by (auto simp: evict_idle_def Let_def)

lemma evict_pools_facts:
  assumes "evict_pools R P clock ps pm = (ps', n, pm')"
  shows "map fst ps' = map fst ps \<and> idle_total ps' + n = idle_total ps
    \<and> map (pq_max_idle \<circ> snd) ps' = map (pq_max_idle \<circ> snd) ps
    \<and> map (pq_min_idle \<circ> snd) ps' = map (pq_min_idle \<circ> snd) ps
    \<and> (list_all (\<lambda>(k, q). length (pq_entries q) \<le> pq_max_idle q) ps \<longrightarrow>
         list_all (\<lambda>(k, q). length (pq_entries q) \<le> pq_max_idle q) ps')"
  using assms
proof (induction ps arbitrary: pm ps' n pm')
  case (Cons kq ps)
  obtain k q where kq: "kq = (k, q)" by (cases kq)
  obtain ev q' where ev: "evict_idle (clock (pm_world pm)) q = (ev, q')" by fastforce
  obtain ps1 m pm1 where r: "evict_pools R P clock ps (fold (dispose R P) ev pm) = (ps1, m, pm1)"
    by (metis prod_cases3)
  have eqs: "ps' = (k, q') # ps1" "n = length ev + m" using Cons.prems kq ev r by auto
  show ?case using Cons.IH [OF r] evict_idle_facts [OF ev] by (auto simp: eqs kq)
qed simp

lemma refill_queue_facts:
  "refill_queue R P clock fresh k q pm = (q', pm') \<Longrightarrow> length (pq_entries q) \<le> pq_max_idle q \<Longrightarrow>
     length (pq_entries q') \<le> pq_max_idle q' \<and> length (pq_entries q) \<le> length (pq_entries q')
     \<and> pm_idle pm' = pm_idle pm + of_nat (length (pq_entries q') - length (pq_entries q))
     \<and> pm_permits pm' = pm_permits pm \<and> pm_active pm' = pm_active pm
     \<and> pm_config pm' = pm_config pm"
proof (induction "pq_min_idle q - length (pq_entries q)" arbitrary: q pm rule: less_induct)
  case less
  show ?case
  proof (cases "needs_refill q \<and> pm_permits pm \<noteq> 0")
    case False
    then show ?thesis using less.prems by (subst (asm) refill_queue.simps) (auto split: if_splits)
  next
    case True
    obtain x pm1 where c: "create_sandbox R P fresh k (acquire_permit pm) = (x, pm1)" by fastforce
    have frame: "pm_idle pm1 = pm_idle pm" "pm_active pm1 = pm_active pm"
        "pm_permits pm1 = pm_permits pm - 1" "pm_config pm1 = pm_config pm"
      using create_with_frame [of R P fresh 3600000 k "acquire_permit pm"] c
      by (simp_all add: create_sandbox_def)
    show ?thesis
    proof (cases x)
      case (Inl e)
      then show ?thesis using less.prems True c frame
        by (subst (asm) refill_queue.simps) auto
    next
      case (Inr s)
      obtain b q1 where q1: "pq_checkin (clock (pm_world pm1)) s q = (b, q1)" by fastforce
      note cc = pq_checkin_cases [OF q1]
      show ?thesis
      proof (cases b)
        case False
        then show ?thesis using less.prems True c Inr q1 frame cc
          by (subst (asm) refill_queue.simps) (auto simp: Let_def pool_frame)
      next
        case b: True
        let ?pm2 = "release_permit (pm1\<lparr>pm_idle := pm_idle pm1 + 1\<rparr>)"
        have r: "refill_queue R P clock fresh k q1 ?pm2 = (q', pm')"
          using less.prems(1) True c Inr q1 b by (subst (asm) refill_queue.simps) (simp add: Let_def)
        have dec: "pq_min_idle q1 - length (pq_entries q1) < pq_min_idle q - length (pq_entries q)"
          using True cc b by (auto simp: needs_refill_def)
        have "length (pq_entries q1) \<le> pq_max_idle q1" using cc b by simp
        note ih = less.hyps [OF dec r this]
        have "length (pq_entries q') - length (pq_entries q)
                = Suc (length (pq_entries q') - length (pq_entries q1))"
          using ih cc(2) b by auto
        then show ?thesis using ih frame True b cc(2) by (simp add: release_permit_def)
      qed
    qed
  qed
qed

lemma refill_pools_facts:
  assumes "refill_pools R P clock fresh ps pm = (ps', pm')"
    and "list_all (\<lambda>(k, q). length (pq_entries q) \<le> pq_max_idle q) ps"
  shows "map fst ps' = map fst ps
    \<and> list_all (\<lambda>(k, q). length (pq_entries q) \<le> pq_max_idle q) ps'
    \<and> idle_total ps \<le> idle_total ps'
    \<and> pm_idle pm' = pm_idle pm + of_nat (idle_total ps' - idle_total ps)
    \<and> pm_permits pm' = pm_permits pm \<and> pm_active pm' = pm_active pm \<and> pm_config pm' = pm_config pm"
  using assms
proof (induction ps arbitrary: pm ps')
  case (Cons kq ps)
  obtain k q where kq: "kq = (k, q)" by (cases kq)
  obtain q' pm1 where q': "refill_queue R P clock fresh k q pm = (q', pm1)" by fastforce
  obtain ps1 pm2 where r: "refill_pools R P clock fresh ps pm1 = (ps1, pm2)" by fastforce
  have eqs: "ps' = (k, q') # ps1" "pm' = pm2" using Cons.prems kq q' r by auto
  have bq: "length (pq_entries q) \<le> pq_max_idle q" using Cons.prems kq by simp
  note h = refill_queue_facts [OF q' bq]
  have ih: "map fst ps1 = map fst ps"
      "list_all (\<lambda>(k, q). length (pq_entries q) \<le> pq_max_idle q) ps1"
      "idle_total ps \<le> idle_total ps1"
      "pm_idle pm2 = pm_idle pm1 + of_nat (idle_total ps1 - idle_total ps)"
      "pm_permits pm2 = pm_permits pm1" "pm_active pm2 = pm_active pm1" "pm_config pm2 = pm_config pm1"
    using Cons.IH [of pm1 ps1] Cons.prems r eqs kq by simp_all
  have "idle_total ps' - idle_total (kq # ps) =
      (length (pq_entries q') - length (pq_entries q)) + (idle_total ps1 - idle_total ps)"
    using h ih by (simp add: eqs kq)
  then show ?case using h ih by (simp add: eqs kq)
qed simp

lemma refill_and_evict_inv:
  assumes "pool_inv pm"
  shows "pool_inv (refill_and_evict R P clock fresh pm)"
    and "map fst (pm_pools (refill_and_evict R P clock fresh pm)) = map fst (pm_pools pm)"
    and "pm_permits (refill_and_evict R P clock fresh pm) = pm_permits pm"
    and "pm_active (refill_and_evict R P clock fresh pm) = pm_active pm"
    and "pm_config (refill_and_evict R P clock fresh pm) = pm_config pm"
proof -
  obtain ps n pm1 where e: "evict_pools R P clock (pm_pools pm) pm = (ps, n, pm1)"
    by (metis prod_cases3)
  let ?pm1 = "pm1\<lparr>pm_idle := pm_idle pm1 - of_nat n\<rparr>"
  obtain ps' pm2 where r: "refill_pools R P clock fresh ps ?pm1 = (ps', pm2)" by fastforce
  have eq: "refill_and_evict R P clock fresh pm = pm2\<lparr>pm_pools := ps'\<rparr>"
    by (simp add: refill_and_evict_def e r)
  note ef = evict_pools_facts [OF e] and fr = evict_pools_frame [OF e]
  have "list_all (\<lambda>(k, q). length (pq_entries q) \<le> pq_max_idle q) ps"
    using ef assms by (simp add: pool_inv_def)
  note rf = refill_pools_facts [OF r this]
  have "of_nat (idle_total ps) + of_nat n = (of_nat (idle_total (pm_pools pm)) :: 64 word)"
    using ef by (metis of_nat_add)
  then have "pm_idle pm1 - of_nat n = of_nat (idle_total ps)"
    using fr assms by (simp add: pool_inv_def algebra_simps)
  moreover have "idle_total ps' = idle_total ps + (idle_total ps' - idle_total ps)" using rf by simp
  ultimately have "pm_idle pm2 = of_nat (idle_total ps')"
    using rf by (simp flip: of_nat_add)
  then show "pool_inv (refill_and_evict R P clock fresh pm)"
    using ef rf assms by (simp add: eq pool_inv_def)
  show "map fst (pm_pools (refill_and_evict R P clock fresh pm)) = map fst (pm_pools pm)"
    and "pm_permits (refill_and_evict R P clock fresh pm) = pm_permits pm"
    and "pm_active (refill_and_evict R P clock fresh pm) = pm_active pm"
    and "pm_config (refill_and_evict R P clock fresh pm) = pm_config pm"
    using ef rf fr by (simp_all add: eq)
qed

lemma checkout_direct_facts:
  assumes "checkout_direct R P fresh k tm pm = Some (x, pm')"
  shows "pm_pools pm' = pm_pools pm" "pm_idle pm' = pm_idle pm" "pm_permits pm' = pm_permits pm"
    "pm_active pm' = pm_active pm + of_bool (is_ok x)" "pm_config pm' = pm_config pm"
  using assms create_with_frame [of R P fresh tm k "acquire_permit pm"]
  by (auto simp: checkout_direct_def split: if_splits prod.splits sum.splits)

lemma pm_checkout_facts:
  assumes "pm_checkout R P fresh k tm pm = Some (x, pm')"
  shows "map fst (pm_pools pm') = map fst (pm_pools pm)" "pm_permits pm' = pm_permits pm"
    "pm_active pm' = pm_active pm + of_bool (is_ok x)" "pm_config pm' = pm_config pm"
    "pool_inv pm \<Longrightarrow> pool_inv pm'"
proof -
  consider "checkout_direct R P fresh k tm pm = Some (x, pm')"
    | q s q' where "map_of (pm_pools pm) k = Some q" "pq_checkout q = (Some s, q')"
        "x = Inr s" "pm' = snd (call_repo (rp_update R s)
          (pm\<lparr>pm_pools := AList.update k q' (pm_pools pm), pm_idle := pm_idle pm - 1,
             pm_active := pm_active pm + 1\<rparr>))"
    using assms by (auto simp: pm_checkout_def split: option.splits prod.splits)
  then have "map fst (pm_pools pm') = map fst (pm_pools pm) \<and> pm_permits pm' = pm_permits pm
    \<and> pm_active pm' = pm_active pm + of_bool (is_ok x) \<and> pm_config pm' = pm_config pm
    \<and> (pool_inv pm \<longrightarrow> pool_inv pm')"
  proof cases
    case 1
    then show ?thesis using checkout_direct_facts [OF 1] by (simp add: pool_inv_def)
  next
    case (2 q s q')
    then have "k \<in> set (map fst (pm_pools pm))" by (metis map_of_SomeD image_eqI fst_conv set_map)
    moreover have "pm_pools pm' = AList.update k q' (pm_pools pm)" "pm_idle pm' = pm_idle pm - 1"
      using 2(4) by (simp_all add: pool_frame)
    then have "pool_inv pm \<longrightarrow> pool_inv pm'" using pool_inv_pop [OF _ 2(1,2)] by blast
    ultimately show ?thesis using 2 by (simp add: pool_frame update_keys)
  qed
  then show "map fst (pm_pools pm') = map fst (pm_pools pm)" "pm_permits pm' = pm_permits pm"
    "pm_active pm' = pm_active pm + of_bool (is_ok x)" "pm_config pm' = pm_config pm"
    "pool_inv pm \<Longrightarrow> pool_inv pm'" by simp_all
qed

lemma pool_inv_same:
  "pm_pools pm' = pm_pools pm \<Longrightarrow> pm_idle pm' = pm_idle pm \<Longrightarrow> pool_inv pm' = pool_inv pm"
  by (simp add: pool_inv_def)

lemma map_of_key: "map_of ps k = Some q \<Longrightarrow> k \<in> set (map fst ps)"
  by (metis map_of_SomeD image_eqI fst_conv set_map)

lemma checkin_found_facts:
  assumes c: "checkin_found P clock i s pm = (x, pm')"
  shows "is_ok x \<and> map fst (pm_pools pm') = map fst (pm_pools pm) \<and> pm_permits pm' = pm_permits pm
    \<and> pm_active pm' = pm_active pm - 1 \<and> pm_config pm' = pm_config pm
    \<and> (pool_inv pm \<longrightarrow> pool_inv pm')"
proof -
  define pm1 where "pm1 = snd (call_provider (pr_terminate P i) pm)"
  have fr: "pm_pools pm1 = pm_pools pm" "pm_idle pm1 = pm_idle pm" "pm_active pm1 = pm_active pm"
      "pm_permits pm1 = pm_permits pm" "pm_config pm1 = pm_config pm"
    by (simp_all add: pm1_def pool_frame)
  note def = checkin_found_def [of P clock i s pm, folded pm1_def, unfolded Let_def]
  show ?thesis
  proof (cases "map_of (pm_pools pm) (sb_template s)")
    case None
    then show ?thesis using c fr by (auto simp: def pool_inv_def)
  next
    case (Some q)
    obtain b q' where q': "pq_checkin (clock (pm_world pm1)) s q = (b, q')" by fastforce
    show ?thesis
    proof (cases b)
      case False
      then show ?thesis using c fr Some q' by (auto simp: def pool_inv_def)
    next
      case True
      then have pm': "x = Inr ()"
          "pm' = pm1\<lparr>pm_pools := AList.update (sb_template s) q' (pm_pools pm),
                   pm_active := pm_active pm - 1, pm_idle := pm_idle pm + 1\<rparr>"
        using c fr Some q' by (simp_all add: def)
      have "pool_inv pm \<longrightarrow> pool_inv pm'"
        using pool_inv_push [OF _ Some, of "clock (pm_world pm1)" s q' pm'] q' True pm' by simp
      then show ?thesis using pm' fr map_of_key [OF Some] by (simp add: update_keys)
    qed
  qed
qed

lemma pm_checkin_facts:
  assumes "pm_checkin R P clock i pm = (x, pm')"
  shows "map fst (pm_pools pm') = map fst (pm_pools pm) \<and> pm_permits pm' = pm_permits pm
    \<and> pm_active pm' = pm_active pm - of_bool (is_ok x) \<and> pm_config pm' = pm_config pm
    \<and> (pool_inv pm \<longrightarrow> pool_inv pm')"
proof -
  obtain f pm0 where f: "call_repo (rp_find_by_id R i) pm = (f, pm0)" by fastforce
  have fr: "pm_pools pm0 = pm_pools pm" "pm_idle pm0 = pm_idle pm" "pm_active pm0 = pm_active pm"
      "pm_permits pm0 = pm_permits pm" "pm_config pm0 = pm_config pm"
    using call_repo_frame [of "rp_find_by_id R i" pm] f by simp_all
  consider "\<not> is_ok x" "pm' = pm0" | s where "checkin_found P clock i s pm0 = (x, pm')"
    using assms by (auto simp: pm_checkin_def and_then_def f ok_or_def
        split: sum.splits option.splits)
  then show ?thesis
  proof cases
    case 1
    then show ?thesis using fr by (simp add: pool_inv_def)
  next
    case (2 s)
    show ?thesis using checkin_found_facts [OF 2] fr by (simp add: pool_inv_def)
  qed
qed

subsection \<open>Recovery keeps the books\<close>

definition rr_phase1 :: "recovery_result \<Rightarrow> nat" where
  "rr_phase1 res = rr_reintegrated res + rr_skipped_pool_full res
     + rr_skipped_not_registered res + rr_failed res"

text \<open>What every round of recovery keeps, relative to the state \<open>pm0\<close> it started in.\<close>

definition recovery_ok ::
    "('r, 'w) pool_manager \<Rightarrow> nat \<Rightarrow> recovery_result \<times> ('r, 'w) pool_manager \<Rightarrow> bool" where
  "recovery_ok pm0 n = (\<lambda>(res, pm).
     map fst (pm_pools pm) = map fst (pm_pools pm0) \<and> pm_permits pm = pm_permits pm0
     \<and> pm_active pm = pm_active pm0 \<and> pm_config pm = pm_config pm0
     \<and> pm_idle pm = pm_idle pm0 + of_nat (rr_reintegrated res)
     \<and> rr_phase1 res = n \<and> (pool_inv pm0 \<longrightarrow> pool_inv pm))"

lemma recovery_ok_call_repo:
  assumes "recovery_ok pm0 n (res, pm)" and "call_repo m pm = (x, pm')"
  shows "recovery_ok pm0 n (res, pm')"
  using assms call_repo_frame [of m pm] pool_inv_same [of pm' pm] by (simp add: recovery_ok_def)

lemma recovery_ok_skip:
  assumes "recovery_ok pm0 n (res, pm)" and "rr_phase1 res' = Suc (rr_phase1 res)"
    and "rr_reintegrated res' = rr_reintegrated res"
  shows "recovery_ok pm0 (Suc n) (res', pm)"
  using assms by (simp add: recovery_ok_def)

lemma pool_reintegrate_ok:
  assumes ok: "recovery_ok pm0 n (res, pm)" and q: "map_of (pm_pools pm) (sb_template s) = Some q"
  shows "recovery_ok pm0 (Suc n) (pool_reintegrate clock s res pm)"
proof -
  obtain b q' where q': "pq_checkin (clock (pm_world pm)) s q = (b, q')" by fastforce
  show ?thesis
  proof (cases b)
    case False
    then show ?thesis using recovery_ok_skip [OF ok] q q'
      by (simp add: pool_reintegrate_def rr_phase1_def)
  next
    case True
    let ?pm = "pm\<lparr>pm_pools := AList.update (sb_template s) q' (pm_pools pm), pm_idle := pm_idle pm + 1\<rparr>"
    have "pool_inv pm \<longrightarrow> pool_inv ?pm"
      using pool_inv_push [OF _ q, of "clock (pm_world pm)" s q' ?pm] q' True by simp
    then show ?thesis using ok q q' True map_of_key [OF q]
      by (auto simp: recovery_ok_def pool_reintegrate_def rr_phase1_def update_keys)
  qed
qed

lemma sync_record_ok:
  assumes "recovery_ok pm0 n (res, pm)"
  shows "recovery_ok pm0 n (res, sync_record R rs pm)" "pm_pools (sync_record R rs pm) = pm_pools pm"
  using assms call_repo_frame [of "rp_update R (snd (mark_running rs))" pm]
  by (auto simp: sync_record_def recovery_ok_def pool_inv_def split: prod.splits sum.splits)

lemma recover_one_ok:
  assumes ok: "recovery_ok pm0 n (res, pm)"
  shows "recovery_ok pm0 (Suc n) (recover_one R clock s (res, pm))"
proof (cases "map_of (pm_pools pm) (sb_template s)")
  case None
  then show ?thesis using recovery_ok_skip [OF ok]
    by (simp add: recover_one_def rr_phase1_def)
next
  case (Some q)
  obtain f pm1 where f: "call_repo (rp_find_by_id R (sb_id s)) pm = (f, pm1)" by fastforce
  have ok1: "recovery_ok pm0 n (res, pm1)" by (rule recovery_ok_call_repo [OF ok f])
  have pools1: "pm_pools pm1 = pm_pools pm"
    using call_repo_frame(1) [of "rp_find_by_id R (sb_id s)" pm] f by simp
  consider e where "f = Inl e" | "f = Inr None" | rs where "f = Inr (Some rs)"
    by (metis option.exhaust sumE)
  then show ?thesis
  proof cases
    case 1
    then show ?thesis using recovery_ok_skip [OF ok1] Some f
      by (simp add: recover_one_def rr_phase1_def)
  next
    case 2
    obtain x pm2 where x: "call_repo (rp_save R s) pm1 = (x, pm2)" by fastforce
    have ok2: "recovery_ok pm0 n (res, pm2)" by (rule recovery_ok_call_repo [OF ok1 x])
    have q2: "map_of (pm_pools pm2) (sb_template s) = Some q"
      using call_repo_frame(1) [of "rp_save R s" pm1] x pools1 Some by simp
    show ?thesis
      using recovery_ok_skip [OF ok2] pool_reintegrate_ok [OF ok2 q2] Some f 2 x
      by (cases x) (simp_all add: recover_one_def rr_phase1_def)
  next
    case (3 rs)
    note s = sync_record_ok [OF ok1, of R rs]
    have q2: "map_of (pm_pools (sync_record R rs pm1)) (sb_template s) = Some q"
      using s(2) pools1 Some by simp
    show ?thesis
      using recovery_ok_skip [OF s(1)] pool_reintegrate_ok [OF s(1) q2, of clock] Some f 3 q2
      by (simp add: recover_one_def rr_phase1_def Let_def)
  qed
qed

lemma fold_recover_one_ok:
  "recovery_ok pm0 n st \<Longrightarrow> recovery_ok pm0 (n + length ss) (fold (recover_one R clock) ss st)"
proof (induction ss arbitrary: st n)
  case (Cons s ss)
  obtain res pm where "st = (res, pm)" by fastforce
  with Cons.prems have "recovery_ok pm0 (Suc n) (recover_one R clock s st)"
    using recover_one_ok by blast
  from Cons.IH [OF this] show ?case by simp
qed simp

lemma retire_orphan_ok:
  assumes "recovery_ok pm0 n (res, pm)"
  shows "recovery_ok pm0 n (retire_orphan R ids rs (res, pm))"
proof -
  obtain x pm' where c: "call_repo (rp_update R (snd (sb_terminate rs))) pm = (x, pm')" by fastforce
  have "recovery_ok pm0 n (res, pm')" by (rule recovery_ok_call_repo [OF assms c])
  then show ?thesis using assms c
    by (auto simp: retire_orphan_def recovery_ok_def rr_phase1_def split: prod.splits sum.splits)
qed

lemma fold_retire_orphan_ok:
  "recovery_ok pm0 n st \<Longrightarrow> recovery_ok pm0 n (fold (retire_orphan R ids) ss st)"
proof (induction ss arbitrary: st)
  case (Cons s ss)
  obtain res pm where "st = (res, pm)" by fastforce
  with Cons.prems have "recovery_ok pm0 n (retire_orphan R ids s st)" using retire_orphan_ok by blast
  from Cons.IH [OF this] show ?case by simp
qed simp

lemma recover_active_sandboxes_ok:
  obtains res pm' n where "recover_active_sandboxes R P clock pm = (res, pm')"
    and "recovery_ok pm n (res, pm')"
    and "\<And>listed w'. pr_list_sandboxes P \<lparr>flt_provider_name = None, flt_status = Some Running,
           flt_limit = None, flt_cursor = None\<rparr> (pm_world pm) = (Inr listed, w') \<Longrightarrow> n = length listed"
proof -
  let ?list = "pr_list_sandboxes P \<lparr>flt_provider_name = None, flt_status = Some Running,
           flt_limit = None, flt_cursor = None\<rparr>"
  obtain x pm1 where c: "call_provider ?list pm = (x, pm1)" by fastforce
  have start: "recovery_ok pm 0 (recovery_default, pm1)"
    using call_provider_frame [of ?list pm] c pool_inv_same [of pm1 pm]
    by (simp add: recovery_ok_def recovery_default_def rr_phase1_def)
  show thesis
  proof (cases x)
    case (Inl e)
    have "recover_active_sandboxes R P clock pm = (recovery_default, pm1)"
      by (simp add: recover_active_sandboxes_def c Inl)
    moreover have "?list (pm_world pm) \<noteq> (Inr listed, w')" for listed w'
      using c Inl by (auto simp: call_provider_def split: prod.splits)
    ultimately show thesis using that start by blast
  next
    case (Inr listed)
    obtain res pm2 where f: "fold (recover_one R clock) listed (recovery_default, pm1) = (res, pm2)"
      by fastforce
    have ok2: "recovery_ok pm (length listed) (res, pm2)"
      using fold_recover_one_ok [OF start, of listed R clock] f by simp
    obtain y pm3 where y: "call_repo (rp_find_active R) pm2 = (y, pm3)" by fastforce
    note ok3 = recovery_ok_call_repo [OF ok2 y]
    obtain res' pm' where r: "recover_active_sandboxes R P clock pm = (res', pm')" by fastforce
    have "recovery_ok pm (length listed) (res', pm')"
      using r ok3 fold_retire_orphan_ok [OF ok3, of R "sb_id ` set listed"]
      by (cases y) (auto simp: recover_active_sandboxes_def c Inr f y, metis)
    moreover have "?list (pm_world pm) = (Inr l, w') \<Longrightarrow> length listed = length l" for l w'
      using c Inr by (auto simp: call_provider_def split: prod.splits)
    ultimately show thesis using that r by blast
  qed
qed

subsection \<open>Histories of the manager\<close>

datatype pool_op =
    PoStart
  | PoTick
  | PoCheckout string "64 word"
  | PoCheckin sandbox_id
  | PoRegister string
  | PoStop

datatype pool_event = CheckedOut | CheckedIn | Quiet

text \<open>A checkout that waits for ever leaves the manager as it is.\<close>

fun pool_exec ::
    "'r repository \<Rightarrow> 'w provider \<Rightarrow> ('w \<Rightarrow> nat) \<Rightarrow> (nat \<Rightarrow> sandbox_id) \<Rightarrow> pool_op \<Rightarrow>
     ('r, 'w) pool_manager \<Rightarrow> pool_event \<times> ('r, 'w) pool_manager" where
  "pool_exec R P clock fresh PoStart pm = (Quiet, snd (pm_start R P clock pm))"
| "pool_exec R P clock fresh PoTick pm = (Quiet, refill_and_evict R P clock fresh pm)"
| "pool_exec R P clock fresh (PoCheckout k tm) pm =
     (case pm_checkout R P fresh k tm pm of
        None \<Rightarrow> (Quiet, pm)
      | Some (x, pm') \<Rightarrow> (if is_ok x then CheckedOut else Quiet, pm'))"
| "pool_exec R P clock fresh (PoCheckin i) pm =
     (case pm_checkin R P clock i pm of (x, pm') \<Rightarrow> (if is_ok x then CheckedIn else Quiet, pm'))"
| "pool_exec R P clock fresh (PoRegister k) pm = (Quiet, register_template k pm)"
| "pool_exec R P clock fresh PoStop pm = (Quiet, snd (pm_stop R P clock pm))"

fun pool_run ::
    "'r repository \<Rightarrow> 'w provider \<Rightarrow> ('w \<Rightarrow> nat) \<Rightarrow> (nat \<Rightarrow> sandbox_id) \<Rightarrow> pool_op list \<Rightarrow>
     ('r, 'w) pool_manager \<Rightarrow> pool_event list \<times> ('r, 'w) pool_manager" where
  "pool_run R P clock fresh [] pm = ([], pm)"
| "pool_run R P clock fresh (c # cs) pm =
     (case pool_exec R P clock fresh c pm of (ev, pm1) \<Rightarrow>
        case pool_run R P clock fresh cs pm1 of (evs, pm2) \<Rightarrow> (ev # evs, pm2))"

text \<open>The templates a history registers; a history is \<open>orderly\<close> if it registers no template twice,
  none that is known already, and does not stop the manager.\<close>

fun registered :: "pool_op list \<Rightarrow> string list" where
  "registered [] = []"
| "registered (PoRegister k # cs) = k # registered cs"
| "registered (c # cs) = registered cs"

definition orderly :: "string list \<Rightarrow> pool_op list \<Rightarrow> bool" where
  "orderly known cs = (distinct (known @ registered cs) \<and> PoStop \<notin> set cs)"

definition event_delta :: "pool_event \<Rightarrow> 64 word" where
  "event_delta ev = of_bool (ev = CheckedOut) - of_bool (ev = CheckedIn)"

lemma register_template_inv:
  assumes "pool_inv pm" "k \<notin> set (map fst (pm_pools pm))"
  shows "pool_inv (register_template k pm)"
    and "map fst (pm_pools (register_template k pm)) = map fst (pm_pools pm) @ [k]"
proof -
  have "map_of (pm_pools pm) k = None" using assms(2) by (simp add: map_of_eq_None_iff)
  from idle_total_update_new [OF this] show "pool_inv (register_template k pm)"
    using assms(1)
    by (simp add: pool_inv_def register_template_def distinct_update list_all_alist_update pq_new_def)
  show "map fst (pm_pools (register_template k pm)) = map fst (pm_pools pm) @ [k]"
    using assms(2) by (simp add: register_template_def update_keys)
qed

lemma pool_exec_inv:
  assumes "pool_inv pm" and "pool_exec R P clock fresh c pm = (ev, pm')" and "c \<noteq> PoStop"
    and new: "\<And>k. c = PoRegister k \<Longrightarrow> k \<notin> set (map fst (pm_pools pm))"
  shows "pool_inv pm'" "pm_permits pm' = pm_permits pm"
    "pm_active pm' = pm_active pm + event_delta ev"
    "map fst (pm_pools pm') = map fst (pm_pools pm) @ registered [c]"
proof -
  have "pool_inv pm' \<and> pm_permits pm' = pm_permits pm
    \<and> pm_active pm' = pm_active pm + event_delta ev
    \<and> map fst (pm_pools pm') = map fst (pm_pools pm) @ registered [c]"
  proof (cases c)
    case PoStart
    obtain res pm1 n where r: "recover_active_sandboxes R P clock pm = (res, pm1)"
        "recovery_ok pm n (res, pm1)"
      by (rule recover_active_sandboxes_ok)
    then have "ev = Quiet" "pm' = pm1\<lparr>pm_started := True\<rparr>"
      using assms(2) PoStart by (auto simp: pm_start_def)
    then show ?thesis using r(2) assms(1) PoStart pool_inv_same [of pm' pm1]
      by (simp add: recovery_ok_def event_delta_def)
  next
    case PoTick
    then show ?thesis using refill_and_evict_inv [OF assms(1), of R P clock fresh] assms(2)
      by (auto simp: event_delta_def)
  next
    case (PoCheckout k tm)
    show ?thesis
    proof (cases "pm_checkout R P fresh k tm pm")
      case None
      then show ?thesis using assms(1,2) PoCheckout by (simp add: event_delta_def)
    next
      case (Some y)
      obtain x pm1 where y: "y = (x, pm1)" by fastforce
      show ?thesis using pm_checkout_facts [OF Some [unfolded y]] assms(1,2) PoCheckout Some y
        by (auto simp: event_delta_def split: if_splits)
    qed
  next
    case (PoCheckin i)
    obtain x pm1 where y: "pm_checkin R P clock i pm = (x, pm1)" by fastforce
    show ?thesis using pm_checkin_facts [OF y] assms(1,2) PoCheckin y
      by (auto simp: event_delta_def)
  next
    case (PoRegister k)
    then show ?thesis using register_template_inv [OF assms(1) new] assms(2)
      by (auto simp: event_delta_def register_template_def)
  qed (use assms in auto)
  then show "pool_inv pm'" "pm_permits pm' = pm_permits pm"
    "pm_active pm' = pm_active pm + event_delta ev"
    "map fst (pm_pools pm') = map fst (pm_pools pm) @ registered [c]" by simp_all
qed

lemma registered_Cons: "registered (c # cs) = registered [c] @ registered cs"
  by (cases c) auto

lemma pool_run_inv:
  assumes "pool_inv pm" and "orderly (map fst (pm_pools pm)) cs"
    and "pool_run R P clock fresh cs pm = (evs, pm')"
  shows "pool_inv pm' \<and> pm_permits pm' = pm_permits pm
    \<and> pm_active pm' = pm_active pm + sum_list (map event_delta evs)"
  using assms
proof (induction cs arbitrary: pm evs)
  case (Cons c cs)
  obtain ev pm1 where e: "pool_exec R P clock fresh c pm = (ev, pm1)" by fastforce
  obtain evs1 where r: "pool_run R P clock fresh cs pm1 = (evs1, pm')" and evs: "evs = ev # evs1"
    using Cons.prems(3) e by (auto split: prod.splits)
  have new: "\<And>k. c = PoRegister k \<Longrightarrow> k \<notin> set (map fst (pm_pools pm))" and "c \<noteq> PoStop"
    using Cons.prems(2) by (auto simp: orderly_def)
  note step = pool_exec_inv [OF Cons.prems(1) e \<open>c \<noteq> PoStop\<close> new]
  have "orderly (map fst (pm_pools pm1)) cs"
    using Cons.prems(2) step(4) registered_Cons [of c cs] by (simp add: orderly_def)
  from Cons.IH [OF step(1) this r] show ?case using step by (simp add: evs algebra_simps)
qed simp

lemma sum_event_delta:
  "sum_list (map event_delta evs)
     = of_nat (count_list evs CheckedOut) - of_nat (count_list evs CheckedIn)"
  by (induction evs) (auto simp: event_delta_def)

lemma pm_new_inv: "pm_new config r w = Some pm \<Longrightarrow> pool_inv pm \<and> pm_pools pm = []
    \<and> pm_permits pm = cfg_max_total config \<and> pm_active pm = 0 \<and> pm_config pm = config"
  by (auto simp: pm_new_def pool_inv_def split: if_splits)

lemma idle_total_stats: "st_idle (pm_stats pm) = idle_total (pm_pools pm)"
  by (simp add: pm_stats_def idle_total_def idle_count_def Let_def)

text \<open>
  A provider for concrete runs: its world counts the sandboxes it has created and not terminated.
\<close>

definition counting_provider :: "nat provider" where
  "counting_provider =
     \<lparr>pr_create = (\<lambda>i k res net env tm n. (Ok (sandbox_new 0 i k ''demo'' None res net), n + 1)),
      pr_terminate = (\<lambda>i n. (Ok (), n - 1)), pr_is_alive = (\<lambda>i n. (Ok True, n)),
      pr_run_command = (\<lambda>i c n. (Err (Internal ''none''), n)),
      pr_run_command_stream = (\<lambda>i c n. (Err (Internal ''none''), n)),
      pr_cancel_command = (\<lambda>i g n. (Ok False, n)), pr_write_file = (\<lambda>i p b n. (Ok (), n)),
      pr_read_file = (\<lambda>i p n. (Ok [], n)), pr_list_files = (\<lambda>i d n. (Ok [], n)),
      pr_list_sandboxes = (\<lambda>f n. (Ok [], n))\<rparr>"

subsection \<open>Properties of the pool\<close>

text \<open>
  C6: the pool's books balance. After any sequence of starts, ticks of the background task,
  checkouts, checkins and registrations of new templates, with any provider and any repository: the
  idle counter is the number of sandboxes in the queues (modulo 2^64), no queue holds more than its
  maximum, every template has one queue, the active counter is the number of successful checkouts
  minus the number of successful checkins (modulo 2^64), and every permit of the semaphore is free
  again, so that it never limits how many sandboxes exist.
\<close>

theorem pool_books_balanced:
  assumes "pm_new config r w = Some pm0" and "orderly [] cs"
    and "pool_run R P clock fresh cs pm0 = (evs, pm)"
  shows "let st = pm_stats pm in
    pm_idle pm = of_nat (st_idle st)
    \<and> list_all (\<lambda>ts. ts_idle ts \<le> ts_max_idle ts) (st_templates st)
    \<and> distinct (map ts_template (st_templates st))
    \<and> st_active st = of_nat (count_list evs CheckedOut) - of_nat (count_list evs CheckedIn)
    \<and> pm_permits pm = cfg_max_total config"
proof -
  note new = pm_new_inv [OF assms(1)]
  then have "orderly (map fst (pm_pools pm0)) cs" using assms(2) by simp
  with pool_run_inv [OF _ this assms(3)] new have inv: "pool_inv pm"
      "pm_permits pm = cfg_max_total config" "pm_active pm = sum_list (map event_delta evs)"
    by simp_all
  have "map ts_template (st_templates (pm_stats pm)) = map fst (pm_pools pm)"
    by (simp add: pm_stats_def Let_def comp_def case_prod_unfold)
  moreover have "list_all (\<lambda>ts. ts_idle ts \<le> ts_max_idle ts) (st_templates (pm_stats pm))"
    using inv(1) by (auto simp: pm_stats_def Let_def pool_inv_def list_all_iff idle_count_def)
  moreover have "st_active (pm_stats pm) = pm_active pm" by (simp add: pm_stats_def Let_def)
  ultimately show ?thesis
    using inv by (simp add: Let_def idle_total_stats pool_inv_def sum_event_delta)
qed

theorem pool_books_balanced_witness:
  "\<exists>pm0 evs pm. pm_new pool_config_default mem_new 0 = Some pm0
     \<and> pool_run in_memory counting_provider (\<lambda>n. 0) (\<lambda>n. ''id'')
         [PoRegister ''py'', PoCheckout ''py'' 5, PoCheckin ''id''] pm0 = (evs, pm)
     \<and> pm_idle pm = 1 \<and> st_active (pm_stats pm) = 0"
proof -
  define pm0 where "pm0 = the (pm_new pool_config_default mem_new (0 :: nat))"
  have new: "pm_new pool_config_default mem_new (0 :: nat) = Some pm0"
    by (simp add: pm0_def pm_new_def pool_config_default_def)
  have o: "orderly [] [PoRegister ''py'', PoCheckout ''py'' 5, PoCheckin ''id'']"
    by (simp add: orderly_def)
  obtain evs pm where run: "pool_run in_memory counting_provider (\<lambda>n. 0) (\<lambda>n. ''id'')
      [PoRegister ''py'', PoCheckout ''py'' 5, PoCheckin ''id''] pm0 = (evs, pm)" by fastforce
  have "evs = [Quiet, CheckedOut, CheckedIn] \<and> st_idle (pm_stats pm) = 1"
    using run
    by (auto simp: pm0_def pm_new_def pool_config_default_def register_template_def pm_checkout_def
        pq_new_def pq_checkout_def checkout_direct_def create_with_def and_then_def
        call_provider_def call_repo_def counting_provider_def mem_defs acquire_permit_def
        release_permit_def pm_checkin_def checkin_found_def Let_def pq_checkin_def sandbox_new_def
        mem_new_def idle_total_stats)
  with pool_books_balanced [OF new o run] have "pm_idle pm = 1 \<and> st_active (pm_stats pm) = 0"
    by (simp add: Let_def)
  then show ?thesis using new run by blast
qed

lemma create_sandbox_succeeds:
  assumes create: "\<And>i k res net env t w. is_ok (fst (pr_create P i k res net env t w))"
  shows "\<exists>s pm'. create_sandbox in_memory P fresh k pm = (Inr s, pm')"
proof -
  obtain x w where c: "pr_create P (fresh (pm_drawn pm)) k resources_default network_default []
      3600000 (pm_world pm) = (x, w)" by fastforce
  have "is_ok x" using create c by (metis fst_conv)
  then show ?thesis
    using c by (auto simp: is_ok_iff create_sandbox_def create_with_def and_then_def
        call_provider_def call_repo_def mem_save_def)
qed

lemma refill_queue_min:
  assumes create: "\<And>i k res net env t w. is_ok (fst (pr_create P i k res net env t w))"
  shows "refill_queue in_memory P clock fresh k q pm = (q', pm') \<Longrightarrow> 0 < pm_permits pm \<Longrightarrow>
     pm_permits pm' = pm_permits pm
     \<and> min (pq_min_idle q') (pq_max_idle q') \<le> length (pq_entries q')"
proof (induction "pq_min_idle q - length (pq_entries q)" arbitrary: q pm rule: less_induct)
  case less
  show ?case
  proof (cases "needs_refill q")
    case False
    then show ?thesis using less.prems
      by (subst (asm) refill_queue.simps) (auto simp: needs_refill_def)
  next
    case True
    obtain s pm1 where c: "create_sandbox in_memory P fresh k (acquire_permit pm) = (Inr s, pm1)"
      using create_sandbox_succeeds [OF create] by blast
    have frame: "pm_permits pm1 = pm_permits pm - 1"
      using create_with_frame(4) [of in_memory P fresh 3600000 k "acquire_permit pm"] c
      by (simp add: create_sandbox_def)
    obtain b q1 where q1: "pq_checkin (clock (pm_world pm1)) s q = (b, q1)" by fastforce
    note cc = pq_checkin_cases [OF q1]
    show ?thesis
    proof (cases b)
      case False
      then show ?thesis using less.prems True c q1 cc frame
        by (subst (asm) refill_queue.simps) (auto simp: Let_def pool_frame)
    next
      case b: True
      let ?pm2 = "release_permit (pm1\<lparr>pm_idle := pm_idle pm1 + 1\<rparr>)"
      have r: "refill_queue in_memory P clock fresh k q1 ?pm2 = (q', pm')"
        using less.prems True c q1 b by (subst (asm) refill_queue.simps) (simp add: Let_def)
      have dec: "pq_min_idle q1 - length (pq_entries q1) < pq_min_idle q - length (pq_entries q)"
        using True cc b by (auto simp: needs_refill_def)
      show ?thesis
        using less.hyps [OF dec r] less.prems(2) frame by (simp add: release_permit_def)
    qed
  qed
qed

lemma refill_pools_min:
  assumes create: "\<And>i k res net env t w. is_ok (fst (pr_create P i k res net env t w))"
  shows "refill_pools in_memory P clock fresh ps pm = (ps', pm') \<Longrightarrow> 0 < pm_permits pm \<Longrightarrow>
     list_all (\<lambda>(k, q). min (pq_min_idle q) (pq_max_idle q) \<le> length (pq_entries q)) ps'"
proof (induction ps arbitrary: pm ps')
  case (Cons kq ps)
  obtain k q where kq: "kq = (k, q)" by (cases kq)
  obtain q' pm1 where q': "refill_queue in_memory P clock fresh k q pm = (q', pm1)" by fastforce
  obtain ps1 pm2 where r: "refill_pools in_memory P clock fresh ps pm1 = (ps1, pm2)" by fastforce
  note m = refill_queue_min [OF create q' Cons.prems(2)]
  show ?case using Cons.IH [of pm1 ps1] Cons.prems r q' m kq by auto
qed simp


text \<open>
  Witness: a manager with a maximum total of one and a template that wants three idle sandboxes ends
  the tick with three.
\<close>

definition small_pool :: "(in_memory_store, nat) pool_manager" where
  "small_pool = \<lparr>pm_pools = [(''py'', pq_new 3 4 1000)],
     pm_config = \<lparr>cfg_min_idle = 3, cfg_max_idle = 4, cfg_max_total = 1,
        cfg_idle_timeout_ms = 1000, cfg_refill_interval_ms = 5000\<rparr>,
     pm_active = 0, pm_idle = 0, pm_permits = 1, pm_started = True, pm_repo = mem_new,
     pm_world = 0, pm_drawn = 0\<rparr>"

definition demo_sandbox :: "sandbox_id \<Rightarrow> template_id \<Rightarrow> sandbox" where
  "demo_sandbox i k = sandbox_new 0 i k ''demo'' None resources_default network_default"

lemma small_pool_inv: "pool_inv small_pool"
  by (simp add: small_pool_def pool_inv_def pq_new_def)


text \<open>
  C8: recovery accounts for every sandbox the provider reports. Each is counted exactly once, as
  reintegrated, skipped because the queue is full, skipped because its template is not registered, or
  failed; the idle counter grows by the number of reintegrated ones; the pool's invariant and the
  other counters stay as they are.
\<close>

theorem recovery_accounts_for_all:
  assumes list: "pr_list_sandboxes P \<lparr>flt_provider_name = None, flt_status = Some Running,
      flt_limit = None, flt_cursor = None\<rparr> (pm_world pm) = (Inr listed, w')"
    and inv: "pool_inv pm"
  shows "let (res, pm') = recover_active_sandboxes R P clock pm in
    rr_reintegrated res + rr_skipped_pool_full res + rr_skipped_not_registered res + rr_failed res
      = length listed
    \<and> pm_idle pm' = pm_idle pm + of_nat (rr_reintegrated res)
    \<and> pool_inv pm' \<and> pm_active pm' = pm_active pm \<and> pm_permits pm' = pm_permits pm"
proof -
  obtain res pm' n where "recover_active_sandboxes R P clock pm = (res, pm')"
      "recovery_ok pm n (res, pm')" "n = length listed"
    using recover_active_sandboxes_ok [of R P clock pm] list by metis
  then show ?thesis using inv by (simp add: recovery_ok_def rr_phase1_def)
qed

theorem recovery_accounts_for_all_witness:
  "\<exists>res pm'. recover_active_sandboxes in_memory (counting_provider\<lparr>pr_list_sandboxes :=
       (\<lambda>f n. (Inr [demo_sandbox ''a'' ''py'', demo_sandbox ''b'' ''go''], n))\<rparr>) (\<lambda>n. 0) small_pool
       = (res, pm')
     \<and> rr_reintegrated res + rr_skipped_pool_full res + rr_skipped_not_registered res
         + rr_failed res = 2 \<and> pool_inv pm'"
proof -
  let ?P = "counting_provider\<lparr>pr_list_sandboxes :=
    (\<lambda>f n. (Inr [demo_sandbox ''a'' ''py'', demo_sandbox ''b'' ''go''], n))\<rparr>"
  obtain res pm' where r: "recover_active_sandboxes in_memory ?P (\<lambda>n. 0) small_pool = (res, pm')"
    by fastforce
  show ?thesis
    using recovery_accounts_for_all [OF _ small_pool_inv, of ?P
        "[demo_sandbox ''a'' ''py'', demo_sandbox ''b'' ''go'']" "pm_world small_pool"
        in_memory "\<lambda>n. 0"] r
    by (simp add: Let_def)
qed

text \<open>What recovery does to the records of the in-memory repository.\<close>

lemma retire_orphan_repo:
  assumes "mem_wf (pm_repo pm)" and "retire_orphan in_memory ids rs (res, pm) = (res', pm')"
  shows "mem_wf (pm_repo pm')"
    and "pm_repo pm' = (if sb_id rs \<notin> ids \<and> \<not> status_is_terminal (sb_status rs)
      then AList.update (sb_id rs) (rs\<lparr>sb_status := Stopped\<rparr>) (pm_repo pm) else pm_repo pm)"
proof -
  show r: "pm_repo pm' = (if sb_id rs \<notin> ids \<and> \<not> status_is_terminal (sb_status rs)
      then AList.update (sb_id rs) (rs\<lparr>sb_status := Stopped\<rparr>) (pm_repo pm) else pm_repo pm)"
    using assms(2)
    by (cases "sb_status rs")
      (auto simp: retire_orphan_def sb_terminate_def call_repo_def mem_update_def split: if_splits)
  show "mem_wf (pm_repo pm')"
    using assms(1) mem_wf_update [of "pm_repo pm" "rs\<lparr>sb_status := Stopped\<rparr>"] by (simp add: r)
qed

lemma fold_retire_orphan_repo:
  assumes "mem_wf (pm_repo pm)" and "fold (retire_orphan in_memory ids) ss (res, pm) = (res', pm')"
    and "map_of (pm_repo pm') i = Some s" and "\<not> status_is_terminal (sb_status s)" and "i \<notin> ids"
  shows "map_of (pm_repo pm) i = Some s \<and> s \<notin> set ss"
  using assms
proof (induction ss arbitrary: res pm)
  case (Cons rs ss)
  obtain res1 pm1 where r: "retire_orphan in_memory ids rs (res, pm) = (res1, pm1)" by fastforce
  note ro = retire_orphan_repo [OF Cons.prems(1) r]
  have ih: "map_of (pm_repo pm1) i = Some s \<and> s \<notin> set ss"
    using Cons.IH [OF ro(1)] Cons.prems r by simp
  then have sid: "sb_id s = i" using mem_wf_find_id [OF ro(1)] by blast
  show ?case
  proof (cases "sb_id rs \<notin> ids \<and> \<not> status_is_terminal (sb_status rs)")
    case True
    then have "map_of (pm_repo pm1) = (map_of (pm_repo pm))(sb_id rs \<mapsto> rs\<lparr>sb_status := Stopped\<rparr>)"
      by (simp add: ro(2) update_conv')
    moreover have "\<not> status_is_terminal (sb_status (rs\<lparr>sb_status := Stopped\<rparr>)) \<Longrightarrow> False" by simp
    ultimately have "i \<noteq> sb_id rs" "map_of (pm_repo pm) i = Some s"
      using ih Cons.prems(4) by (auto split: if_splits)
    then show ?thesis using ih sid by auto
  next
    case False
    then show ?thesis using ih ro(2) sid Cons.prems(4,5) by auto
  qed
qed simp

lemma recover_one_mem_wf:
  "mem_wf (pm_repo (snd st)) \<Longrightarrow> mem_wf (pm_repo (snd (recover_one in_memory clock s st)))"
  by (cases st)
    (auto simp: recover_one_def sync_record_def pool_reintegrate_def call_repo_def mem_defs Let_def
      intro: mem_wf_intros split: option.splits prod.splits sum.splits bool.splits)

lemma fold_recover_one_mem_wf:
  "mem_wf (pm_repo (snd st)) \<Longrightarrow> mem_wf (pm_repo (snd (fold (recover_one in_memory clock) ss st)))"
  by (induction ss arbitrary: st) (simp_all add: recover_one_mem_wf)

text \<open>
  after recovery the repository holds no active record of a sandbox the provider does not run:
  every record that is not stopped or failed belongs to a sandbox the provider has listed.
\<close>

theorem recovery_leaves_no_orphans:
  assumes list: "pr_list_sandboxes P \<lparr>flt_provider_name = None, flt_status = Some Running,
      flt_limit = None, flt_cursor = None\<rparr> (pm_world pm) = (Inr listed, w')"
    and wf: "mem_wf (pm_repo pm)"
  shows "let pm' = snd (recover_active_sandboxes in_memory P clock pm) in
    {i. \<exists>s. map_of (pm_repo pm') i = Some s \<and> \<not> status_is_terminal (sb_status s)}
      \<subseteq> sb_id ` set listed"
proof -
  define pm1 where "pm1 = pm\<lparr>pm_world := w'\<rparr>"
  obtain res pm2 where f: "fold (recover_one in_memory clock) listed (recovery_default, pm1) = (res, pm2)"
    by fastforce
  have wf2: "mem_wf (pm_repo pm2)"
    using fold_recover_one_mem_wf [of "(recovery_default, pm1)" clock listed] wf f
    by (simp add: pm1_def)
  obtain res' pm' where r: "fold (retire_orphan in_memory (sb_id ` set listed))
      (map snd (pm_repo pm2)) (res, pm2) = (res', pm')" by fastforce
  have rec: "recover_active_sandboxes in_memory P clock pm = (res', pm')"
    using list f r by (simp add: recover_active_sandboxes_def call_provider_def pm1_def call_repo_def
        mem_find_active_def)
  have "i \<in> sb_id ` set listed"
    if "map_of (pm_repo pm') i = Some s" "\<not> status_is_terminal (sb_status s)" for i s
  proof (rule ccontr)
    assume "i \<notin> sb_id ` set listed"
    from fold_retire_orphan_repo [OF wf2 r that this]
    have "map_of (pm_repo pm2) i = Some s" "s \<notin> snd ` set (pm_repo pm2)" by simp_all
    then show False by (metis image_eqI map_of_SomeD snd_conv)
  qed
  then show ?thesis by (auto simp: rec)
qed

theorem recovery_leaves_no_orphans_witness:
  "{i. \<exists>s. map_of (pm_repo (snd (recover_active_sandboxes in_memory counting_provider (\<lambda>n. 0)
        (small_pool\<lparr>pm_repo := [(''a'', demo_sandbox ''a'' ''py'')]\<rparr>)))) i = Some s
      \<and> \<not> status_is_terminal (sb_status s)} = {}"
  using recovery_leaves_no_orphans [of counting_provider
      "small_pool\<lparr>pm_repo := [(''a'', demo_sandbox ''a'' ''py'')]\<rparr>" "[]" 0 "\<lambda>n. 0"]
  by (simp add: counting_provider_def mem_wf_def demo_sandbox_def sandbox_new_def small_pool_def
      Let_def)

text \<open>
  the sandboxes of a queue are handed out first in, first out, none twice and none invented:
  after any sequence of checkins and checkouts, what was handed out followed by what is still
  waiting is what was waiting at first followed by the accepted checkins, in order; and the queue
  never exceeds its maximum.
\<close>

theorem warm_queue_fifo:
  "fst (warm.run cs q) @ pq_items (snd (warm.run cs q)) = pq_items q @ warm.accepted cs q
   \<and> (if length (pq_items q) \<le> pq_max_idle q
      then length (pq_items (snd (warm.run cs q))) \<le> pq_max_idle q else True)"
  using warm.run_fifo [of cs q] warm.run_bounded [of q cs] by simp

text \<open>
  checkin gives a terminated sandbox back to the pool. When the template's queue is empty and has
  room, checking in a recorded sandbox asks the provider to terminate it and queues the same
  sandbox; the next checkout of the template hands out exactly this sandbox, without any further
  call of the provider.
\<close>

theorem checkin_recycles_terminated:
  assumes found: "map_of (pm_repo pm) i = Some s"
    and queue: "map_of (pm_pools pm) (sb_template s) = Some q"
    and empty: "pq_entries q = []" and room: "0 < pq_max_idle q"
  shows "let pm1 = snd (pm_checkin in_memory P clock i pm) in
    pm_world pm1 = snd (pr_terminate P i (pm_world pm))
    \<and> (\<exists>pm2. pm_checkout in_memory P fresh (sb_template s) tm pm1 = Some (Inr s, pm2)
          \<and> pm_world pm2 = pm_world pm1)"
  using assms
  by (simp add: pm_checkin_def and_then_def call_repo_def mem_find_by_id_def checkin_found_def
      Let_def call_provider_def pq_checkin_def update_conv' pm_checkout_def pq_checkout_def
      pool_entry_new_def mem_update_def split: prod.splits)

theorem checkin_recycles_terminated_witness:
  "\<exists>pm2. pm_checkout in_memory counting_provider (\<lambda>n. ''id'') ''py'' 5
       (snd (pm_checkin in_memory counting_provider (\<lambda>n. 0) ''a''
          (small_pool\<lparr>pm_repo := [(''a'', demo_sandbox ''a'' ''py'')]\<rparr>)))
     = Some (Inr (demo_sandbox ''a'' ''py''), pm2)"
proof -
  have t: "sb_template (demo_sandbox ''a'' ''py'') = ''py''"
    by (simp add: demo_sandbox_def sandbox_new_def)
  show ?thesis
    using checkin_recycles_terminated [of "small_pool\<lparr>pm_repo := [(''a'', demo_sandbox ''a'' ''py'')]\<rparr>"
        "''a''" "demo_sandbox ''a'' ''py''" "pq_new 3 4 1000" counting_provider "\<lambda>n. 0"
        "\<lambda>n. ''id''" 5]
    by (auto simp: small_pool_def t pq_new_def Let_def)
qed

lemma evict_pools_fresh:
  assumes "\<And>w. list_all (\<lambda>(k, q). list_all
      (\<lambda>e. \<not> is_idle_timeout (clock w) (pq_idle_timeout_ms q) e) (pq_entries q)) ps"
  shows "evict_pools R P clock ps pm = (ps, 0, pm)"
  using assms
proof (induction ps)
  case (Cons kq ps)
  obtain k q where kq: "kq = (k, q)" by (cases kq)
  have "list_all (\<lambda>e. \<not> is_idle_timeout (clock (pm_world pm)) (pq_idle_timeout_ms q) e) (pq_entries q)"
    using Cons.prems [of "pm_world pm"] kq by simp
  then have "filter (\<lambda>e. \<not> is_idle_timeout (clock (pm_world pm)) (pq_idle_timeout_ms q) e)
        (pq_entries q) = pq_entries q"
      "filter (is_idle_timeout (clock (pm_world pm)) (pq_idle_timeout_ms q)) (pq_entries q) = []"
    by (auto simp: list_all_iff filter_id_conv filter_empty_conv)
  then have "evict_idle (clock (pm_world pm)) q = ([], q)" by (simp add: evict_idle_def Let_def)
  then show ?case using Cons kq by simp
qed simp

text \<open>
  stopping the manager does not terminate the pooled sandboxes. If no entry has been idle for
  longer than the timeout, \<open>stop\<close> reports success, leaves every queue, the repository and the
  provider as they are, and sets both counters to zero, so that the idle counter no longer counts
  the queues.
\<close>

theorem stop_keeps_fresh_sandboxes:
  assumes "\<And>w. list_all (\<lambda>(k, q). list_all
      (\<lambda>e. \<not> is_idle_timeout (clock w) (pq_idle_timeout_ms q) e) (pq_entries q)) (pm_pools pm)"
  shows "pm_stop R P clock pm
    = (Inr (), pm\<lparr>pm_started := False, pm_idle := 0, pm_active := 0\<rparr>)"
proof -
  have "evict_pools R P clock (pm_pools pm) (pm\<lparr>pm_started := False\<rparr>)
      = (pm_pools pm, 0, pm\<lparr>pm_started := False\<rparr>)"
    by (rule evict_pools_fresh [OF assms])
  then show ?thesis by (simp add: pm_stop_def)
qed

theorem stop_keeps_fresh_sandboxes_witness:
  "let pm = small_pool\<lparr>pm_pools := [(''py'', snd (pq_checkin 0 (demo_sandbox ''a'' ''py'')
              (pq_new 3 4 1000)))]\<rparr>
   in pm_pools (snd (pm_stop in_memory counting_provider (\<lambda>n. 0) pm)) = pm_pools pm
      \<and> idle_total (pm_pools pm) = 1"
  using stop_keeps_fresh_sandboxes [of "\<lambda>n. 0" "small_pool\<lparr>pm_pools := [(''py'',
      snd (pq_checkin 0 (demo_sandbox ''a'' ''py'') (pq_new 3 4 1000)))]\<rparr>" in_memory
      counting_provider]
  by (simp add: Let_def pq_checkin_def pq_new_def pool_entry_new_def is_idle_timeout_def)

text \<open>
  registering a template that is registered already throws its queue away: the sandboxes in it
  are no longer in any queue, nothing terminates them, and the idle counter keeps counting them.
\<close>

theorem reregistering_loses_queue:
  assumes inv: "pool_inv pm" and known: "map_of (pm_pools pm) k = Some q"
  shows "let pm' = register_template k pm in
    pm_idle pm' = of_nat (idle_total (pm_pools pm') + length (pq_entries q))
    \<and> pm_world pm' = pm_world pm \<and> pm_repo pm' = pm_repo pm
    \<and> map_option pq_entries (map_of (pm_pools pm') k) = Some []"
proof -
  have "idle_total (pm_pools pm) = idle_total (pm_pools (register_template k pm)) + length (pq_entries q)"
    using idle_total_update [OF known, of "pq_new (cfg_min_idle (pm_config pm))
        (cfg_max_idle (pm_config pm)) (cfg_idle_timeout_ms (pm_config pm))"]
    by (simp add: register_template_def pq_new_def)
  moreover have "pm_idle pm = of_nat (idle_total (pm_pools pm))" using inv by (simp add: pool_inv_def)
  ultimately show ?thesis
    by (simp add: Let_def register_template_def update_conv' pq_new_def)
qed

theorem reregistering_loses_queue_witness:
  "let pm = small_pool\<lparr>pm_idle := 1, pm_pools := [(''py'',
              snd (pq_checkin 0 (demo_sandbox ''a'' ''py'') (pq_new 3 4 1000)))]\<rparr>
   in pm_idle (register_template ''py'' pm)
        = of_nat (idle_total (pm_pools (register_template ''py'' pm)) + 1)"
  using reregistering_loses_queue [of "small_pool\<lparr>pm_idle := 1, pm_pools := [(''py'',
      snd (pq_checkin 0 (demo_sandbox ''a'' ''py'') (pq_new 3 4 1000)))]\<rparr>" "''py''"
      "snd (pq_checkin 0 (demo_sandbox ''a'' ''py'') (pq_new 3 4 1000))"]
  by (simp add: Let_def pq_checkin_def pq_new_def pool_inv_def)

end
