(* ===== verification/Command_Sanitizer.thy ===== *)
theory Command_Sanitizer
  imports Bastion_Prelude "HOL-Library.Sublist"
begin

text \<open>
  The redaction of secrets in command lines, \<open>enrichment-engine/src/sanitizer.rs\<close>. The Rust code walks over
  the bytes of a UTF-8 string; in this theory a \<open>char\<close> is such a byte. Every check of the source looks at the
  text from the current position on only, so the model passes that rest of the text, and positions count
  from its start. A slice of a Rust string panics when it does not begin and end between two characters;
  then the result here is \<open>None\<close>.
\<close>

section \<open>UTF-8 text\<close>

definition is_continuation :: "char \<Rightarrow> bool" where
  "is_continuation c = (128 \<le> (of_char c :: nat) \<and> (of_char c :: nat) < 192)"

definition is_ascii :: "char \<Rightarrow> bool" where
  "is_ascii c = ((of_char c :: nat) < 128)"

text \<open>The well-formed byte sequences of one character, by their first byte.\<close>

definition in_range :: "nat \<Rightarrow> nat \<Rightarrow> char \<Rightarrow> bool" where
  "in_range lo hi c = (lo \<le> of_char c \<and> (of_char c :: nat) \<le> hi)"

definition utf8_pair :: "char \<Rightarrow> char \<Rightarrow> bool" where
  "utf8_pair a b = (in_range 0xC2 0xDF a \<and> is_continuation b)"

definition utf8_triple :: "char \<Rightarrow> char \<Rightarrow> char \<Rightarrow> bool" where
  "utf8_triple a b c =
     (((in_range 0xE0 0xE0 a \<and> in_range 0xA0 0xBF b) \<or>
       ((in_range 0xE1 0xEC a \<or> in_range 0xEE 0xEF a) \<and> is_continuation b) \<or>
       (in_range 0xED 0xED a \<and> in_range 0x80 0x9F b)) \<and> is_continuation c)"

definition utf8_quad :: "char \<Rightarrow> char \<Rightarrow> char \<Rightarrow> char \<Rightarrow> bool" where
  "utf8_quad a b c d =
     (((in_range 0xF0 0xF0 a \<and> in_range 0x90 0xBF b) \<or>
       (in_range 0xF1 0xF3 a \<and> is_continuation b) \<or>
       (in_range 0xF4 0xF4 a \<and> in_range 0x80 0x8F b)) \<and> is_continuation c \<and> is_continuation d)"

fun utf8 :: "string \<Rightarrow> bool" where
  "utf8 [] = True"
| "utf8 (a # s) =
     (if is_ascii a then utf8 s
      else case s of
             [] \<Rightarrow> False
           | b # s1 \<Rightarrow>
               (utf8_pair a b \<and> utf8 s1) \<or>
               (case s1 of
                  [] \<Rightarrow> False
                | c # s2 \<Rightarrow>
                    (utf8_triple a b c \<and> utf8 s2) \<or>
                    (case s2 of [] \<Rightarrow> False | d # s3 \<Rightarrow> utf8_quad a b c d \<and> utf8 s3)))"

text \<open>\<open>str::is_char_boundary\<close>, and the slice from the current position to another.\<close>

definition char_boundary :: "string \<Rightarrow> nat \<Rightarrow> bool" where
  "char_boundary s n = (if n < length s then \<not> is_continuation (s ! n) else n = length s)"

definition str_slice :: "string \<Rightarrow> nat \<Rightarrow> string option" where
  "str_slice s n = (if char_boundary s 0 \<and> char_boundary s n then Some (take n s) else None)"

section \<open>The checks\<close>

text \<open>\<open>u8::is_ascii_whitespace\<close>, and the number of bytes before the first one of a kind.\<close>

definition is_ascii_whitespace :: "char \<Rightarrow> bool" where
  "is_ascii_whitespace c = (c \<in> {CHR '' '', CHR 0x09, CHR 0x0A, CHR 0x0C, CHR 0x0D})"

definition bytes_until :: "(char \<Rightarrow> bool) \<Rightarrow> string \<Rightarrow> nat" where
  "bytes_until stop s = length (takeWhile (\<lambda>b. \<not> stop b) s)"

definition is_line_blank :: "char \<Rightarrow> bool" where
  "is_line_blank b = (b \<in> {CHR '' '', CHR 0x09, CHR 0x0A, CHR 0x0D})"

definition is_quote :: "char \<Rightarrow> bool" where
  "is_quote b = (b \<in> {CHR 0x27, CHR 0x22})"

definition is_delimiter :: "char \<Rightarrow> bool" where
  "is_delimiter b = (is_line_blank b \<or> is_quote b \<or> b = CHR '','' \<or> b = CHR ''&'')"

text \<open>After the value: if a quote follows, everything to its closing quote belongs to the value.\<close>

definition skip_quoted :: "string \<Rightarrow> nat" where
  "skip_quoted s =
     (case s of
        [] \<Rightarrow> 0
      | q # t \<Rightarrow>
          if is_quote q
          then let n = bytes_until (\<lambda>b. b = q) t in if n < length t then n + 2 else n + 1
          else 0)"

definition assignment_patterns :: "string list" where
  "assignment_patterns = [''token='', ''password='', ''api_key='']"

definition check_assignment_pattern :: "string \<Rightarrow> (nat \<times> nat \<times> nat) option" where
  "check_assignment_pattern s =
     (case find (\<lambda>p. starts_with p s) assignment_patterns of
        None \<Rightarrow> None
      | Some p \<Rightarrow>
          let value_start = length p;
              value_end = value_start + bytes_until is_delimiter (drop value_start s)
          in Some (length p - 1, value_start, value_end + skip_quoted (drop value_end s)))"

definition check_bearer_pattern :: "string \<Rightarrow> nat option" where
  "check_bearer_pattern s = (if starts_with ''Bearer '' s then Some 7 else None)"

definition check_aws_key_pattern :: "string \<Rightarrow> (nat \<times> nat) option" where
  "check_aws_key_pattern s =
     (if \<not> starts_with ''AKIA'' s then None
      else
        let finish = 4 + bytes_until (\<lambda>b. is_line_blank b \<or> is_quote b \<or> b = CHR '','') (drop 4 s)
        in if 8 \<le> finish then Some (0, finish) else None)"

definition snake_value_end :: "char \<Rightarrow> bool" where
  "snake_value_end b = (is_delimiter b \<and> b \<noteq> CHR 0x0D)"

definition is_upper :: "char \<Rightarrow> bool" where
  "is_upper b = in_range 0x41 0x5A b"

definition is_lower :: "char \<Rightarrow> bool" where
  "is_lower b = in_range 0x61 0x7A b"

definition is_snake_key :: "string \<Rightarrow> bool" where
  "is_snake_key key =
     (3 \<le> length key \<and> length key \<le> 64 \<and> list_ex is_upper key \<and> \<not> is_ascii_digit (hd key) \<and>
      list_all (\<lambda>b. is_upper b \<or> b = CHR ''_'' \<or> is_ascii_digit b) key)"

definition check_snake_key_pattern :: "string \<Rightarrow> (nat \<times> nat \<times> nat) option" where
  "check_snake_key_pattern s =
     (let eq_pos = bytes_until (\<lambda>b. b = CHR ''='') s
      in if eq_pos < length s \<and> is_snake_key (take eq_pos s)
         then Some (eq_pos, eq_pos + 1, eq_pos + 1 + bytes_until snake_value_end (drop (eq_pos + 1) s))
         else None)"

definition is_ascii_alnum :: "char \<Rightarrow> bool" where
  "is_ascii_alnum b = (is_ascii_digit b \<or> is_lower b \<or> is_upper b)"

definition github_prefixes :: "string list" where
  "github_prefixes = [''ghp_'', ''gho_'', ''ght_'', ''ghs_'']"

definition check_github_token :: "string \<Rightarrow> (nat \<times> nat) option" where
  "check_github_token s =
     (case find (\<lambda>p. starts_with p s) github_prefixes of
        None \<Rightarrow> None
      | Some p \<Rightarrow>
          let count = bytes_until (\<lambda>b. is_delimiter b \<or> \<not> is_ascii_alnum b) (drop (length p) s)
          in if 8 \<le> count then Some (0, length p + count) else None)"

definition check_openai_long_prefix :: "string \<Rightarrow> string \<Rightarrow> nat \<Rightarrow> (nat \<times> nat) option" where
  "check_openai_long_prefix s pre min_chars =
     (if starts_with pre s
      then let count = bytes_until is_delimiter (drop (length pre) s)
           in if min_chars \<le> count then Some (0, length pre + count) else None
      else None)"

definition or_check :: "'a option \<Rightarrow> 'a option \<Rightarrow> 'a option" where
  "or_check x y = (case x of Some a \<Rightarrow> Some a | None \<Rightarrow> y)"

definition check_openai_key :: "string \<Rightarrow> (nat \<times> nat) option" where
  "check_openai_key s =
     or_check (check_openai_long_prefix s ''sk-proj-'' 16)
       (or_check (check_openai_long_prefix s ''sk-svcacct-'' 16)
          (or_check (check_openai_long_prefix s ''sk-admin-'' 16)
             (check_openai_long_prefix s ''sk-'' 48)))"

definition check_cli_secret_flag :: "string \<Rightarrow> nat option" where
  "check_cli_secret_flag s =
     (let pos = bytes_until (\<lambda>b. b \<noteq> CHR '' '' \<and> b \<noteq> CHR 0x09) s
      in if starts_with ''--secret '' (drop pos s) then Some (pos + 9)
         else if starts_with ''--api-key '' (drop pos s) then Some (pos + 10)
         else None)"

definition check_jwt_prefix :: "string \<Rightarrow> (nat \<times> nat) option" where
  "check_jwt_prefix s =
     (if \<not> starts_with ''eyJ'' s then None
      else
        let finish = 3 + bytes_until is_line_blank (drop 3 s);
            dot_count = length (filter (\<lambda>b. b = CHR ''.'') (take (finish - 3) (drop 3 s)))
        in if 2 \<le> dot_count \<and> 50 \<le> finish \<and> finish \<le> 1200 then Some (0, finish) else None)"

definition secret_suffixes :: "string list" where
  "secret_suffixes = [''_key'', ''_token'', ''_secret'', ''_password'']"

definition check_lowercase_secret_suffix :: "string \<Rightarrow> (nat \<times> nat \<times> nat) option" where
  "check_lowercase_secret_suffix s =
     (let eq_pos = bytes_until (\<lambda>b. b = CHR ''='') s;
          key = take eq_pos s;
          rest = drop (eq_pos + 1) s
      in if eq_pos < length s \<and> 3 \<le> eq_pos \<and>
            list_all (\<lambda>b. is_lower b \<or> is_ascii_digit b \<or> b = CHR ''_'') key \<and>
            list_ex (\<lambda>x. length x \<le> eq_pos \<and> drop (eq_pos - length x) key = x) secret_suffixes
         then Some (eq_pos, eq_pos + 1,
                    eq_pos + 1 + (if rest \<noteq> [] \<and> is_quote (hd rest) then skip_quoted rest
                                  else bytes_until is_delimiter rest))
         else None)"


section \<open>The loop\<close>

text \<open>
  One round at a position where a pattern matches: how many bytes are copied, what is written after them and
  where the scan goes on. The checks are tried in the order of the source.
\<close>

definition redacted :: string where
  "redacted = ''[REDACTED]''"

definition key_match :: "(nat \<times> nat \<times> nat) option \<Rightarrow> (nat \<times> string \<times> nat) option" where
  "key_match m = map_option (\<lambda>(key_len, _, value_end). (key_len, ''='' @ redacted, value_end)) m"

definition span_match :: "(nat \<times> nat) option \<Rightarrow> (nat \<times> string \<times> nat) option" where
  "span_match m = map_option (\<lambda>(start, finish). (start, redacted, finish)) m"

definition bearer_match :: "string \<Rightarrow> (nat \<times> string \<times> nat) option" where
  "bearer_match s =
     map_option (\<lambda>bearer_end.
       let value_end = bearer_end +
             bytes_until (\<lambda>b. is_ascii_whitespace b \<or> b = CHR 0x27) (drop bearer_end s)
       in (0, ''Bearer '' @ redacted,
           value_end + bytes_until (\<lambda>b. \<not> is_ascii_whitespace b) (drop value_end s)))
     (check_bearer_pattern s)"

definition flag_match :: "string \<Rightarrow> (nat \<times> string \<times> nat) option" where
  "flag_match s =
     map_option (\<lambda>flag_end.
       (flag_end, redacted, flag_end + bytes_until is_ascii_whitespace (drop flag_end s)))
     (check_cli_secret_flag s)"

definition redact_here :: "string \<Rightarrow> (nat \<times> string \<times> nat) option" where
  "redact_here s =
     or_check (key_match (check_assignment_pattern s))
     (or_check (bearer_match s)
     (or_check (span_match (check_aws_key_pattern s))
     (or_check (span_match (check_github_token s))
     (or_check (span_match (check_openai_key s))
     (or_check (flag_match s)
     (or_check (span_match (check_jwt_prefix s))
     (or_check (key_match (check_snake_key_pattern s))
     (key_match (check_lowercase_secret_suffix s)))))))))"

definition char_len :: "char \<Rightarrow> nat" where
  "char_len b =
     (if (of_char b :: nat) < 0x80 then 1
      else if (of_char b :: nat) < 0xE0 then 2
      else if (of_char b :: nat) < 0xF0 then 3
      else 4)"

section \<open>What a match consumes\<close>

text \<open>
  A match splits the rest of the text into a prefix that is written out, the value that is dropped and what
  remains. The written prefix is empty, a key with its equals sign, or one of the literal introductions; the
  match ends at an ASCII byte, so that no character is cut.
\<close>

definition key_char :: "char \<Rightarrow> bool" where
  "key_char b = (is_lower b \<or> is_upper b \<or> is_ascii_digit b \<or> b = CHR ''_'')"

definition written_prefix :: "string \<Rightarrow> bool" where
  "written_prefix P \<longleftrightarrow>
     P = [] \<or> (\<exists>K. P = K @ ''='' \<and> list_all key_char K) \<or> P = ''Bearer '' \<or>
     (\<exists>ws flag. P = ws @ flag \<and> set ws \<subseteq> {CHR '' '', CHR 0x09} \<and> flag \<in> {''--secret '', ''--api-key ''})"

definition cut_at :: "string \<Rightarrow> string \<Rightarrow> bool" where
  "cut_at u R \<longleftrightarrow> u \<noteq> [] \<and> (R = [] \<or> is_ascii (hd R) \<or> is_ascii (last u))"

definition match_ok :: "string \<Rightarrow> nat \<times> string \<times> nat \<Rightarrow> bool" where
  "match_ok s = (\<lambda>(keep, repl, next). \<exists>P V R.
     s = P @ V @ R \<and> keep \<le> length P \<and> take keep s @ repl = P @ redacted \<and> next = length (P @ V) \<and>
     written_prefix P \<and> cut_at (P @ V) R)"

lemma dropWhile_stops: "dropWhile (\<lambda>b. \<not> stop b) s = [] \<or> stop (hd (dropWhile (\<lambda>b. \<not> stop b) s))"
  by (induction s) auto

lemma bytes_until_split:
  obtains V R where "s = V @ R" "length V = bytes_until stop s" "R = [] \<or> stop (hd R)"
    "\<forall>b \<in> set V. \<not> stop b"
proof
  show "s = takeWhile (\<lambda>b. \<not> stop b) s @ dropWhile (\<lambda>b. \<not> stop b) s" by simp
qed (use dropWhile_stops [of stop s] in \<open>auto simp: bytes_until_def dest: set_takeWhileD\<close>)

lemma value_split:
  assumes "starts_with p s"
  obtains V R where "s = p @ V @ R" "length V = bytes_until stop (drop (length p) s)"
    "R = [] \<or> stop (hd R)" "\<forall>b \<in> set V. \<not> stop b"
proof -
  obtain t where s: "s = p @ t" using assms by (auto simp: starts_with_iff)
  obtain V R where "t = V @ R" "length V = bytes_until stop t" "R = [] \<or> stop (hd R)"
    "\<forall>b \<in> set V. \<not> stop b"
    by (rule bytes_until_split)
  with s that show thesis by simp
qed

lemma match_okI:
  assumes "s = P @ V @ R" "keep \<le> length P" "take keep P @ repl = P @ redacted" "n = length P + length V"
    "written_prefix P" "cut_at (P @ V) R"
  shows "match_ok s (keep, repl, n)"
  unfolding match_ok_def using assms by force

lemma ascii_bytes [simp]:
  "is_delimiter b \<Longrightarrow> is_ascii b" "is_line_blank b \<Longrightarrow> is_ascii b" "is_quote b \<Longrightarrow> is_ascii b"
  "is_ascii_whitespace b \<Longrightarrow> is_ascii b"
  by (auto simp: is_delimiter_def is_line_blank_def is_quote_def is_ascii_whitespace_def is_ascii_def)

lemma key_char_ascii: "key_char b \<Longrightarrow> is_ascii b"
  by (auto simp: key_char_def is_lower_def is_upper_def in_range_def is_ascii_digit_def is_ascii_def Let_def)

lemma skip_quoted_split:
  obtains V R where "s = V @ R" "length V = skip_quoted s" "V = [] \<or> R = [] \<or> is_ascii (last V)"
proof (cases "s \<noteq> [] \<and> is_quote (hd s)")
  case True
  then obtain q t where s: "s = q # t" and q: "is_quote q" by (cases s) auto
  obtain V R where V: "t = V @ R" "length V = bytes_until (\<lambda>b. b = q) t" "R = [] \<or> hd R = q"
    by (rule bytes_until_split)
  show thesis
  proof (cases R)
    case Nil
    then show thesis using that [of s "[]"] s q V by (simp add: skip_quoted_def)
  next
    case (Cons r R')
    then show thesis using that [of "q # V @ [r]" R'] s q V by (simp add: skip_quoted_def)
  qed
next
  case False
  then show thesis using that [of "[]" s] by (cases s) (auto simp: skip_quoted_def)
qed


lemma written_prefix_key: "list_all key_char K \<Longrightarrow> written_prefix (K @ ''='')"
  by (auto simp: written_prefix_def)

lemma cut_at_delimited:
  "R = [] \<or> stop (hd R) \<Longrightarrow> (\<And>b. stop b \<Longrightarrow> is_ascii b) \<Longrightarrow> u \<noteq> [] \<Longrightarrow> cut_at u R"
  by (auto simp: cut_at_def)

text \<open>Keys with a value, spans that are dropped whole.\<close>

lemma key_match_ok:
  assumes "s = (K @ ''='') @ V @ R" "list_all key_char K" "cut_at ((K @ ''='') @ V) R"
    "value_end = length K + 1 + length V"
  shows "match_ok s (length K, ''='' @ redacted, value_end)"
  by (rule match_okI [OF assms(1)]) (use assms in \<open>auto simp: written_prefix_key\<close>)

lemma span_match_ok:
  assumes "starts_with p s" "p \<noteq> []" "is_ascii (last p)"
    "n = length p + bytes_until stop (drop (length p) s)"
    "(\<forall>b. stop b \<longrightarrow> is_ascii b) \<or> (\<forall>b. \<not> stop b \<longrightarrow> is_ascii b)"
  shows "match_ok s (0, redacted, n)"
proof -
  obtain V R where *: "s = p @ V @ R" "length V = bytes_until stop (drop (length p) s)"
    "R = [] \<or> stop (hd R)" "\<forall>b \<in> set V. \<not> stop b"
    by (rule value_split [OF assms(1)])
  have "cut_at (p @ V) R"
    using assms(2,3,5) *(3,4) by (cases V rule: rev_cases) (auto simp: cut_at_def)
  then show ?thesis
    by (intro match_okI [of s "[]" "p @ V" R]) (use * assms(4) in \<open>auto simp: written_prefix_def\<close>)
qed

lemma assignment_ok:
  assumes "check_assignment_pattern s = Some (k, v, e)"
  shows "match_ok s (k, ''='' @ redacted, e)"
proof -
  obtain p where p: "find (\<lambda>p. starts_with p s) assignment_patterns = Some p"
    using assms by (auto simp: check_assignment_pattern_def split: option.splits)
  then have "p \<in> set assignment_patterns" and sp: "starts_with p s"
    by (auto simp: find_Some_iff)
  then obtain K where K: "p = K @ ''=''" "list_all key_char K"
    by (auto simp: assignment_patterns_def key_char_def is_lower_def in_range_def)
  obtain V R where V: "s = p @ V @ R" "length V = bytes_until is_delimiter (drop (length p) s)"
    "R = [] \<or> is_delimiter (hd R)"
    by (rule value_split [OF sp])
  obtain W R' where W: "R = W @ R'" "length W = skip_quoted R" "W = [] \<or> R' = [] \<or> is_ascii (last W)"
    by (rule skip_quoted_split)
  have "cut_at (p @ V @ W) R'"
    using V(3) W K by (cases "W = []") (auto simp: cut_at_def last_append)
  moreover have "k = length K" "e = length K + 1 + length (V @ W)"
    using assms p K V(1,2) W(1,2) by (auto simp: check_assignment_pattern_def Let_def)
  ultimately show ?thesis
    using key_match_ok [of s K "V @ W" R' e] K V(1) W(1) by simp
qed

lemma eq_pos_split:
  assumes "eq_pos = bytes_until (\<lambda>b. b = CHR ''='') s" "eq_pos < length s"
  shows "s = take eq_pos s @ ''='' @ drop (eq_pos + 1) s" "CHR ''='' \<notin> set (take eq_pos s)"
proof -
  obtain V R where *: "s = V @ R" "length V = eq_pos" "R = [] \<or> hd R = CHR ''=''" "CHR ''='' \<notin> set V"
    using bytes_until_split [of s "\<lambda>b. b = CHR ''=''"] assms(1) by metis
  with assms(2) obtain R' where "R = CHR ''='' # R'" by (cases R) auto
  with * show "s = take eq_pos s @ ''='' @ drop (eq_pos + 1) s" "CHR ''='' \<notin> set (take eq_pos s)"
    by auto
qed

lemma snake_key_chars: "is_snake_key K \<Longrightarrow> list_all key_char K"
  by (auto simp: is_snake_key_def key_char_def list_all_iff)

lemma snake_ok:
  assumes "check_snake_key_pattern s = Some (k, v, e)"
  shows "match_ok s (k, ''='' @ redacted, e)"
proof -
  define eq_pos where "eq_pos = bytes_until (\<lambda>b. b = CHR ''='') s"
  let ?rest = "drop (eq_pos + 1) s"
  have k: "k = eq_pos" "eq_pos < length s" "is_snake_key (take eq_pos s)"
    "e = eq_pos + 1 + bytes_until snake_value_end ?rest"
    using assms by (auto simp: check_snake_key_pattern_def Let_def eq_pos_def split: if_splits)
  obtain V R where V: "?rest = V @ R" "length V = bytes_until snake_value_end ?rest"
    "R = [] \<or> snake_value_end (hd R)"
    by (rule bytes_until_split)
  have "cut_at ((take eq_pos s @ ''='') @ V) R"
    using V(3) by (auto simp: cut_at_def snake_value_end_def)
  moreover have "s = (take eq_pos s @ ''='') @ V @ R"
    using eq_pos_split(1) [OF eq_pos_def k(2)] V(1) by (metis append.assoc)
  moreover have "e = length (take eq_pos s) + 1 + length V" using k(2,4) V(2) by simp
  ultimately have "match_ok s (length (take eq_pos s), ''='' @ redacted, e)"
    using key_match_ok snake_key_chars [OF k(3)] by blast
  then show ?thesis using k(1,2) by simp
qed

lemma suffix_ok:
  assumes "check_lowercase_secret_suffix s = Some (k, v, e)"
  shows "match_ok s (k, ''='' @ redacted, e)"
proof -
  define eq_pos where "eq_pos = bytes_until (\<lambda>b. b = CHR ''='') s"
  define rest where "rest = drop (eq_pos + 1) s"
  have k: "k = eq_pos" "eq_pos < length s" "list_all key_char (take eq_pos s)"
    "e = eq_pos + 1 + (if rest \<noteq> [] \<and> is_quote (hd rest) then skip_quoted rest
                       else bytes_until is_delimiter rest)"
    using assms
    by (auto simp: check_lowercase_secret_suffix_def Let_def eq_pos_def rest_def key_char_def list_all_iff
        split: if_splits)
  have "\<exists>V R. rest = V @ R \<and> length V = e - (eq_pos + 1) \<and> cut_at ((take eq_pos s @ ''='') @ V) R"
  proof (cases "rest \<noteq> [] \<and> is_quote (hd rest)")
    case True
    obtain V R where V: "rest = V @ R" "length V = skip_quoted rest" "V = [] \<or> R = [] \<or> is_ascii (last V)"
      by (rule skip_quoted_split)
    then have "cut_at ((take eq_pos s @ ''='') @ V) R"
      by (cases "V = []") (auto simp: cut_at_def last_append is_ascii_def)
    with V show ?thesis using True k(4) by auto
  next
    case False
    obtain V R where V: "rest = V @ R" "length V = bytes_until is_delimiter rest"
      "R = [] \<or> is_delimiter (hd R)"
      by (rule bytes_until_split)
    then have "length V = e - (eq_pos + 1)" using False k(4) by auto
    moreover have "cut_at ((take eq_pos s @ ''='') @ V) R"
      by (rule cut_at_delimited [where stop = is_delimiter]) (use V(3) in simp_all)
    ultimately show ?thesis using V(1) by blast
  qed
  then obtain V R where V: "rest = V @ R" "length V = e - (eq_pos + 1)"
    "cut_at ((take eq_pos s @ ''='') @ V) R" by blast
  have s: "s = (take eq_pos s @ ''='') @ V @ R"
    using eq_pos_split(1) [OF eq_pos_def k(2)] V(1) rest_def by (metis append.assoc)
  have "e = length (take eq_pos s) + 1 + length V" using k(2,4) V(2) by simp
  then have "match_ok s (length (take eq_pos s), ''='' @ redacted, e)"
    by (rule key_match_ok [OF s k(3) V(3)])
  then show ?thesis using k(1,2) by simp
qed


lemma or_check_Some_iff: "or_check x y = Some a \<longleftrightarrow> x = Some a \<or> (x = None \<and> y = Some a)"
  by (auto simp: or_check_def split: option.splits)

lemma or_check_None_iff [simp]: "or_check x y = None \<longleftrightarrow> x = None \<and> y = None"
  by (auto simp: or_check_def split: option.splits)

lemma ascii_literals [simp]:
  "is_ascii CHR '' ''" "is_ascii CHR 0x27" "is_ascii CHR '',''" "is_ascii CHR ''A''" "is_ascii CHR ''J''"
  "is_ascii CHR ''-''" "is_ascii CHR ''_''" "is_ascii CHR ''=''"
  by (simp_all add: is_ascii_def)

lemma bearer_ok: "bearer_match s = Some m \<Longrightarrow> match_ok s m"
proof -
  let ?stop = "\<lambda>b. is_ascii_whitespace b \<or> b = CHR 0x27"
  assume m: "bearer_match s = Some m"
  then have sp: "starts_with ''Bearer '' s"
    by (auto simp: bearer_match_def check_bearer_pattern_def split: if_splits)
  obtain V R where V: "s = ''Bearer '' @ V @ R" "length V = bytes_until ?stop (drop (length ''Bearer '') s)"
    "R = [] \<or> ?stop (hd R)"
    by (rule value_split [OF sp])
  obtain W R' where W: "R = W @ R'" "length W = bytes_until (\<lambda>b. \<not> is_ascii_whitespace b) R"
    "\<forall>b \<in> set W. is_ascii_whitespace b"
    using bytes_until_split [of R "\<lambda>b. \<not> is_ascii_whitespace b"] by metis
  have "cut_at (''Bearer '' @ V @ W) R'"
    using V(3) W by (cases W rule: rev_cases) (auto simp: cut_at_def)
  moreover have "m = (0, ''Bearer '' @ redacted, length ''Bearer '' + length (V @ W))"
  proof -
    have "length V = bytes_until ?stop (drop 7 s)" using V(2) by (simp add: eval_nat_numeral)
    moreover have "drop (7 + length V) s = R" using V(1) by (simp add: eval_nat_numeral)
    ultimately show ?thesis
      using m sp W(2) by (auto simp: bearer_match_def check_bearer_pattern_def Let_def)
  qed
  ultimately show ?thesis
    using match_okI [of s "''Bearer ''" "V @ W" R'] V(1) W(1)
    by (auto simp: written_prefix_def)
qed

lemma flag_ok: "flag_match s = Some m \<Longrightarrow> match_ok s m"
proof -
  assume m: "flag_match s = Some m"
  obtain ws t where ws: "s = ws @ t" "length ws = bytes_until (\<lambda>b. b \<noteq> CHR '' '' \<and> b \<noteq> CHR 0x09) s"
    and blank: "\<forall>b \<in> set ws. \<not> (b \<noteq> CHR '' '' \<and> b \<noteq> CHR 0x09)"
    by (rule bytes_until_split)
  from blank have ws3: "set ws \<subseteq> {CHR '' '', CHR 0x09}" by auto
  have dr: "drop (bytes_until (\<lambda>b. b \<noteq> CHR '' '' \<and> b \<noteq> CHR 0x09) s) s = t"
    using ws(1,2) by (metis append_eq_conv_conj)
  obtain flag where f: "starts_with flag t" "flag \<in> {''--secret '', ''--api-key ''}"
    "check_cli_secret_flag s = Some (length (ws @ flag))"
    using m ws(2) unfolding flag_match_def check_cli_secret_flag_def Let_def dr
    by (auto split: if_splits)
  have "starts_with (ws @ flag) s" using f(1) ws(1) by (auto simp: starts_with_iff)
  then obtain V R where V: "s = (ws @ flag) @ V @ R"
    "length V = bytes_until is_ascii_whitespace (drop (length (ws @ flag)) s)"
    "R = [] \<or> is_ascii_whitespace (hd R)"
    by (rule value_split)
  have "cut_at ((ws @ flag) @ V) R"
    by (rule cut_at_delimited [where stop = is_ascii_whitespace]) (use V(3) f(2) in auto)
  moreover have "written_prefix (ws @ flag)" unfolding written_prefix_def using ws3 f(2) by blast
  moreover have "m = (length (ws @ flag), redacted, length (ws @ flag) + length V)"
    using m f(3) V(2) by (simp add: flag_match_def)
  ultimately show ?thesis using match_okI [of s "ws @ flag" V R] V(1) by simp
qed

lemma span_checks_ok:
  "span_match (check_aws_key_pattern s) = Some m \<Longrightarrow> match_ok s m"
  "span_match (check_github_token s) = Some m \<Longrightarrow> match_ok s m"
  "span_match (check_openai_key s) = Some m \<Longrightarrow> match_ok s m"
  "span_match (check_jwt_prefix s) = Some m \<Longrightarrow> match_ok s m"
proof -
  show "match_ok s m" if "span_match (check_aws_key_pattern s) = Some m"
    using that span_match_ok [of "''AKIA''" s _ "\<lambda>b. is_line_blank b \<or> is_quote b \<or> b = CHR '',''"]
    by (auto simp: span_match_def check_aws_key_pattern_def Let_def eval_nat_numeral split: if_splits)
  show "match_ok s m" if "span_match (check_jwt_prefix s) = Some m"
    using that span_match_ok [of "''eyJ''" s _ is_line_blank]
    by (auto simp: span_match_def check_jwt_prefix_def Let_def numeral_3_eq_3 split: if_splits)
  have long: "match_ok s m"
    if "span_match (check_openai_long_prefix s p k) = Some m" "p \<noteq> []" "last p = CHR ''-''" for p k
    using that span_match_ok [of p s _ is_delimiter]
    by (auto simp: span_match_def check_openai_long_prefix_def Let_def split: if_splits)
  show "match_ok s m" if "span_match (check_openai_key s) = Some m"
    using that long [of "''sk-proj-''" 16] long [of "''sk-svcacct-''" 16] long [of "''sk-admin-''" 16]
      long [of "''sk-''" 48]
    by (auto simp: check_openai_key_def span_match_def or_check_Some_iff)
  show "match_ok s m" if gh: "span_match (check_github_token s) = Some m"
  proof -
    obtain p where p: "find (\<lambda>p. starts_with p s) github_prefixes = Some p"
      using gh by (auto simp: span_match_def check_github_token_def split: option.splits)
    then have "p \<in> set github_prefixes" "starts_with p s"
      by (auto simp: find_Some_iff)
    then have "p \<noteq> []" "is_ascii (last p)" "starts_with p s"
      by (auto simp: github_prefixes_def)
    moreover have "\<And>b. is_ascii_alnum b \<Longrightarrow> is_ascii b"
      by (auto simp: is_ascii_alnum_def key_char_def intro: key_char_ascii)
    ultimately show ?thesis
      using gh p span_match_ok [of p s _ "\<lambda>b. is_delimiter b \<or> \<not> is_ascii_alnum b"]
      by (auto simp: span_match_def check_github_token_def Let_def split: if_splits)
  qed
qed

lemma key_match_Some:
  "key_match c = Some m \<longleftrightarrow> (\<exists>k v e. c = Some (k, v, e) \<and> m = (k, ''='' @ redacted, e))"
  by (auto simp: key_match_def)

lemma redact_here_ok: "redact_here s = Some m \<Longrightarrow> match_ok s m"
  unfolding redact_here_def or_check_Some_iff
  by (elim disjE conjE)
     (auto simp only: key_match_Some intro: assignment_ok snake_ok suffix_ok
       dest: bearer_ok flag_ok span_checks_ok)

lemma match_ok_advances:
  "match_ok s (keep, repl, next) \<Longrightarrow> 0 < next \<and> next \<le> length s \<and> keep \<le> next"
  by (auto simp: match_ok_def cut_at_def)


function sanitize_command :: "string \<Rightarrow> string option" where
  "sanitize_command s =
     (if s = [] then Some []
      else case redact_here s of
             Some (keep, repl, next) \<Rightarrow>
               (case str_slice s keep of
                  None \<Rightarrow> None
                | Some kept \<Rightarrow> map_option (\<lambda>rest. kept @ repl @ rest) (sanitize_command (drop next s)))
           | None \<Rightarrow>
               (case str_slice s (char_len (hd s)) of
                  None \<Rightarrow> None
                | Some c \<Rightarrow> map_option (\<lambda>rest. c @ rest) (sanitize_command (drop (char_len (hd s)) s))))"
  by pat_completeness auto
termination
proof (relation "measure length")
  fix s :: string and x keep y repl n
  assume "s \<noteq> []" "redact_here s = Some x" "(keep, y) = x" "(repl, n) = y"
  then show "(drop n s, s) \<in> measure length"
    using match_ok_advances [OF redact_here_ok, of s keep repl n] by auto
qed (auto simp: char_len_def)

declare sanitize_command.simps [simp del]

lemma sanitize_examples:
  "sanitize_command ''api_key=sk-12345&model=gpt-4'' = Some ''api_key=[REDACTED]&model=gpt-4''"
  "sanitize_command ''ls -la /tmp'' = Some ''ls -la /tmp''"
  "sanitize_command ''A Bearer abc def'' = Some ''A Bearer [REDACTED]def''"
  by code_simp+


section \<open>No character is cut\<close>

lemmas utf8_class_defs = utf8_pair_def utf8_triple_def utf8_quad_def in_range_def is_continuation_def
  is_ascii_def

declare utf8.simps(2) [simp del]

lemma utf8_class_facts:
  "utf8_pair a b \<Longrightarrow> 192 \<le> (of_char a :: nat) \<and> (of_char a :: nat) < 224 \<and> is_continuation b"
  "utf8_triple a b c \<Longrightarrow>
     224 \<le> (of_char a :: nat) \<and> (of_char a :: nat) < 240 \<and> is_continuation b \<and> is_continuation c"
  "utf8_quad a b c d \<Longrightarrow>
     240 \<le> (of_char a :: nat) \<and> is_continuation b \<and> is_continuation c \<and> is_continuation d"
  by (auto simp: utf8_class_defs)

lemma utf8_ConsE:
  assumes "utf8 (a # r)"
  obtains (one) "is_ascii a" "utf8 r"
    | (two) b r1 where "\<not> is_ascii a" "r = b # r1" "utf8_pair a b" "utf8 r1"
    | (three) b c r2 where "\<not> is_ascii a" "r = b # c # r2" "utf8_triple a b c" "utf8 r2"
    | (four) b c d r3 where "\<not> is_ascii a" "r = b # c # d # r3" "utf8_quad a b c d" "utf8 r3"
  using assms unfolding utf8.simps(2) [of a r] by (auto split: if_splits list.splits)

lemma utf8_char_intros:
  "is_ascii a \<Longrightarrow> utf8 r \<Longrightarrow> utf8 (a # r)"
  "\<not> is_ascii a \<Longrightarrow> utf8_pair a b \<Longrightarrow> utf8 r \<Longrightarrow> utf8 (a # b # r)"
  "\<not> is_ascii a \<Longrightarrow> utf8_triple a b c \<Longrightarrow> utf8 r \<Longrightarrow> utf8 (a # b # c # r)"
  "\<not> is_ascii a \<Longrightarrow> utf8_quad a b c d \<Longrightarrow> utf8 r \<Longrightarrow> utf8 (a # b # c # d # r)"
  by (simp_all add: utf8.simps(2))

lemma utf8_first_char:
  assumes "utf8 s" "s \<noteq> []"
  obtains c t where "s = c @ t" "length c = char_len (hd s)" "c \<noteq> []" "utf8 c" "utf8 t"
    "\<not> is_continuation (hd c)" "\<forall>b \<in> set (tl c). is_continuation b" "tl c \<noteq> [] \<longrightarrow> \<not> is_ascii (hd c)"
proof -
  obtain a r where s: "s = a # r" using assms(2) by (cases s) auto
  from assms(1) [unfolded s] show thesis
  proof (cases rule: utf8_ConsE)
    case one
    then show thesis using that [of "[a]" r] s
      by (simp add: char_len_def is_ascii_def is_continuation_def utf8_char_intros)
  next
    case (two b r1)
    then show thesis using that [of "[a, b]" r1] s utf8_class_facts(1) [OF two(3)]
      by (simp add: char_len_def is_continuation_def [of a] utf8_char_intros)
  next
    case (three b c r2)
    then show thesis using that [of "[a, b, c]" r2] s utf8_class_facts(2) [OF three(3)]
      by (simp add: char_len_def is_continuation_def [of a] utf8_char_intros)
  next
    case (four b c d r3)
    then show thesis using that [of "[a, b, c, d]" r3] s utf8_class_facts(3) [OF four(3)]
      by (simp add: char_len_def is_continuation_def [of a] utf8_char_intros)
  qed
qed

lemma utf8_append: "utf8 a \<Longrightarrow> utf8 b \<Longrightarrow> utf8 (a @ b)"
proof (induction "length a" arbitrary: a rule: less_induct)
  case less
  show ?case
  proof (cases a)
    case (Cons x r)
    from less.prems(1) [unfolded Cons] show ?thesis
      by (cases rule: utf8_ConsE) (use less.hyps less.prems(2) Cons in \<open>simp_all add: utf8_char_intros\<close>)
  qed (use less.prems in simp)
qed

lemma utf8_hd: "utf8 s \<Longrightarrow> s \<noteq> [] \<Longrightarrow> \<not> is_continuation (hd s)"
  by (erule utf8_first_char) auto

lemma ascii_not_continuation [simp]: "is_ascii b \<Longrightarrow> \<not> is_continuation b"
  by (simp add: is_ascii_def is_continuation_def)

lemma utf8_split:
  assumes "utf8 (u @ R)" "R = [] \<or> \<not> is_continuation (hd R)"
  shows "utf8 u \<and> utf8 R"
  using assms
proof (induction "length u" arbitrary: u rule: less_induct)
  case less
  show ?case
  proof (cases "u = []")
    case False
    obtain c t where c: "u @ R = c @ t" "c \<noteq> []" "utf8 c" "utf8 t" "\<forall>b \<in> set (tl c). is_continuation b"
      using utf8_first_char [OF less.prems(1)] False by (metis append_is_Nil_conv)
    consider u' where "u = c @ u'" "t = u' @ R" | v where "c = u @ v" "R = v @ t" "v \<noteq> []"
      using c(1) by (metis append_eq_append_conv2 append_self_conv)
    then show ?thesis
    proof cases
      case 1
      then have "utf8 u' \<and> utf8 R" using less.hyps [of u'] less.prems(2) c(2,4) by simp
      then show ?thesis using 1 c(3) by (simp add: utf8_append)
    next
      case 2
      then have "is_continuation (hd R)"
        using c(5) False by (cases v) (auto simp: tl_append split: list.splits)
      then show ?thesis using less.prems(2) 2 by auto
    qed
  qed (use less.prems in simp)
qed

lemma utf8_after_ascii:
  assumes "utf8 (u @ R)" "u \<noteq> []" "is_ascii (last u)" "R \<noteq> []"
  shows "\<not> is_continuation (hd R)"
  using assms
proof (induction "length u" arbitrary: u rule: less_induct)
  case less
  obtain c t where c: "u @ R = c @ t" "c \<noteq> []" "utf8 t" "\<forall>b \<in> set (tl c). is_continuation b"
      "tl c \<noteq> [] \<longrightarrow> \<not> is_ascii (hd c)"
    using utf8_first_char [OF less.prems(1)] less.prems(2) by (metis append_is_Nil_conv)
  consider "u = c" "R = t" | u' where "u = c @ u'" "t = u' @ R" "u' \<noteq> []" | v where "c = u @ v" "v \<noteq> []"
    using c(1) by (metis append_eq_append_conv2 append_self_conv)
  then show ?case
  proof cases
    case 1
    then show ?thesis using utf8_hd c(3) less.prems(4) by simp
  next
    case 2
    then show ?thesis using less.hyps [of u'] less.prems c(2,3) by simp
  next
    case 3
    then have "\<not> is_ascii (last u)"
      using c(4,5) less.prems(2) by (cases u) (auto dest: ascii_not_continuation)
    then show ?thesis using less.prems(3) by simp
  qed
qed

lemma utf8_cut: "utf8 (u @ R) \<Longrightarrow> cut_at u R \<Longrightarrow> utf8 u \<and> utf8 R"
  using utf8_split utf8_after_ascii by (metis ascii_not_continuation cut_at_def)


lemma ascii_utf8: "list_all is_ascii u \<Longrightarrow> utf8 (u @ s) = utf8 s"
  by (induction u) (auto simp: utf8_char_intros elim: utf8_ConsE dest: utf8_class_facts
      simp: is_ascii_def)

lemma written_prefix_ascii: "written_prefix P \<Longrightarrow> list_all is_ascii P"
  by (auto simp: written_prefix_def list_all_iff is_ascii_def intro: key_char_ascii [unfolded is_ascii_def]
      dest!: subsetD)

lemma redacted_utf8 [simp]: "utf8 redacted"
  using ascii_utf8 [of redacted "[]"] by (simp add: redacted_def is_ascii_def)

lemma match_slices:
  assumes "utf8 s" "match_ok s (keep, repl, n)"
  shows "str_slice s keep = Some (take keep s)" "utf8 (take keep s @ repl)" "utf8 (drop n s)"
proof -
  obtain P V R where m: "s = P @ V @ R" "keep \<le> length P" "take keep s @ repl = P @ redacted"
    "n = length (P @ V)" "written_prefix P" "cut_at (P @ V) R"
    using assms(2) by (auto simp: match_ok_def)
  have P: "list_all is_ascii P" by (rule written_prefix_ascii [OF m(5)])
  show "utf8 (take keep s @ repl)" using m(3) ascii_utf8 [OF P, of redacted] by simp
  show "utf8 (drop n s)" using utf8_cut [of "P @ V" R] assms(1) m(1,4,6) by simp
  have "utf8 (V @ R)" using assms(1) ascii_utf8 [OF P] m(1) by simp
  then have "V @ R = [] \<or> \<not> is_continuation (hd (V @ R))" using utf8_hd by blast
  then have "char_boundary s keep"
    using m(1,2) P by (cases "keep < length P")
      (auto simp: char_boundary_def nth_append list_all_length hd_conv_nth)
  moreover have "char_boundary s 0"
    using utf8_hd [OF assms(1)] by (auto simp: char_boundary_def hd_conv_nth)
  ultimately show "str_slice s keep = Some (take keep s)" by (simp add: str_slice_def)
qed

lemma copy_slices:
  assumes "utf8 s" "s \<noteq> []"
  obtains c t where "s = c @ t" "c \<noteq> []" "utf8 c" "utf8 t" "char_len (hd s) = length c"
    "str_slice s (char_len (hd s)) = Some c" "\<forall>b \<in> set (tl c). is_continuation b"
proof -
  obtain c t where c: "s = c @ t" "length c = char_len (hd s)" "c \<noteq> []" "utf8 c" "utf8 t"
    "\<forall>b \<in> set (tl c). is_continuation b"
    by (rule utf8_first_char [OF assms])
  have "char_boundary s 0" using utf8_hd [OF assms] assms(2) by (simp add: char_boundary_def hd_conv_nth)
  moreover have "char_boundary s (length c)"
    using utf8_hd [OF c(5)] c(1) by (auto simp: char_boundary_def nth_append hd_conv_nth)
  ultimately have "str_slice s (char_len (hd s)) = Some c"
    unfolding c(2) [symmetric] by (simp add: str_slice_def c(1))
  with c that show thesis by metis
qed

text \<open>
  The text as the scan leaves it: each match writes its prefix and the marker, each other character itself.
\<close>

lemma sanitize_match:
  assumes "utf8 s" "redact_here s = Some (keep, repl, n)"
  shows "sanitize_command s = map_option (\<lambda>rest. take keep s @ repl @ rest) (sanitize_command (drop n s))"
proof -
  have "match_ok s (keep, repl, n)" by (rule redact_here_ok [OF assms(2)])
  moreover from this have "s \<noteq> []" by (auto simp: match_ok_def cut_at_def)
  ultimately show ?thesis
    using match_slices(1) [OF assms(1)] assms(2) by (subst sanitize_command.simps) simp
qed

lemma sanitize_copy:
  assumes "utf8 s" "s \<noteq> []" "redact_here s = None"
  obtains c t where "s = c @ t" "c \<noteq> []" "utf8 c" "utf8 t" "\<forall>b \<in> set (tl c). is_continuation b"
    "sanitize_command s = map_option (\<lambda>rest. c @ rest) (sanitize_command t)"
proof -
  obtain c t where c: "s = c @ t" "c \<noteq> []" "utf8 c" "utf8 t" "char_len (hd s) = length c"
    "str_slice s (char_len (hd s)) = Some c" "\<forall>b \<in> set (tl c). is_continuation b"
    by (rule copy_slices [OF assms(1,2)])
  then have "sanitize_command s = map_option (\<lambda>rest. c @ rest) (sanitize_command t)"
    using assms(2,3) by (subst sanitize_command.simps) simp
  with c that show thesis by blast
qed

lemma sanitize_induct [consumes 1, case_names empty matched copied]:
  assumes "utf8 s" and empty: "Q [] []"
    and matched: "\<And>P V R out. redact_here (P @ V @ R) \<noteq> None \<Longrightarrow> written_prefix P \<Longrightarrow> utf8 R \<Longrightarrow>
      sanitize_command R = Some out \<Longrightarrow> Q R out \<Longrightarrow> Q (P @ V @ R) (P @ redacted @ out)"
    and copied: "\<And>c t out. redact_here (c @ t) = None \<Longrightarrow> c \<noteq> [] \<Longrightarrow> utf8 c \<Longrightarrow>
      (\<forall>b \<in> set (tl c). is_continuation b) \<Longrightarrow> utf8 t \<Longrightarrow> sanitize_command t = Some out \<Longrightarrow>
      sanitize_command (c @ t) = Some (c @ out) \<Longrightarrow> Q t out \<Longrightarrow> Q (c @ t) (c @ out)"
  shows "\<exists>out. sanitize_command s = Some out \<and> Q s out"
  using assms(1)
proof (induction "length s" arbitrary: s rule: less_induct)
  case less
  consider "s = []" | "s \<noteq> []" "redact_here s = None" | keep repl n where "redact_here s = Some (keep, repl, n)"
    by (metis option.exhaust prod_cases3)
  then show ?case
  proof cases
    case 1
    then show ?thesis using empty by (simp add: sanitize_command.simps)
  next
    case 2
    obtain c t where c: "s = c @ t" "c \<noteq> []" "utf8 c" "utf8 t" "\<forall>b \<in> set (tl c). is_continuation b"
      "sanitize_command s = map_option (\<lambda>rest. c @ rest) (sanitize_command t)"
      by (rule sanitize_copy [OF less.prems 2])
    then obtain out where "sanitize_command t = Some out" "Q t out" using less.hyps [of t] by auto
    then show ?thesis using copied [of c t out] c 2(2) by auto
  next
    case 3
    note ok = redact_here_ok [OF 3]
    obtain P V R where m: "s = P @ V @ R" "take keep s @ repl = P @ redacted" "n = length (P @ V)"
      "written_prefix P" "cut_at (P @ V) R"
      using ok by (auto simp: match_ok_def)
    have R: "drop n s = R" "utf8 R" "length R < length s"
      using m match_slices(3) [OF less.prems ok] by (auto simp: cut_at_def)
    then obtain out where out: "sanitize_command R = Some out" "Q R out" using less.hyps [of R] by auto
    moreover have "sanitize_command s = Some (P @ redacted @ out)"
      using sanitize_match [OF less.prems 3] R(1) out(1) m(2) by (metis append.assoc option.simps(9))
    ultimately show ?thesis using matched [of P V R out] m(1,4) R(2) 3 by auto
  qed
qed


section \<open>What the output shows\<close>

text \<open>
  The introductions of a secret that are found wherever they stand: the three assignments, a bearer token,
  an upper case key and a lower case key with one of the telling endings.
\<close>

definition is_secret_name :: "string \<Rightarrow> bool" where
  "is_secret_name key =
     (3 \<le> length key \<and> list_all (\<lambda>b. is_lower b \<or> is_ascii_digit b \<or> b = CHR ''_'') key \<and>
      list_ex (\<lambda>x. length x \<le> length key \<and> drop (length key - length x) key = x) secret_suffixes)"

definition introduces_secret :: "string \<Rightarrow> bool" where
  "introduces_secret q \<longleftrightarrow>
     q \<in> {''token='', ''password='', ''api_key='', ''Bearer ''} \<or>
     (\<exists>K. q = K @ ''='' \<and> (is_snake_key K \<or> is_secret_name K))"

lemma key_char_not_punctuation:
  "\<not> key_char CHR ''=''" "\<not> key_char CHR '' ''" "\<not> key_char CHR ''[''" "\<not> key_char CHR '']''"
  by (simp_all add: key_char_def is_lower_def is_upper_def in_range_def is_ascii_digit_def)

lemma secret_name_chars: "is_secret_name K \<Longrightarrow> list_all key_char K"
  by (auto simp: is_secret_name_def key_char_def list_all_iff)

lemma key_until_eq: "list_all key_char K \<Longrightarrow> bytes_until (\<lambda>b. b = CHR ''='') (K @ CHR ''='' # t) = length K"
  using key_char_not_punctuation(1) by (auto simp: bytes_until_def list_all_iff takeWhile_append)

lemma introduced_is_found:
  assumes "introduces_secret q"
  shows "redact_here (q @ t) \<noteq> None"
proof -
  consider "q \<in> {''token='', ''password='', ''api_key='', ''Bearer ''}"
    | K where "q = K @ ''=''" "is_snake_key K" | K where "q = K @ ''=''" "is_secret_name K"
    using assms by (auto simp: introduces_secret_def)
  then show ?thesis
  proof cases
    case 1
    then have "key_match (check_assignment_pattern (q @ t)) \<noteq> None \<or> bearer_match (q @ t) \<noteq> None"
      by (auto simp: key_match_def check_assignment_pattern_def assignment_patterns_def bearer_match_def
          check_bearer_pattern_def Let_def)
    then show ?thesis by (auto simp: redact_here_def)
  next
    case 2
    then have "check_snake_key_pattern (q @ t) \<noteq> None"
      by (simp add: check_snake_key_pattern_def key_until_eq snake_key_chars Let_def)
    then show ?thesis by (auto simp: redact_here_def key_match_def)
  next
    case 3
    then have "check_lowercase_secret_suffix (q @ t) \<noteq> None"
      using key_until_eq [OF secret_name_chars [OF 3(2)], of t]
      by (simp add: check_lowercase_secret_suffix_def is_secret_name_def Let_def)
    then show ?thesis by (auto simp: redact_here_def key_match_def)
  qed
qed

lemma introduction_shape:
  assumes "introduces_secret q"
  shows "q \<noteq> []" "last q \<in> {CHR ''='', CHR '' ''}" "CHR ''['' \<notin> set q" "CHR '']'' \<notin> set q" "is_ascii (hd q)"
    "last q = CHR '' '' \<Longrightarrow> CHR ''B'' \<in> set q"
proof -
  have key: "CHR ''['' \<notin> set K" "CHR '']'' \<notin> set K" "K \<noteq> [] \<Longrightarrow> is_ascii (hd K)" if "list_all key_char K" for K
    using that key_char_not_punctuation key_char_ascii by (cases K; auto simp: list_all_iff)+
  have K: "list_all key_char K" if "is_snake_key K \<or> is_secret_name K" for K
    using that snake_key_chars secret_name_chars by blast
  show "q \<noteq> []" "last q \<in> {CHR ''='', CHR '' ''}" "CHR ''['' \<notin> set q" "CHR '']'' \<notin> set q"
    "last q = CHR '' '' \<Longrightarrow> CHR ''B'' \<in> set q"
    using assms key(1,2) [OF K] by (auto simp: introduces_secret_def)
  show "is_ascii (hd q)"
    using assms key(3) [OF K] by (auto simp: introduces_secret_def is_ascii_def hd_append split: if_splits)
qed

lemma introduction_ends_prefix:
  assumes "written_prefix (a @ q @ b)" "introduces_secret q"
  shows "b = []"
proof (rule ccontr)
  assume b: "b \<noteq> []"
  let ?w = "a @ q @ butlast b"
  have last: "last q \<in> set ?w" "set q \<subseteq> set ?w" "butlast (a @ q @ b) = ?w"
    using introduction_shape(1) [OF assms(2)] b by (auto simp: butlast_append)
  from assms(1) consider "a @ q @ b = []" | K where "a @ q @ b = K @ ''=''" "list_all key_char K"
    | "a @ q @ b = ''Bearer ''"
    | ws flag where "a @ q @ b = ws @ flag" "set ws \<subseteq> {CHR '' '', CHR 0x09}"
        "flag \<in> {''--secret '', ''--api-key ''}"
    unfolding written_prefix_def by blast
  then show False
  proof cases
    case 2
    then have "last q \<in> set K" using last by (metis butlast_snoc)
    then show False using 2(2) introduction_shape(2) [OF assms(2)] key_char_not_punctuation
      by (auto simp: list_all_iff)
  next
    case 3
    then have "last q \<in> set (butlast ''Bearer '')" using last by metis
    then show False using introduction_shape(2) [OF assms(2)] by auto
  next
    case 4
    have "set q \<subseteq> set (ws @ flag)" using 4(1) [symmetric] by auto
    then have "CHR ''B'' \<notin> set q" "CHR ''='' \<notin> set q" using 4(2,3) by auto
    then show False
      using introduction_shape(1,2,6) [OF assms(2)] last_in_set [of q] by (metis empty_iff insert_iff)
  qed (use b in simp)
qed

lemma append_overlapE:
  assumes "a @ b = c @ d"
  obtains (within) y where "a = c @ y" "d = y @ b" | (beyond) z where "z \<noteq> []" "c = a @ z" "b = z @ d"
  using assms by (metis append_eq_append_conv2 append_self_conv)

lemma no_bracket_in_marker:
  assumes "redacted @ out = z @ post" "z \<noteq> []"
  shows "CHR ''['' \<in> set z"
  using assms by (cases z) (auto simp: redacted_def)

lemma marker_overlap:
  assumes "introduces_secret q" "redacted = u @ v" "v \<noteq> []" "v @ out = q @ post"
  shows False
proof -
  note shape = introduction_shape [OF assms(1)]
  have marker: "CHR ''='' \<notin> set redacted" "CHR '' '' \<notin> set redacted" "last redacted = CHR '']''"
    by (simp_all add: redacted_def)
  from assms(4) show False
  proof (cases rule: append_overlapE)
    case (within y)
    then have "last q \<in> set redacted" unfolding assms(2) within(1) using last_in_set [OF shape(1)] by simp
    then show False using marker(1,2) shape(2) by auto
  next
    case (beyond z)
    have "last v = CHR '']''" using marker(3) assms(2,3) by (metis last_appendR)
    then show False using beyond(2) assms(3) shape(4) by (metis Un_iff last_in_set set_append)
  qed
qed

lemma marker_found:
  assumes "introduces_secret q" "written_prefix P" "P @ redacted @ out = pre @ q @ post"
  shows "(\<exists>pre'. pre = (P @ redacted) @ pre' \<and> out = pre' @ q @ post) \<or> (\<exists>t. post = redacted @ t)"
proof -
  from assms(3) show ?thesis
  proof (cases rule: append_overlapE)
    case (within y)
    from within(2) [symmetric] show ?thesis
    proof (cases rule: append_overlapE)
      case within': (within b)
      then show ?thesis using introduction_ends_prefix [of pre q b] assms(1,2) within(1) by auto
    next
      case (beyond z)
      then show ?thesis
        using no_bracket_in_marker introduction_shape(3) [OF assms(1)] by fastforce
    qed
  next
    case (beyond u)
    from beyond(3) show ?thesis
    proof (cases rule: append_overlapE)
      case (within v)
      then show ?thesis
        using marker_overlap [OF assms(1), of u v out post] beyond(2) by (cases "v = []") auto
    next
      case beyond': (beyond w)
      then show ?thesis using beyond(2) by auto
    qed
  qed
qed

lemma copied_prefix:
  assumes "utf8 s" "sanitize_command s = Some (q @ post)" "CHR ''['' \<notin> set q"
  shows "\<exists>t. s = q @ t"
proof -
  have "\<exists>out. sanitize_command s = Some out \<and>
      (\<forall>q post. out = q @ post \<longrightarrow> CHR ''['' \<notin> set q \<longrightarrow> (\<exists>t. s = q @ t))"
    using assms(1)
  proof (induction rule: sanitize_induct)
    case (matched P V R out)
    show ?case
    proof (intro allI impI)
      fix q post
      assume eq: "P @ redacted @ out = q @ post" and br: "CHR ''['' \<notin> set q"
      from eq show "\<exists>t. P @ V @ R = q @ t"
      proof (cases rule: append_overlapE)
        case (beyond z)
        then show ?thesis using no_bracket_in_marker br by fastforce
      qed simp
    qed
  next
    case (copied c t out)
    show ?case
    proof (intro allI impI)
      fix q post
      assume eq: "c @ out = q @ post" and br: "CHR ''['' \<notin> set q"
      from eq show "\<exists>u. c @ t = q @ u"
      proof (cases rule: append_overlapE)
        case (beyond z)
        then show ?thesis using copied(8) br by auto
      qed simp
    qed
  qed simp
  with assms(2,3) show ?thesis by auto
qed

text \<open>
  C24: Every text is sanitized without a panic: the slices of the code never cut a character, and the result is
  again well-formed text. A text in which no check matches anywhere comes back unchanged.
\<close>

theorem sanitize_never_panics:
  "utf8 s \<Longrightarrow>
     (\<exists>out. sanitize_command s = Some out \<and> utf8 out) \<and>
     ((\<forall>u v. s = u @ v \<longrightarrow> redact_here v = None) \<longrightarrow> sanitize_command s = Some s)"
proof -
  assume "utf8 s"
  then have "\<exists>out. sanitize_command s = Some out \<and>
      (utf8 out \<and> ((\<forall>u v. s = u @ v \<longrightarrow> redact_here v = None) \<longrightarrow> out = s))"
  proof (induction rule: sanitize_induct)
    case (matched P V R out)
    then show ?case
      using ascii_utf8 [OF written_prefix_ascii [OF matched(2)], of "redacted @ out"]
      by (auto simp: utf8_append)
  next
    case (copied c t out)
    then show ?case by (simp add: utf8_append)
  qed simp
  then show ?thesis by auto
qed

theorem sanitize_never_panics_witness:
  "sanitize_command (''x'' @ [CHR 0xC3, CHR 0xA9] @ '' Bearer '' @ [CHR 0xC3, CHR 0xA9] @ '' y'') =
     Some (''x'' @ [CHR 0xC3, CHR 0xA9] @ '' Bearer [REDACTED]y'') \<and>
   sanitize_command ''ls -l'' = Some ''ls -l''"
proof -
  have "utf8 (''x'' @ [CHR 0xC3, CHR 0xA9] @ '' Bearer '' @ [CHR 0xC3, CHR 0xA9] @ '' y'')" "utf8 ''ls -l''"
    by code_simp+
  moreover have "sanitize_command (''x'' @ [CHR 0xC3, CHR 0xA9] @ '' Bearer '' @ [CHR 0xC3, CHR 0xA9] @ '' y'') =
      Some (''x'' @ [CHR 0xC3, CHR 0xA9] @ '' Bearer [REDACTED]y'')"
    by code_simp
  moreover have "\<forall>u v. ''ls -l'' = u @ v \<longrightarrow> redact_here v = None"
  proof (intro allI impI)
    fix u v assume "''ls -l'' = u @ v"
    then have "v \<in> set (suffixes ''ls -l'')" by (simp add: suffix_def)
    moreover have "list_all (\<lambda>v. redact_here v = None) (suffixes ''ls -l'')" by code_simp
    ultimately show "redact_here v = None" unfolding list_all_iff by (rule bspec [rotated])
  qed
  ultimately show ?thesis using sanitize_never_panics [of "''ls -l''"] by blast
qed



end
