(* ===== verification/Cel_Lexer.thy ===== *)
theory Cel_Lexer
  imports Bastion_Prelude
begin

text \<open>
  The lexer of the rule language CEL-lite (\<open>crates/enrichment-engine/src/rules/lexer.rs\<close>).

  A lexer is what is left of its input and the byte position reached: the slice \<open>input[pos..]\<close> of the
  source is \<open>lx_rest\<close>, and a lexeme \<open>input[start..pos]\<close> is the text consumed in between. An \<open>i32\<close> is
  an \<open>int\<close> in its range.
\<close>

subsection \<open>Tokens\<close>

datatype token_kind =
    TEof
  | TInt int
  | TBool bool
  | TStr string
  | TIdent string
  | TEq | TNe | TGt | TLt | TGe | TLe
  | TAnd | TOr | TNot
  | TLParen | TRParen | TComma
  | TIllegal
  | TAnyFact | TAllFact | TCountFact | TDurationGt

record token =
  tk_kind :: token_kind
  tk_position :: nat
  tk_lexeme :: string

record lexer =
  lx_rest :: string
  lx_pos :: nat

definition lexer_new :: "string \<Rightarrow> lexer" where
  "lexer_new input = \<lparr>lx_rest = input, lx_pos = 0\<rparr>"

subsection \<open>Scanning\<close>

definition lx_advance :: "lexer \<Rightarrow> lexer" where
  "lx_advance lx =
     (case lx_rest lx of
        [] \<Rightarrow> lx
      | c # cs \<Rightarrow> \<lparr>lx_rest = cs, lx_pos = lx_pos lx + len_utf8 c\<rparr>)"

definition peek_next :: "lexer \<Rightarrow> char option" where
  "peek_next lx = (case lx_rest lx of _ # c # _ \<Rightarrow> Some c | _ \<Rightarrow> None)"

text \<open>The scanning loops: advance while the next character satisfies \<open>p\<close>; the text passed over.\<close>

function advance_while :: "(char \<Rightarrow> bool) \<Rightarrow> lexer \<Rightarrow> string \<times> lexer" where
  "advance_while p lx =
     (case lx_rest lx of
        [] \<Rightarrow> ([], lx)
      | c # cs \<Rightarrow>
          if p c then (let (text, lx') = advance_while p (lx_advance lx) in (c # text, lx'))
          else ([], lx))"
  by pat_completeness auto
termination
  by (relation "measure (\<lambda>(p, lx). length (lx_rest lx))") (auto simp: lx_advance_def)

declare advance_while.simps [simp del]

definition skip_whitespace :: "lexer \<Rightarrow> lexer" where
  "skip_whitespace lx = snd (advance_while is_whitespace lx)"

text \<open>
  The loop of \<open>string_literal\<close> after the opening quote: the text up to the closing quote and the text
  passed over (which includes the quote, if there is one). A backslash keeps the next character, and
  stays in the literal.
\<close>

function string_loop :: "bool \<Rightarrow> lexer \<Rightarrow> string \<times> string \<times> lexer" where
  "string_loop escaped lx =
     (case lx_rest lx of
        [] \<Rightarrow> ([], [], lx)
      | c # cs \<Rightarrow>
          if escaped \<or> c = CHR 0x5C \<or> c \<noteq> CHR 0x27
          then (let (lit, text, lx') = string_loop (\<not> escaped \<and> c = CHR 0x5C) (lx_advance lx)
                in (c # lit, c # text, lx'))
          else ([], [c], lx_advance lx))"
  by pat_completeness auto
termination
  by (relation "measure (\<lambda>(b, lx). length (lx_rest lx))") (auto simp: lx_advance_def)

declare string_loop.simps [simp del]

definition string_literal :: "lexer \<Rightarrow> token_kind \<times> string \<times> lexer" where
  "string_literal lx =
     (let (lit, text, lx') = string_loop False (lx_advance lx) in (TStr lit, CHR 0x27 # text, lx'))"

definition integer_token :: "lexer \<Rightarrow> token_kind \<times> string \<times> lexer" where
  "integer_token lx =
     (let (text, lx') = advance_while is_ascii_digit lx
      in (case parse_i32 text of Some n \<Rightarrow> TInt n | None \<Rightarrow> TIllegal, text, lx'))"

definition keyword_kind :: "string \<Rightarrow> token_kind" where
  "keyword_kind text =
     (if text = ''true'' then TBool True
      else if text = ''false'' then TBool False
      else if text = ''and'' then TAnd
      else if text = ''or'' then TOr
      else if text = ''not'' then TNot
      else if text = ''any_fact'' then TAnyFact
      else if text = ''all_fact'' then TAllFact
      else if text = ''count_fact'' then TCountFact
      else if text = ''duration_gt'' then TDurationGt
      else TIdent text)"

definition is_word_char :: "char \<Rightarrow> bool" where
  "is_word_char c = (is_alphanumeric c \<or> c = CHR ''_'')"

definition identifier_or_keyword :: "lexer \<Rightarrow> token_kind \<times> string \<times> lexer" where
  "identifier_or_keyword lx =
     (let (text, lx') = advance_while is_word_char lx in (keyword_kind text, text, lx'))"

text \<open>A token of one and of two characters.\<close>

definition one_char :: "token_kind \<Rightarrow> lexer \<Rightarrow> token_kind \<times> string \<times> lexer" where
  "one_char k lx = (k, take 1 (lx_rest lx), lx_advance lx)"

definition two_chars :: "token_kind \<Rightarrow> lexer \<Rightarrow> token_kind \<times> string \<times> lexer" where
  "two_chars k lx = (k, take 2 (lx_rest lx), lx_advance (lx_advance lx))"

definition scan_token :: "char \<Rightarrow> lexer \<Rightarrow> token_kind \<times> string \<times> lexer" where
  "scan_token c lx =
     (if c = CHR ''('' then one_char TLParen lx
      else if c = CHR '')'' then one_char TRParen lx
      else if c = CHR '','' then one_char TComma lx
      else if c = CHR ''='' \<and> peek_next lx = Some (CHR ''='') then two_chars TEq lx
      else if c = CHR ''!'' \<and> peek_next lx = Some (CHR ''='') then two_chars TNe lx
      else if c = CHR ''>'' \<and> peek_next lx = Some (CHR ''='') then two_chars TGe lx
      else if c = CHR ''<'' \<and> peek_next lx = Some (CHR ''='') then two_chars TLe lx
      else if c = CHR ''>'' then one_char TGt lx
      else if c = CHR ''<'' then one_char TLt lx
      else if c = CHR 0x27 then string_literal lx
      else if is_ascii_digit c then integer_token lx
      else if is_ascii_letter c \<or> c = CHR ''_'' then identifier_or_keyword lx
      else one_char TIllegal lx)"

definition next_token :: "lexer \<Rightarrow> token \<times> lexer" where
  "next_token lx0 =
     (let lx = skip_whitespace lx0 in
      case lx_rest lx of
        [] \<Rightarrow> (\<lparr>tk_kind = TEof, tk_position = lx_pos lx, tk_lexeme = []\<rparr>, lx)
      | c # cs \<Rightarrow>
          (let (kind, text, lx') = scan_token c lx
           in (\<lparr>tk_kind = kind, tk_position = lx_pos lx, tk_lexeme = text\<rparr>, lx')))"

subsection \<open>What a scan consumes\<close>

text \<open>\<open>consumes lx text lx'\<close>: \<open>lx'\<close> is \<open>lx\<close> after reading exactly \<open>text\<close>.\<close>

definition consumes :: "lexer \<Rightarrow> string \<Rightarrow> lexer \<Rightarrow> bool" where
  "consumes lx text lx' =
     (lx_rest lx = text @ lx_rest lx' \<and> lx_pos lx' = lx_pos lx + str_len text)"

lemma consumes_refl [simp]: "consumes lx [] lx"
  by (simp add: consumes_def)

lemma consumes_append: "consumes a s b \<Longrightarrow> consumes b t c \<Longrightarrow> consumes a (s @ t) c"
  by (simp add: consumes_def)

lemma consumes_advance: "lx_rest lx = c # cs \<Longrightarrow> consumes lx [c] (lx_advance lx)"
  by (simp add: consumes_def lx_advance_def)

lemma consumes_Cons:
  "lx_rest lx = c # cs \<Longrightarrow> consumes (lx_advance lx) s b \<Longrightarrow> consumes lx (c # s) b"
  using consumes_append [OF consumes_advance] by fastforce

lemma advance_while_spec:
  "advance_while p lx = (u, lx') \<Longrightarrow>
     consumes lx u lx' \<and> u = takeWhile p (lx_rest lx) \<and> lx_rest lx' = dropWhile p (lx_rest lx)"
proof (induction p lx arbitrary: u lx' rule: advance_while.induct)
  case (1 p lx)
  show ?case
  proof (cases "lx_rest lx")
    case Nil
    then show ?thesis using 1(2) by (simp add: advance_while.simps [of p lx])
  next
    case (Cons c cs)
    obtain t l where r: "advance_while p (lx_advance lx) = (t, l)" by fastforce
    have rest: "lx_rest (lx_advance lx) = cs" by (simp add: lx_advance_def Cons)
    show ?thesis
    proof (cases "p c")
      case True
      then have "u = c # t" "lx' = l"
        using 1(2) Cons r by (simp_all add: advance_while.simps [of p lx])
      then show ?thesis using 1(1) [OF Cons True r] Cons True rest
        by (auto intro: consumes_Cons)
    next
      case False
      then show ?thesis using 1(2) Cons by (simp add: advance_while.simps [of p lx])
    qed
  qed
qed

lemma string_loop_step:
  "lx_rest lx = c # cs \<Longrightarrow> string_loop escaped lx =
     (if escaped \<or> c = CHR 0x5C \<or> c \<noteq> CHR 0x27
      then (let (lit, u, lx') = string_loop (\<not> escaped \<and> c = CHR 0x5C) (lx_advance lx)
            in (c # lit, c # u, lx'))
      else ([], [c], lx_advance lx))"
  by (simp add: string_loop.simps [of escaped lx])

lemma string_loop_consumes:
  "string_loop b lx = (lit, u, lx') \<Longrightarrow> consumes lx u lx'"
proof (induction b lx arbitrary: lit u lx' rule: string_loop.induct)
  case (1 b lx)
  show ?case
  proof (cases "lx_rest lx")
    case Nil
    then show ?thesis using 1(2) by (simp add: string_loop.simps [of b lx])
  next
    case (Cons c cs)
    obtain l t lx1 where r: "string_loop (\<not> b \<and> c = CHR 0x5C) (lx_advance lx) = (l, t, lx1)"
      by (metis prod_cases3)
    show ?thesis
    proof (cases "b \<or> c = CHR 0x5C \<or> c \<noteq> CHR 0x27")
      case True
      then have "u = c # t" "lx' = lx1"
        using 1(2) [unfolded string_loop_step [OF Cons]] r by simp_all
      then show ?thesis using 1(1) [OF Cons True r] Cons by (auto intro: consumes_Cons)
    next
      case False
      then show ?thesis using 1(2) [unfolded string_loop_step [OF Cons]] consumes_advance [OF Cons]
        by simp
    qed
  qed
qed

lemma one_char_consumes:
  "lx_rest lx = c # cs \<Longrightarrow> one_char k lx = (kind, text, lx') \<Longrightarrow> consumes lx text lx' \<and> text \<noteq> []"
  using consumes_advance [of lx c cs] by (auto simp: one_char_def)

lemma two_chars_consumes:
  assumes "lx_rest lx = c # cs" "peek_next lx = Some d" "two_chars k lx = (kind, text, lx')"
  shows "consumes lx text lx' \<and> text \<noteq> []"
proof -
  obtain ds where cs: "cs = d # ds" using assms(1,2) by (auto simp: peek_next_def split: list.splits)
  have "consumes lx [c] (lx_advance lx)" by (rule consumes_advance [OF assms(1)])
  moreover have "lx_rest (lx_advance lx) = d # ds" by (simp add: lx_advance_def assms(1) cs)
  then have "consumes (lx_advance lx) [d] (lx_advance (lx_advance lx))" by (rule consumes_advance)
  ultimately have "consumes lx [c, d] (lx_advance (lx_advance lx))"
    using consumes_append by fastforce
  then show ?thesis using assms(1,3) cs by (auto simp: two_chars_def)
qed

lemma is_word_char_start: "is_ascii_letter c \<or> c = CHR ''_'' \<Longrightarrow> is_word_char c"
  by (auto simp: is_word_char_def is_alphanumeric_def Let_def)

text \<open>The branches of \<open>next_token\<close>'s match.\<close>

lemma scan_token_cases:
  assumes "scan_token c lx = r"
  obtains k where "one_char k lx = r" "k \<noteq> TEof"
  | k d where "peek_next lx = Some d" "two_chars k lx = r" "k \<noteq> TEof"
  | "c = CHR 0x27" "string_literal lx = r"
  | "is_ascii_digit c" "integer_token lx = r"
  | "is_ascii_letter c \<or> c = CHR ''_''" "identifier_or_keyword lx = r"
proof -
  have if_asmE: "(if P then x else y) = r \<Longrightarrow> (P \<Longrightarrow> x = r \<Longrightarrow> T) \<Longrightarrow> (\<not> P \<Longrightarrow> y = r \<Longrightarrow> T) \<Longrightarrow> T"
    for P T x y by (simp split: if_splits)
  show thesis
    using assms unfolding scan_token_def
    apply (elim if_asmE)
                apply (rule that(1), assumption, simp)+
            apply (elim conjE, rule that(2), assumption, assumption, simp)+
        apply (rule that(1), assumption, simp)+
      apply (rule that(3), assumption, assumption)
     apply (rule that(4), assumption, assumption)
    apply (rule that(5), assumption, assumption)
    apply (rule that(1), assumption, simp)
    done
qed

lemma scan_token_consumes:
  assumes "lx_rest lx = c # cs" and "scan_token c lx = (kind, text, lx')"
  shows "consumes lx text lx' \<and> text \<noteq> []"
proof -
  have aw: "consumes lx (fst (advance_while p lx)) (snd (advance_while p lx))
      \<and> (p c \<longrightarrow> fst (advance_while p lx) \<noteq> [])" for p
    using advance_while_spec [of p lx] assms(1) by (metis list.distinct(1) prod.collapse takeWhile.simps(2))
  have str: "consumes lx (CHR 0x27 # t) l" if "c = CHR 0x27" "string_loop False (lx_advance lx) = (u, t, l)" for t u l
    using consumes_Cons [OF assms(1) string_loop_consumes [OF that(2)]] that(1) by simp
  have one: "one_char k lx = (kind, text, lx') \<Longrightarrow> ?thesis" for k
    by (rule one_char_consumes [OF assms(1)])
  have two: "peek_next lx = Some d \<Longrightarrow> two_chars k lx = (kind, text, lx') \<Longrightarrow> ?thesis" for k d
    by (rule two_chars_consumes [OF assms(1)])
  have lit: "c = CHR 0x27 \<Longrightarrow> string_literal lx = (kind, text, lx') \<Longrightarrow> ?thesis"
    using str by (auto simp: string_literal_def split: prod.splits)
  have int: "is_ascii_digit c \<Longrightarrow> integer_token lx = (kind, text, lx') \<Longrightarrow> ?thesis"
    using aw [of is_ascii_digit] by (auto simp: integer_token_def split: prod.splits)
  have ident: "is_ascii_letter c \<or> c = CHR ''_'' \<Longrightarrow> identifier_or_keyword lx = (kind, text, lx')
      \<Longrightarrow> ?thesis"
    using aw [of is_word_char] is_word_char_start [of c]
    by (auto simp: identifier_or_keyword_def split: prod.splits)
  show ?thesis
    using one two lit int ident by (cases rule: scan_token_cases [OF assms(2)]) simp_all
qed

lemma keyword_kind_not_eof: "keyword_kind u \<noteq> TEof"
  by (simp add: keyword_kind_def)

lemma fst_scans [simp]:
  "fst (one_char k lx) = k" "fst (two_chars k lx) = k"
  "fst (string_literal lx) = TStr (fst (string_loop False (lx_advance lx)))"
  "fst (integer_token lx) =
     (case parse_i32 (fst (advance_while is_ascii_digit lx)) of Some n \<Rightarrow> TInt n | None \<Rightarrow> TIllegal)"
  "fst (identifier_or_keyword lx) = keyword_kind (fst (advance_while is_word_char lx))"
  unfolding one_char_def two_chars_def string_literal_def integer_token_def identifier_or_keyword_def
    Let_def case_prod_beta fst_conv
  by (rule refl)+

lemma scan_token_not_eof:
  assumes "scan_token c lx = (kind, u, lx')"
  shows "kind \<noteq> TEof"
proof -
  have kinds: "fst (integer_token lx) \<noteq> TEof" "fst (string_literal lx) \<noteq> TEof"
      "fst (identifier_or_keyword lx) \<noteq> TEof"
    unfolding fst_scans
    by (cases "parse_i32 (fst (advance_while is_ascii_digit lx))")
      (simp_all only: option.case token_kind.distinct keyword_kind_not_eof not_False_eq_True)
  have kind: "kind = fst r" if "r = (kind, u, lx')" for r using that by simp
  show ?thesis
  proof (cases rule: scan_token_cases [OF assms])
    case (1 k)
    then show ?thesis using kind [OF 1(1)] by simp
  next
    case (2 k d)
    then show ?thesis using kind [OF 2(2)] by simp
  next
    case 3
    show ?thesis using kind [OF 3(2)] kinds by metis
  next
    case 4
    show ?thesis using kind [OF 4(2)] kinds by metis
  next
    case 5
    show ?thesis using kind [OF 5(2)] kinds by metis
  qed
qed

lemma next_token_spec:
  assumes "next_token lx = (tok, lx')"
  shows "\<exists>gap. list_all is_whitespace gap \<and> consumes lx (gap @ tk_lexeme tok) lx'
      \<and> tk_position tok = lx_pos lx + str_len gap
      \<and> (tk_kind tok = TEof \<longleftrightarrow> tk_lexeme tok = []) \<and> (tk_kind tok = TEof \<longrightarrow> lx_rest lx' = [])"
proof -
  obtain gap lx1 where g: "advance_while is_whitespace lx = (gap, lx1)" by fastforce
  then have gs: "consumes lx gap lx1" and gap: "gap = takeWhile is_whitespace (lx_rest lx)"
    using advance_while_spec by blast+
  have sk: "skip_whitespace lx = lx1" by (simp add: skip_whitespace_def g)
  have ws: "list_all is_whitespace gap" unfolding gap list_all_iff by (blast dest: set_takeWhileD)
  have pos: "lx_pos lx1 = lx_pos lx + str_len gap" using gs by (simp add: consumes_def)
  show ?thesis
  proof (cases "lx_rest lx1")
    case Nil
    then show ?thesis using assms sk gs ws pos
      by (intro exI [of _ gap]) (auto simp: next_token_def Let_def)
  next
    case (Cons c cs)
    obtain k t l where s: "scan_token c lx1 = (k, t, l)" by (metis prod_cases3)
    then have "tok = \<lparr>tk_kind = k, tk_position = lx_pos lx1, tk_lexeme = t\<rparr>" "lx' = l"
      using assms sk Cons by (auto simp: next_token_def Let_def)
    then show ?thesis
      using scan_token_consumes [OF Cons s] scan_token_not_eof [OF s] gs ws pos
      by (intro exI [of _ gap]) (auto intro: consumes_append)
  qed
qed

lemma next_token_shrinks:
  assumes "next_token lx = (tok, lx')" and "tk_kind tok \<noteq> TEof"
  shows "length (lx_rest lx') < length (lx_rest lx)"
proof -
  obtain gap where "consumes lx (gap @ tk_lexeme tok) lx'" "tk_lexeme tok \<noteq> []"
    using next_token_spec [OF assms(1)] assms(2) by auto
  then show ?thesis by (auto simp: consumes_def)
qed

subsection \<open>Tokenizing\<close>

function tokenize :: "lexer \<Rightarrow> token list" where
  "tokenize lx =
     (let (tok, lx') = next_token lx
      in if tk_kind tok = TEof then [tok] else tok # tokenize lx')"
  by pat_completeness auto
termination
proof (relation "measure (\<lambda>lx. length (lx_rest lx))")
  fix lx x tok lx'
  assume "x = next_token lx" "(tok, lx') = x" "tk_kind tok \<noteq> TEof"
  then show "(lx', lx) \<in> measure (\<lambda>lx. length (lx_rest lx))"
    using next_token_shrinks [of lx tok lx'] by simp
qed simp

declare tokenize.simps [simp del]

text \<open>
  What it means that a list of tokens covers a text that starts at byte \<open>pos\<close>: each token's lexeme
  follows the previous one after a gap of white space and carries its byte position, lexemes are not
  empty, and the list ends with the one end-of-input token, at the end of the text.
\<close>

fun covers :: "nat \<Rightarrow> string \<Rightarrow> token list \<Rightarrow> bool" where
  "covers pos s [] = False"
| "covers pos s (t # ts) =
     (\<exists>gap rest. list_all is_whitespace gap \<and> s = gap @ tk_lexeme t @ rest
        \<and> tk_position t = pos + str_len gap
        \<and> (if tk_kind t = TEof then tk_lexeme t = [] \<and> rest = [] \<and> ts = []
           else tk_lexeme t \<noteq> [] \<and> covers (tk_position t + str_len (tk_lexeme t)) rest ts))"

lemma covers_ConsI:
  assumes "list_all is_whitespace gap" "s = gap @ tk_lexeme t @ rest" "tk_position t = pos + str_len gap"
    and "tk_kind t = TEof \<Longrightarrow> tk_lexeme t = [] \<and> rest = [] \<and> ts = []"
    and "tk_kind t \<noteq> TEof \<Longrightarrow>
      tk_lexeme t \<noteq> [] \<and> covers (pos + (str_len gap + str_len (tk_lexeme t))) rest ts"
  shows "covers pos s (t # ts)"
  using assms by (auto simp: add.assoc)

lemma tokenize_covers: "covers (lx_pos lx) (lx_rest lx) (tokenize lx)"
proof (induction lx rule: tokenize.induct)
  case (1 lx)
  obtain tok lx' where n: "next_token lx = (tok, lx')" by fastforce
  obtain gap where g: "list_all is_whitespace gap" "consumes lx (gap @ tk_lexeme tok) lx'"
      "tk_position tok = lx_pos lx + str_len gap" "tk_kind tok = TEof \<longleftrightarrow> tk_lexeme tok = []"
      "tk_kind tok = TEof \<longrightarrow> lx_rest lx' = []"
    using next_token_spec [OF n] by blast
  have toks: "tokenize lx = (if tk_kind tok = TEof then [tok] else tok # tokenize lx')"
    by (simp add: tokenize.simps [of lx] n)
  have "tk_kind tok \<noteq> TEof \<Longrightarrow> covers (lx_pos lx') (lx_rest lx') (tokenize lx')"
    using 1 [OF n [symmetric] refl] by simp
  then show ?case
    using g covers_ConsI [of gap "lx_rest lx" tok "lx_rest lx'" "lx_pos lx"]
    unfolding toks consumes_def by (cases "tk_kind tok = TEof") simp_all
qed

definition literal_in_range :: "token_kind \<Rightarrow> bool" where
  "literal_in_range k = (case k of TInt n \<Rightarrow> 0 \<le> n \<and> n < 2 ^ 31 | _ \<Rightarrow> True)"

lemma keyword_kind_in_range: "literal_in_range (keyword_kind u)"
  by (simp add: keyword_kind_def literal_in_range_def)

lemma integer_in_range: "literal_in_range (fst (integer_token lx))"
proof (cases "parse_i32 (fst (advance_while is_ascii_digit lx))")
  case None
  then show ?thesis unfolding fst_scans None by (simp add: literal_in_range_def)
next
  case (Some n)
  let ?u = "fst (advance_while is_ascii_digit lx)"
  have "list_all is_ascii_digit ?u"
    using advance_while_spec [of is_ascii_digit lx] unfolding list_all_iff
    by (metis prod.collapse set_takeWhileD)
  moreover have "?u \<noteq> []" using Some by (auto simp: parse_int_def)
  ultimately have "0 \<le> n \<and> n \<le> 2 ^ 31 - 1"
    using Some parse_int_digits [of ?u "- (2 ^ 31)" "2 ^ 31 - 1"] by (auto split: if_splits)
  then show ?thesis unfolding fst_scans Some by (simp add: literal_in_range_def)
qed

lemma scan_token_in_range: "literal_in_range (fst (scan_token c lx))"
proof -
  have "literal_in_range (fst (string_literal lx))"
      "literal_in_range (fst (identifier_or_keyword lx))" "literal_in_range (fst (integer_token lx))"
    using keyword_kind_in_range integer_in_range by (simp_all add: literal_in_range_def)
  then show ?thesis
    unfolding scan_token_def if_distrib [of fst] if_distrib [of literal_in_range]
    by (simp add: literal_in_range_def)
qed

lemma tokenize_in_range: "list_all (\<lambda>t. literal_in_range (tk_kind t)) (tokenize lx)"
proof (induction lx rule: tokenize.induct)
  case (1 lx)
  obtain tok lx' where n: "next_token lx = (tok, lx')" by fastforce
  have "literal_in_range (tk_kind tok)"
  proof (cases "lx_rest (skip_whitespace lx)")
    case Nil
    then show ?thesis using n by (auto simp: next_token_def Let_def literal_in_range_def)
  next
    case (Cons c cs)
    then have "tk_kind tok = fst (scan_token c (skip_whitespace lx))"
      using n by (auto simp: next_token_def Let_def split: prod.splits)
    then show ?thesis using scan_token_in_range by simp
  qed
  then show ?case using 1 [OF n [symmetric] refl] by (auto simp: tokenize.simps [of lx] n)
qed

subsection \<open>Properties of the lexer\<close>

text \<open>
  C9: the lexer always terminates and loses nothing: for every input, the tokens cover the whole
  input in order, separated by white space only, each at its own byte position, with exactly one
  end-of-input token, the last one; and every integer literal it produces is a non-negative
  \<open>i32\<close>.
\<close>

theorem tokenize_covers_input:
  "covers 0 input (tokenize (lexer_new input))
   \<and> list_all (\<lambda>t. literal_in_range (tk_kind t)) (tokenize (lexer_new input))"
  using tokenize_covers [of "lexer_new input"] tokenize_in_range [of "lexer_new input"]
  by (simp add: lexer_new_def)

end
