(* ===== verification/Cel_Parser.thy ===== *)
theory Cel_Parser
  imports Cel_Lexer
begin

text \<open>
  The expressions of the rule language and their recursive-descent parser
  (\<open>crates/enrichment-engine/src/rules/ast.rs\<close>, \<open>Expr\<close>, \<open>CompOp\<close>, \<open>ParseError\<close>, \<open>Parser\<close>).

  The regular-expression crate is an argument: \<open>rx p\<close> is \<open>Inl message\<close> where \<open>Regex::new\<close> fails, and
  \<open>Inr matches\<close>, the test \<open>is_match\<close>, otherwise. The parsing procedures call each other recursively;
  the model gives each call a fuel, and running out of it is the value \<open>None\<close>. The fuel \<open>parse\<close> starts
  with is proved to be enough for every input.
\<close>

subsection \<open>Expressions\<close>

datatype comp_op = OpEq | OpNe | OpGt | OpLt | OpGe | OpLe

datatype field = ExitCodeField | TimedOutField | StdoutField | StderrField | DurationMsField

datatype expr =
    EBool bool
  | EInt int
  | EStr string
  | EField field
  | EEq expr expr | ENe expr expr | EGt expr expr | ELt expr expr | EGe expr expr | ELe expr expr
  | EAnd expr expr | EOr expr expr | ENot expr
  | EContainsFact string
  | EFact string
  | EStdoutContains string
  | EAnyFact string comp_op string
  | EAllFact string comp_op string
  | ECountFact string comp_op int
  | EStderrContains string
  | EStderrMatches string
  | EDurationLt int
  | EDurationGt int

datatype parse_error =
    UnexpectedToken nat string string
  | UnterminatedString nat
  | Invalid string

subsection \<open>Debug output of tokens\<close>

text \<open>
  The derived \<open>Debug\<close> text of a token kind appears in error messages. \<open>debug_char\<close> is the escape the
  standard library applies inside a string: quotes and backslashes, the named control characters, and
  \<open>\u{..}\<close> for what is not printable (up to U+00FF: controls, no-break space and soft hyphen).
\<close>

definition hex_digit :: "nat \<Rightarrow> char" where
  "hex_digit d = (if d < 10 then char_of (48 + d) else char_of (87 + d))"

definition hex_string :: "nat \<Rightarrow> string" where
  "hex_string n = (if n < 16 then [hex_digit n] else [hex_digit (n div 16), hex_digit (n mod 16)])"

definition debug_char :: "char \<Rightarrow> string" where
  "debug_char c =
     (let n = (of_char c :: nat) in
      if n = 0 then [CHR 0x5C, CHR ''0'']
      else if n = 9 then [CHR 0x5C, CHR ''t'']
      else if n = 13 then [CHR 0x5C, CHR ''r'']
      else if n = 10 then [CHR 0x5C, CHR ''n'']
      else if n = 34 then [CHR 0x5C, CHR 0x22]
      else if n = 92 then [CHR 0x5C, CHR 0x5C]
      else if n < 32 \<or> (127 \<le> n \<and> n \<le> 160) \<or> n = 173
      then [CHR 0x5C, CHR ''u'', CHR ''{''] @ hex_string n @ ''}''
      else [c])"

definition debug_str :: "string \<Rightarrow> string" where
  "debug_str s = [CHR 0x22] @ concat (map debug_char s) @ [CHR 0x22]"

definition bool_to_string :: "bool \<Rightarrow> string" where
  "bool_to_string b = (if b then ''true'' else ''false'')"

fun debug_kind :: "token_kind \<Rightarrow> string" where
  "debug_kind TEof = ''Eof''"
| "debug_kind (TInt n) = ''Int('' @ int_to_string n @ '')''"
| "debug_kind (TBool b) = ''Bool('' @ bool_to_string b @ '')''"
| "debug_kind (TStr s) = ''Str('' @ debug_str s @ '')''"
| "debug_kind (TIdent s) = ''Ident('' @ debug_str s @ '')''"
| "debug_kind TEq = ''Eq''"
| "debug_kind TNe = ''Ne''"
| "debug_kind TGt = ''Gt''"
| "debug_kind TLt = ''Lt''"
| "debug_kind TGe = ''Ge''"
| "debug_kind TLe = ''Le''"
| "debug_kind TAnd = ''And''"
| "debug_kind TOr = ''Or''"
| "debug_kind TNot = ''Not''"
| "debug_kind TLParen = ''LParen''"
| "debug_kind TRParen = ''RParen''"
| "debug_kind TComma = ''Comma''"
| "debug_kind TIllegal = ''Illegal''"
| "debug_kind TAnyFact = ''AnyFact''"
| "debug_kind TAllFact = ''AllFact''"
| "debug_kind TCountFact = ''CountFact''"
| "debug_kind TDurationGt = ''DurationGt''"

subsection \<open>Calls\<close>

type_synonym regex_crate = "string \<Rightarrow> (string, string \<Rightarrow> bool) result"

definition parse_comp_op_from_expr :: "expr \<Rightarrow> (parse_error, comp_op) result" where
  "parse_comp_op_from_expr e =
     (case e of
        EStr s \<Rightarrow>
          if s = ''=='' then Ok OpEq
          else if s = ''!='' then Ok OpNe
          else if s = ''>'' then Ok OpGt
          else if s = ''<'' then Ok OpLt
          else if s = ''>='' then Ok OpGe
          else if s = ''<='' then Ok OpLe
          else Err (Invalid (''Unknown comparison operator: '' @ s))
      | _ \<Rightarrow> Err (Invalid ''Comparison operator must be a string literal''))"

definition str_arg :: "string \<Rightarrow> expr \<Rightarrow> (parse_error, string) result" where
  "str_arg msg e = (case e of EStr s \<Rightarrow> Ok s | _ \<Rightarrow> Err (Invalid msg))"

definition int_arg :: "string \<Rightarrow> expr \<Rightarrow> (parse_error, int) result" where
  "int_arg msg e = (case e of EInt n \<Rightarrow> Ok n | _ \<Rightarrow> Err (Invalid msg))"

definition arity_error :: "string \<Rightarrow> expr list \<Rightarrow> (parse_error, expr) result" where
  "arity_error msg args = Err (Invalid (msg @ nat_to_string (length args)))"

text \<open>The match on the function name, once the arguments and the closing parenthesis are read.\<close>

definition build_call :: "regex_crate \<Rightarrow> string \<Rightarrow> expr list \<Rightarrow> (parse_error, expr) result" where
  "build_call rx name args =
     (if name = ''contains_fact'' then
        (case args of
           [a] \<Rightarrow> try_bind (str_arg ''contains_fact argument must be a string literal'' a)
                    (\<lambda>k. Ok (EContainsFact k))
         | _ \<Rightarrow> arity_error ''contains_fact takes 1 argument, got '' args)
      else if name = ''fact'' then
        (case args of
           [a] \<Rightarrow> try_bind (str_arg ''fact key must be a string literal'' a) (\<lambda>k. Ok (EFact k))
         | _ \<Rightarrow> arity_error ''fact takes 1 argument (key), got '' args)
      else if name = ''stdout_contains'' then
        (case args of
           [a] \<Rightarrow> try_bind (str_arg ''stdout_contains argument must be a string literal'' a)
                    (\<lambda>s. Ok (EStdoutContains s))
         | _ \<Rightarrow> arity_error ''stdout_contains takes 1 argument, got '' args)
      else if name = ''timed_out'' then
        (if args = [] then Ok (EField TimedOutField)
         else Err (Invalid ''timed_out takes no arguments''))
      else if name = ''exit_code'' then
        (if args = [] then Ok (EField ExitCodeField)
         else Err (Invalid ''exit_code takes no arguments''))
      else if name = ''any_fact'' then
        (case args of
           [a, b, c] \<Rightarrow>
             try_bind (str_arg ''any_fact first argument (key) must be a string literal'' a) (\<lambda>k.
             try_bind (parse_comp_op_from_expr b) (\<lambda>op.
             try_bind (str_arg ''any_fact third argument (value) must be a string literal'' c) (\<lambda>v.
             Ok (EAnyFact k op v))))
         | _ \<Rightarrow> arity_error ''any_fact takes 3 arguments, got '' args)
      else if name = ''all_fact'' then
        (case args of
           [a, b, c] \<Rightarrow>
             try_bind (str_arg ''all_fact first argument (key) must be a string literal'' a) (\<lambda>k.
             try_bind (parse_comp_op_from_expr b) (\<lambda>op.
             try_bind (str_arg ''all_fact third argument (value) must be a string literal'' c) (\<lambda>v.
             Ok (EAllFact k op v))))
         | _ \<Rightarrow> arity_error ''all_fact takes 3 arguments, got '' args)
      else if name = ''count_fact'' then
        (case args of
           [a, b, c] \<Rightarrow>
             try_bind (str_arg ''count_fact first argument (key) must be a string literal'' a) (\<lambda>k.
             try_bind (parse_comp_op_from_expr b) (\<lambda>op.
             try_bind (int_arg ''count_fact third argument (N) must be an integer'' c) (\<lambda>n.
             Ok (ECountFact k op n))))
         | _ \<Rightarrow> arity_error ''count_fact takes 3 arguments, got '' args)
      else if name = ''duration_gt'' then
        (case args of
           [a] \<Rightarrow> try_bind (int_arg ''duration_gt argument must be an integer'' a)
                    (\<lambda>n. Ok (EDurationGt n))
         | _ \<Rightarrow> arity_error ''duration_gt takes 1 argument, got '' args)
      else if name = ''stderr_contains'' then
        (case args of
           [a] \<Rightarrow> try_bind (str_arg ''stderr_contains argument must be a string literal'' a)
                    (\<lambda>s. Ok (EStderrContains s))
         | _ \<Rightarrow> arity_error ''stderr_contains takes 1 argument, got '' args)
      else if name = ''stderr_matches'' then
        (case args of
           [a] \<Rightarrow> try_bind (str_arg ''stderr_matches argument must be a string literal'' a) (\<lambda>p.
                   (case rx p of
                      Inr _ \<Rightarrow> Ok (EStderrMatches p)
                    | Inl e \<Rightarrow> Err (Invalid (''Invalid regex in stderr_matches: '' @ e))))
         | _ \<Rightarrow> arity_error ''stderr_matches takes 1 argument, got '' args)
      else if name = ''duration_lt'' then
        (case args of
           [a] \<Rightarrow> try_bind (int_arg ''duration_lt argument must be an integer'' a)
                    (\<lambda>n. Ok (EDurationLt n))
         | _ \<Rightarrow> arity_error ''duration_lt takes 1 argument, got '' args)
      else Err (Invalid (''Unknown function: '' @ name)))"

text \<open>A name that is not called: one of the fields, or a string.\<close>

definition plain_ident :: "string \<Rightarrow> expr" where
  "plain_ident name =
     (if name = ''exit_code'' then EField ExitCodeField
      else if name = ''timed_out'' then EField TimedOutField
      else if name = ''stdout'' then EField StdoutField
      else if name = ''stderr'' then EField StderrField
      else if name = ''duration_ms'' then EField DurationMsField
      else EStr name)"

subsection \<open>The parser\<close>

record parser =
  ps_lexer :: lexer
  ps_current :: token

abbreviation cur :: "parser \<Rightarrow> token_kind" where
  "cur st \<equiv> tk_kind (ps_current st)"

definition ps_advance :: "parser \<Rightarrow> parser" where
  "ps_advance st =
     (let (tok, lx) = next_token (ps_lexer st) in \<lparr>ps_lexer = lx, ps_current = tok\<rparr>)"

definition unexpected :: "string \<Rightarrow> parser \<Rightarrow> parse_error" where
  "unexpected expected st =
     UnexpectedToken (tk_position (ps_current st)) expected (debug_kind (cur st))"

text \<open>
  The outcome of a parsing procedure: out of fuel, an error, or a value and the parser after it.
\<close>

type_synonym 'a outcome = "(parse_error, 'a \<times> parser) result option"

definition out_bind :: "'a outcome \<Rightarrow> ('a \<Rightarrow> parser \<Rightarrow> 'b outcome) \<Rightarrow> 'b outcome" where
  "out_bind m f =
     (case m of
        None \<Rightarrow> None
      | Some (Inl e) \<Rightarrow> Some (Inl e)
      | Some (Inr (x, st)) \<Rightarrow> f x st)"

definition ret :: "'a \<Rightarrow> parser \<Rightarrow> 'a outcome" where
  "ret x st = Some (Inr (x, st))"

lemma out_bind_simps [simp]:
  "out_bind None f = None" "out_bind (Some (Inl e)) f = Some (Inl e)" "out_bind (ret x st) f = f x st"
  by (simp_all add: out_bind_def ret_def)

definition comparison :: "token_kind \<Rightarrow> (expr \<Rightarrow> expr \<Rightarrow> expr) option" where
  "comparison k =
     (case k of TEq \<Rightarrow> Some EEq | TNe \<Rightarrow> Some ENe | TGt \<Rightarrow> Some EGt | TLt \<Rightarrow> Some ELt
      | TGe \<Rightarrow> Some EGe | TLe \<Rightarrow> Some ELe | _ \<Rightarrow> None)"

text \<open>
  The procedures below parse-expression take it as the argument \<open>pexpr\<close>; the loops and the chain of
  \<open>not\<close> count their rounds in the fuel. A parenthesis and a call's arguments come back to \<open>pexpr\<close>.
\<close>

primrec args_loop ::
    "(parser \<Rightarrow> expr outcome) \<Rightarrow> nat \<Rightarrow> expr list \<Rightarrow> parser \<Rightarrow> expr list outcome" where
  "args_loop pexpr 0 args st = None"
| "args_loop pexpr (Suc n) args st =
     (if cur st = TComma
      then out_bind (pexpr (ps_advance st)) (\<lambda>e. args_loop pexpr n (args @ [e]))
      else ret args st)"

definition parse_call_args ::
    "(parser \<Rightarrow> expr outcome) \<Rightarrow> nat \<Rightarrow> parser \<Rightarrow> expr list outcome" where
  "parse_call_args pexpr n st =
     (if cur st = TRParen then ret [] st
      else out_bind (pexpr st) (\<lambda>e. args_loop pexpr n [e]))"

definition parse_ident_or_call ::
    "regex_crate \<Rightarrow> (parser \<Rightarrow> expr outcome) \<Rightarrow> nat \<Rightarrow> string \<Rightarrow> parser \<Rightarrow> expr outcome" where
  "parse_ident_or_call rx pexpr n name st =
     (if cur st = TLParen
      then out_bind (parse_call_args pexpr n (ps_advance st)) (\<lambda>args st1.
             if cur st1 \<noteq> TRParen then Some (Err (unexpected '')'' st1))
             else (case build_call rx name args of
                     Inl e \<Rightarrow> Some (Err e)
                   | Inr e \<Rightarrow> ret e (ps_advance st1)))
      else ret (plain_ident name) st)"

definition parse_primary ::
    "regex_crate \<Rightarrow> (parser \<Rightarrow> expr outcome) \<Rightarrow> nat \<Rightarrow> parser \<Rightarrow> expr outcome" where
  "parse_primary rx pexpr n st =
     (case cur st of
        TBool b \<Rightarrow> ret (EBool b) (ps_advance st)
      | TInt k \<Rightarrow> ret (EInt k) (ps_advance st)
      | TStr s \<Rightarrow> ret (EStr s) (ps_advance st)
      | TIdent name \<Rightarrow> parse_ident_or_call rx pexpr n name (ps_advance st)
      | TCountFact \<Rightarrow> parse_ident_or_call rx pexpr n ''count_fact'' (ps_advance st)
      | TAnyFact \<Rightarrow> parse_ident_or_call rx pexpr n ''any_fact'' (ps_advance st)
      | TAllFact \<Rightarrow> parse_ident_or_call rx pexpr n ''all_fact'' (ps_advance st)
      | TDurationGt \<Rightarrow> parse_ident_or_call rx pexpr n ''duration_gt'' (ps_advance st)
      | TLParen \<Rightarrow>
          out_bind (pexpr (ps_advance st)) (\<lambda>e st1.
            if cur st1 \<noteq> TRParen then Some (Err (unexpected '')'' st1))
            else ret e (ps_advance st1))
      | TEof \<Rightarrow>
          Some (Err (UnexpectedToken (tk_position (ps_current st)) ''expression'' ''end of input''))
      | _ \<Rightarrow> Some (Err (unexpected ''expression'' st)))"

definition parse_comparison ::
    "regex_crate \<Rightarrow> (parser \<Rightarrow> expr outcome) \<Rightarrow> nat \<Rightarrow> parser \<Rightarrow> expr outcome" where
  "parse_comparison rx pexpr n st =
     out_bind (parse_primary rx pexpr n st) (\<lambda>left st1.
       case comparison (cur st1) of
         None \<Rightarrow> ret left st1
       | Some mk \<Rightarrow>
           out_bind (parse_primary rx pexpr n (ps_advance st1)) (\<lambda>right. ret (mk left right)))"

primrec parse_not ::
    "regex_crate \<Rightarrow> (parser \<Rightarrow> expr outcome) \<Rightarrow> nat \<Rightarrow> parser \<Rightarrow> expr outcome" where
  "parse_not rx pexpr 0 st = None"
| "parse_not rx pexpr (Suc n) st =
     (if cur st = TNot
      then out_bind (parse_not rx pexpr n (ps_advance st)) (\<lambda>inner. ret (ENot inner))
      else parse_comparison rx pexpr n st)"

primrec and_loop ::
    "regex_crate \<Rightarrow> (parser \<Rightarrow> expr outcome) \<Rightarrow> nat \<Rightarrow> expr \<Rightarrow> parser \<Rightarrow> expr outcome" where
  "and_loop rx pexpr 0 left st = None"
| "and_loop rx pexpr (Suc n) left st =
     (if cur st = TAnd
      then out_bind (parse_not rx pexpr n (ps_advance st)) (\<lambda>right. and_loop rx pexpr n (EAnd left right))
      else ret left st)"

definition parse_and ::
    "regex_crate \<Rightarrow> (parser \<Rightarrow> expr outcome) \<Rightarrow> nat \<Rightarrow> parser \<Rightarrow> expr outcome" where
  "parse_and rx pexpr n st = out_bind (parse_not rx pexpr n st) (and_loop rx pexpr n)"

primrec or_loop ::
    "regex_crate \<Rightarrow> (parser \<Rightarrow> expr outcome) \<Rightarrow> nat \<Rightarrow> expr \<Rightarrow> parser \<Rightarrow> expr outcome" where
  "or_loop rx pexpr 0 left st = None"
| "or_loop rx pexpr (Suc n) left st =
     (if cur st = TOr
      then out_bind (parse_and rx pexpr n (ps_advance st)) (\<lambda>right. or_loop rx pexpr n (EOr left right))
      else ret left st)"

definition parse_or ::
    "regex_crate \<Rightarrow> (parser \<Rightarrow> expr outcome) \<Rightarrow> nat \<Rightarrow> parser \<Rightarrow> expr outcome" where
  "parse_or rx pexpr n st = out_bind (parse_and rx pexpr n st) (or_loop rx pexpr n)"

primrec parse_expression :: "regex_crate \<Rightarrow> nat \<Rightarrow> parser \<Rightarrow> expr outcome" where
  "parse_expression rx 0 st = None"
| "parse_expression rx (Suc n) st = parse_or rx (parse_expression rx n) (Suc n) st"

text \<open>\<open>Parser::parse\<close>: an expression, then the end of the input.\<close>

definition parser_start :: "string \<Rightarrow> parser" where
  "parser_start input =
     ps_advance \<lparr>ps_lexer = lexer_new input,
                 ps_current = \<lparr>tk_kind = TEof, tk_position = 0, tk_lexeme = []\<rparr>\<rparr>"

definition parse_with :: "regex_crate \<Rightarrow> nat \<Rightarrow> string \<Rightarrow> (parse_error, expr) result option" where
  "parse_with rx fuel input =
     (case parse_expression rx fuel (parser_start input) of
        None \<Rightarrow> None
      | Some (Inl e) \<Rightarrow> Some (Err e)
      | Some (Inr (e, st)) \<Rightarrow>
          if cur st \<noteq> TEof then Some (Err (unexpected ''end of input'' st)) else Some (Ok e))"

definition parse :: "regex_crate \<Rightarrow> string \<Rightarrow> (parse_error, expr) result option" where
  "parse rx input = parse_with rx (length input + 2) input"

subsection \<open>The parser always answers\<close>

text \<open>How much is left to read: the characters of the input, and the current token.\<close>

definition todo :: "parser \<Rightarrow> nat" where
  "todo st = length (lx_rest (ps_lexer st)) + (if cur st = TEof then 0 else 1)"

lemma todo_advance:
  assumes "cur st \<noteq> TEof"
  shows "todo (ps_advance st) < todo st"
proof -
  obtain tok lx where n: "next_token (ps_lexer st) = (tok, lx)" by fastforce
  then have a: "ps_advance st = \<lparr>ps_lexer = lx, ps_current = tok\<rparr>" by (simp add: ps_advance_def)
  show ?thesis
  proof (cases "tk_kind tok = TEof")
    case True
    then have "lx_rest lx = []" using next_token_spec [OF n] by blast
    then show ?thesis using assms True by (simp add: a todo_def)
  next
    case False
    then show ?thesis using next_token_shrinks [OF n] assms by (simp add: a todo_def)
  qed
qed

text \<open>\<open>answers r st\<close>: the outcome is there, and if it is a value, tokens have been read.\<close>

definition answers :: "'a outcome \<Rightarrow> nat \<Rightarrow> bool" where
  "answers r t = (case r of None \<Rightarrow> False | Some (Inl e) \<Rightarrow> True | Some (Inr (x, st)) \<Rightarrow> todo st < t)"

lemma answers_simps [simp]:
  "answers (Some (Inl e)) t" "answers (ret x st) t \<longleftrightarrow> todo st < t" "\<not> answers None t"
  by (simp_all add: answers_def ret_def)

lemma answers_bind:
  assumes "answers m t" and "\<And>x st. todo st < t \<Longrightarrow> answers (f x st) u"
  shows "answers (out_bind m f) u"
proof -
  consider e where "m = Some (Inl e)" | x st where "m = ret x st" "todo st < t"
    using assms(1) by (auto simp: answers_def ret_def split: option.splits sum.splits)
  then show ?thesis by cases (auto simp: assms(2))
qed

lemma answers_mono: "answers r t \<Longrightarrow> t \<le> u \<Longrightarrow> answers r u"
  by (auto simp: answers_def split: option.splits sum.splits)

text \<open>
  What the procedures rely on of the expression parser they call back: it answers whenever less than
  \<open>b\<close> is left to read.
\<close>

locale expression_parser =
  fixes pexpr :: "parser \<Rightarrow> expr outcome" and b :: nat
  assumes pexpr_answers: "todo st < b \<Longrightarrow> answers (pexpr st) (todo st)"
begin

lemma args_loop_answers:
  "todo st < n \<Longrightarrow> todo st \<le> b \<Longrightarrow> answers (args_loop pexpr n args st) (Suc (todo st))"
proof (induction n arbitrary: args st)
  case (Suc n)
  show ?case
  proof (cases "cur st = TComma")
    case True
    then have t: "todo (ps_advance st) < todo st" by (simp add: todo_advance)
    have "answers (out_bind (pexpr (ps_advance st)) (\<lambda>e. args_loop pexpr n (args @ [e])))
        (Suc (todo st))"
    proof (rule answers_bind)
      show "answers (pexpr (ps_advance st)) (todo (ps_advance st))"
        using t Suc.prems by (intro pexpr_answers) simp
      show "answers (args_loop pexpr n (args @ [e]) st1) (Suc (todo st))"
        if "todo st1 < todo (ps_advance st)" for e st1
        using that t Suc.prems by (intro answers_mono [OF Suc.IH]) auto
    qed
    then show ?thesis using True by simp
  qed simp
qed simp

lemma call_args_answers:
  assumes "todo st < n" "todo st < b"
  shows "answers (parse_call_args pexpr n st) (Suc (todo st))"
proof -
  have "answers (out_bind (pexpr st) (\<lambda>e. args_loop pexpr n [e])) (Suc (todo st))"
    by (rule answers_bind [OF pexpr_answers [OF assms(2)]])
      (use assms in \<open>auto intro: answers_mono [OF args_loop_answers]\<close>)
  then show ?thesis by (simp add: parse_call_args_def)
qed

lemma ident_or_call_answers:
  assumes "todo st \<le> n" "todo st \<le> b"
  shows "answers (parse_ident_or_call rx pexpr n name st) (Suc (todo st))"
proof (cases "cur st = TLParen")
  case True
  then have t: "todo (ps_advance st) < todo st" by (simp add: todo_advance)
  have "answers (out_bind (parse_call_args pexpr n (ps_advance st)) (\<lambda>args st1.
             if cur st1 \<noteq> TRParen then Some (Err (unexpected '')'' st1))
             else (case build_call rx name args of
                     Inl e \<Rightarrow> Some (Err e) | Inr e \<Rightarrow> ret e (ps_advance st1)))) (Suc (todo st))"
  proof (rule answers_bind)
    show "answers (parse_call_args pexpr n (ps_advance st)) (Suc (todo (ps_advance st)))"
      using t assms by (intro call_args_answers) auto
    show "answers (if cur st1 \<noteq> TRParen then Some (Err (unexpected '')'' st1))
             else (case build_call rx name args of
                     Inl e \<Rightarrow> Some (Err e) | Inr e \<Rightarrow> ret e (ps_advance st1))) (Suc (todo st))"
      if "todo st1 < Suc (todo (ps_advance st))" for args st1
      using that t todo_advance [of st1] by (cases "build_call rx name args") auto
  qed
  then show ?thesis using True by (simp add: parse_ident_or_call_def)
qed (simp add: parse_ident_or_call_def)

lemma primary_answers:
  assumes "todo st \<le> n" "todo st \<le> b"
  shows "answers (parse_primary rx pexpr n st) (todo st)"
proof -
  have t: "cur st \<noteq> TEof \<Longrightarrow> todo (ps_advance st) < todo st" by (rule todo_advance)
  have call: "cur st \<noteq> TEof \<Longrightarrow> answers (parse_ident_or_call rx pexpr n name (ps_advance st)) (todo st)"
    for name
    using t assms by (intro answers_mono [OF ident_or_call_answers]) auto
  have paren: "answers (out_bind (pexpr (ps_advance st)) (\<lambda>e st1.
            if cur st1 \<noteq> TRParen then Some (Err (unexpected '')'' st1))
            else ret e (ps_advance st1))) (todo st)" if c: "cur st \<noteq> TEof"
  proof (rule answers_bind)
    show "answers (pexpr (ps_advance st)) (todo (ps_advance st))"
      using t [OF c] assms by (intro pexpr_answers) simp
    show "answers (if cur st1 \<noteq> TRParen then Some (Err (unexpected '')'' st1))
            else ret e (ps_advance st1)) (todo st)"
      if "todo st1 < todo (ps_advance st)" for e st1
      using that t [OF c] todo_advance [of st1] by auto
  qed
  show ?thesis
    using t call paren by (cases "cur st") (simp_all add: parse_primary_def)
qed

lemma comparison_answers:
  assumes "todo st \<le> n" "todo st \<le> b"
  shows "answers (parse_comparison rx pexpr n st) (todo st)"
  unfolding parse_comparison_def
proof (rule answers_bind [OF primary_answers [OF assms]])
  fix left st1
  assume st1: "todo st1 < todo st"
  show "answers (case comparison (cur st1) of None \<Rightarrow> ret left st1
      | Some mk \<Rightarrow> out_bind (parse_primary rx pexpr n (ps_advance st1)) (\<lambda>right. ret (mk left right)))
      (todo st)"
  proof (cases "comparison (cur st1)")
    case None
    then show ?thesis using st1 by simp
  next
    case (Some mk)
    then have "cur st1 \<noteq> TEof" by (auto simp: comparison_def)
    then have t: "todo (ps_advance st1) < todo st1" by (rule todo_advance)
    have "answers (out_bind (parse_primary rx pexpr n (ps_advance st1)) (\<lambda>right. ret (mk left right)))
        (todo st)"
      by (rule answers_bind [OF primary_answers]) (use t st1 assms in auto)
    then show ?thesis using Some by simp
  qed
qed

lemma not_answers:
  "todo st < n \<Longrightarrow> todo st \<le> b \<Longrightarrow> answers (parse_not rx pexpr n st) (todo st)"
proof (induction n arbitrary: st)
  case (Suc n)
  show ?case
  proof (cases "cur st = TNot")
    case True
    then have t: "todo (ps_advance st) < todo st" by (simp add: todo_advance)
    have "answers (out_bind (parse_not rx pexpr n (ps_advance st)) (\<lambda>inner. ret (ENot inner))) (todo st)"
      by (rule answers_bind [OF Suc.IH]) (use t Suc.prems in auto)
    then show ?thesis using True by simp
  next
    case False
    then show ?thesis using comparison_answers Suc.prems by simp
  qed
qed simp

lemma and_loop_answers:
  "todo st < n \<Longrightarrow> todo st \<le> b \<Longrightarrow> answers (and_loop rx pexpr n left st) (Suc (todo st))"
proof (induction n arbitrary: left st)
  case (Suc n)
  show ?case
  proof (cases "cur st = TAnd")
    case True
    then have t: "todo (ps_advance st) < todo st" by (simp add: todo_advance)
    have "answers (out_bind (parse_not rx pexpr n (ps_advance st))
        (\<lambda>right. and_loop rx pexpr n (EAnd left right))) (Suc (todo st))"
    proof (rule answers_bind)
      show "answers (parse_not rx pexpr n (ps_advance st)) (todo (ps_advance st))"
        using t Suc.prems by (intro not_answers) auto
      show "answers (and_loop rx pexpr n (EAnd left right) st1) (Suc (todo st))"
        if "todo st1 < todo (ps_advance st)" for right st1
        using that t Suc.prems by (intro answers_mono [OF Suc.IH]) auto
    qed
    then show ?thesis using True by simp
  qed simp
qed simp

lemma and_answers:
  "todo st < n \<Longrightarrow> todo st \<le> b \<Longrightarrow> answers (parse_and rx pexpr n st) (todo st)"
  unfolding parse_and_def
  by (rule answers_bind [OF not_answers]) (auto intro: answers_mono [OF and_loop_answers])

lemma or_loop_answers:
  "todo st < n \<Longrightarrow> todo st \<le> b \<Longrightarrow> answers (or_loop rx pexpr n left st) (Suc (todo st))"
proof (induction n arbitrary: left st)
  case (Suc n)
  show ?case
  proof (cases "cur st = TOr")
    case True
    then have t: "todo (ps_advance st) < todo st" by (simp add: todo_advance)
    have "answers (out_bind (parse_and rx pexpr n (ps_advance st))
        (\<lambda>right. or_loop rx pexpr n (EOr left right))) (Suc (todo st))"
    proof (rule answers_bind)
      show "answers (parse_and rx pexpr n (ps_advance st)) (todo (ps_advance st))"
        using t Suc.prems by (intro and_answers) auto
      show "answers (or_loop rx pexpr n (EOr left right) st1) (Suc (todo st))"
        if "todo st1 < todo (ps_advance st)" for right st1
        using that t Suc.prems by (intro answers_mono [OF Suc.IH]) auto
    qed
    then show ?thesis using True by simp
  qed simp
qed simp

lemma or_answers:
  "todo st < n \<Longrightarrow> todo st \<le> b \<Longrightarrow> answers (parse_or rx pexpr n st) (todo st)"
  unfolding parse_or_def
  by (rule answers_bind [OF and_answers]) (auto intro: answers_mono [OF or_loop_answers])

end

lemma parse_expression_parser: "expression_parser (parse_expression rx n) n"
proof (induction n)
  case 0
  show ?case by unfold_locales simp
next
  case (Suc n)
  show ?case
    by unfold_locales (simp add: expression_parser.or_answers [OF Suc])
qed

interpretation pexp: expression_parser "parse_expression rx n" n
  by (rule parse_expression_parser)

end
