(* ===== verification/Cel_Printer.thy ===== *)
theory Cel_Printer
  imports Cel_Parser
begin

text \<open>
  The parser against a printer. The repository has no printer for expressions; the one below is the
  specification of the concrete syntax: it prints every expression with the parentheses the
  precedence of the operators requires and no others (\<open>or\<close> below \<open>and\<close> below \<open>not\<close> below the
  comparisons, \<open>or\<close> and \<open>and\<close> associating to the left). Parsing what it prints gives the expression
  back.
\<close>

subsection \<open>Printing\<close>

fun comp_op_string :: "comp_op \<Rightarrow> string" where
  "comp_op_string OpEq = ''==''"
| "comp_op_string OpNe = ''!=''"
| "comp_op_string OpGt = ''>''"
| "comp_op_string OpLt = ''<''"
| "comp_op_string OpGe = ''>=''"
| "comp_op_string OpLe = ''<=''"

fun field_name :: "field \<Rightarrow> string" where
  "field_name ExitCodeField = ''exit_code''"
| "field_name TimedOutField = ''timed_out''"
| "field_name StdoutField = ''stdout''"
| "field_name StderrField = ''stderr''"
| "field_name DurationMsField = ''duration_ms''"

definition quoted :: "string \<Rightarrow> string" where
  "quoted s = CHR 0x27 # s @ [CHR 0x27]"

definition call1 :: "string \<Rightarrow> string \<Rightarrow> string" where
  "call1 name a = name @ ''('' @ a @ '')''"

definition call3 :: "string \<Rightarrow> string \<Rightarrow> string \<Rightarrow> string \<Rightarrow> string" where
  "call3 name a b c = name @ ''('' @ a @ '', '' @ b @ '', '' @ c @ '')''"

definition paren_if :: "bool \<Rightarrow> string \<Rightarrow> string" where
  "paren_if p s = (if p then ''('' @ s @ '')'' else s)"

text \<open>\<open>pr n e\<close> prints \<open>e\<close> where an operand of precedence at least \<open>n\<close> is expected.\<close>

fun pr :: "nat \<Rightarrow> expr \<Rightarrow> string" where
  "pr n (EBool b) = bool_to_string b"
| "pr n (EInt k) = nat_to_string (nat k)"
| "pr n (EStr s) = quoted s"
| "pr n (EField f) = field_name f"
| "pr n (EEq l r) = paren_if (3 < n) (pr 4 l @ '' == '' @ pr 4 r)"
| "pr n (ENe l r) = paren_if (3 < n) (pr 4 l @ '' != '' @ pr 4 r)"
| "pr n (EGt l r) = paren_if (3 < n) (pr 4 l @ '' > '' @ pr 4 r)"
| "pr n (ELt l r) = paren_if (3 < n) (pr 4 l @ '' < '' @ pr 4 r)"
| "pr n (EGe l r) = paren_if (3 < n) (pr 4 l @ '' >= '' @ pr 4 r)"
| "pr n (ELe l r) = paren_if (3 < n) (pr 4 l @ '' <= '' @ pr 4 r)"
| "pr n (EAnd l r) = paren_if (1 < n) (pr 1 l @ '' and '' @ pr 2 r)"
| "pr n (EOr l r) = paren_if (0 < n) (pr 0 l @ '' or '' @ pr 1 r)"
| "pr n (ENot e) = paren_if (2 < n) (''not '' @ pr 2 e)"
| "pr n (EContainsFact k) = call1 ''contains_fact'' (quoted k)"
| "pr n (EFact k) = call1 ''fact'' (quoted k)"
| "pr n (EStdoutContains s) = call1 ''stdout_contains'' (quoted s)"
| "pr n (EAnyFact k op v) = call3 ''any_fact'' (quoted k) (quoted (comp_op_string op)) (quoted v)"
| "pr n (EAllFact k op v) = call3 ''all_fact'' (quoted k) (quoted (comp_op_string op)) (quoted v)"
| "pr n (ECountFact k op m) =
     call3 ''count_fact'' (quoted k) (quoted (comp_op_string op)) (nat_to_string (nat m))"
| "pr n (EStderrContains s) = call1 ''stderr_contains'' (quoted s)"
| "pr n (EStderrMatches s) = call1 ''stderr_matches'' (quoted s)"
| "pr n (EDurationLt m) = call1 ''duration_lt'' (nat_to_string (nat m))"
| "pr n (EDurationGt m) = call1 ''duration_gt'' (nat_to_string (nat m))"

definition print_expr :: "expr \<Rightarrow> string" where
  "print_expr e = pr 0 e"

text \<open>
  The expressions that have a concrete syntax: literals within range, strings whose quotes are
  escaped and which do not end in an open escape, regular expressions the crate accepts.
\<close>

fun lit_ok :: "bool \<Rightarrow> string \<Rightarrow> bool" where
  "lit_ok escaped [] = (\<not> escaped)"
| "lit_ok escaped (c # cs) =
     (if escaped then lit_ok False cs
      else if c = CHR 0x5C then lit_ok True cs
      else c \<noteq> CHR 0x27 \<and> lit_ok False cs)"

definition int_ok :: "int \<Rightarrow> bool" where
  "int_ok k = (0 \<le> k \<and> k < 2 ^ 31)"

fun expr_ok :: "regex_crate \<Rightarrow> expr \<Rightarrow> bool" where
  "expr_ok rx (EBool b) = True"
| "expr_ok rx (EInt k) = int_ok k"
| "expr_ok rx (EStr s) = lit_ok False s"
| "expr_ok rx (EField f) = True"
| "expr_ok rx (EEq l r) = (expr_ok rx l \<and> expr_ok rx r)"
| "expr_ok rx (ENe l r) = (expr_ok rx l \<and> expr_ok rx r)"
| "expr_ok rx (EGt l r) = (expr_ok rx l \<and> expr_ok rx r)"
| "expr_ok rx (ELt l r) = (expr_ok rx l \<and> expr_ok rx r)"
| "expr_ok rx (EGe l r) = (expr_ok rx l \<and> expr_ok rx r)"
| "expr_ok rx (ELe l r) = (expr_ok rx l \<and> expr_ok rx r)"
| "expr_ok rx (EAnd l r) = (expr_ok rx l \<and> expr_ok rx r)"
| "expr_ok rx (EOr l r) = (expr_ok rx l \<and> expr_ok rx r)"
| "expr_ok rx (ENot e) = expr_ok rx e"
| "expr_ok rx (EContainsFact k) = lit_ok False k"
| "expr_ok rx (EFact k) = lit_ok False k"
| "expr_ok rx (EStdoutContains s) = lit_ok False s"
| "expr_ok rx (EAnyFact k op v) = (lit_ok False k \<and> lit_ok False v)"
| "expr_ok rx (EAllFact k op v) = (lit_ok False k \<and> lit_ok False v)"
| "expr_ok rx (ECountFact k op m) = (lit_ok False k \<and> int_ok m)"
| "expr_ok rx (EStderrContains s) = lit_ok False s"
| "expr_ok rx (EStderrMatches s) = (lit_ok False s \<and> is_ok (rx s))"
| "expr_ok rx (EDurationLt m) = int_ok m"
| "expr_ok rx (EDurationGt m) = int_ok m"

subsection \<open>Reading one token\<close>

text \<open>
  \<open>at st s\<close>: the parser has just read the first token of the text \<open>s\<close>. \<open>sees st k s\<close>: its current
  token is of kind \<open>k\<close> and \<open>s\<close> follows.
\<close>

definition at :: "parser \<Rightarrow> string \<Rightarrow> bool" where
  "at st s = (\<exists>lx. lx_rest lx = s \<and> next_token lx = (ps_current st, ps_lexer st))"

definition sees :: "parser \<Rightarrow> token_kind \<Rightarrow> string \<Rightarrow> bool" where
  "sees st k s = (cur st = k \<and> lx_rest (ps_lexer st) = s)"

lemma at_advance: "at (ps_advance st) (lx_rest (ps_lexer st))"
  by (auto simp: at_def ps_advance_def split: prod.splits)

lemma sees_advance: "sees st k s \<Longrightarrow> cur st = k \<and> at (ps_advance st) s"
  using at_advance [of st] by (auto simp: sees_def)

lemma at_start: "at (parser_start input) input"
  using at_advance [of "\<lparr>ps_lexer = lexer_new input,
      ps_current = \<lparr>tk_kind = TEof, tk_position = 0, tk_lexeme = []\<rparr>\<rparr>"]
  by (simp add: parser_start_def lexer_new_def)

lemma lx_rest_advance [simp]: "lx_rest (lx_advance lx) = tl (lx_rest lx)"
  by (cases "lx_rest lx") (simp_all add: lx_advance_def)

lemma is_whitespace_space [simp]: "is_whitespace (CHR '' '')"
  by (simp add: is_whitespace_def)

lemma skip_whitespace_id: "lx_rest lx = c # s \<Longrightarrow> \<not> is_whitespace c \<Longrightarrow> skip_whitespace lx = lx"
  by (simp add: skip_whitespace_def advance_while.simps [of is_whitespace lx])

lemma skip_whitespace_space:
  "lx_rest lx = CHR '' '' # s \<Longrightarrow> skip_whitespace lx = skip_whitespace (lx_advance lx)"
  by (simp add: skip_whitespace_def advance_while.simps [of is_whitespace lx] split: prod.splits)

lemma at_space: "at st (CHR '' '' # s) \<Longrightarrow> at st s"
  by (auto simp: at_def next_token_def skip_whitespace_space)
    (metis list.sel(3) lx_rest_advance)

lemma at_eof:
  assumes "at st []"
  shows "cur st = TEof"
proof -
  obtain lx where "lx_rest lx = []" "next_token lx = (ps_current st, ps_lexer st)"
    using assms by (auto simp: at_def)
  then have "ps_current st = \<lparr>tk_kind = TEof, tk_position = lx_pos lx, tk_lexeme = []\<rparr>"
    by (auto simp: next_token_def skip_whitespace_def Let_def advance_while.simps [of is_whitespace lx])
  then show ?thesis by simp
qed

lemma at_scan:
  assumes "at st (c # s)" and "\<not> is_whitespace c"
    and "\<And>lx. lx_rest lx = c # s \<Longrightarrow> \<exists>u lx'. scan_token c lx = (k, u, lx') \<and> lx_rest lx' = t"
  shows "sees st k t"
proof -
  obtain lx where lx: "lx_rest lx = c # s" "next_token lx = (ps_current st, ps_lexer st)"
    using assms(1) by (auto simp: at_def)
  obtain u lx' where sc: "scan_token c lx = (k, u, lx')" "lx_rest lx' = t" using assms(3) [OF lx(1)] by blast
  have "(ps_current st, ps_lexer st) = (\<lparr>tk_kind = k, tk_position = lx_pos lx, tk_lexeme = u\<rparr>, lx')"
    using lx sc(1) skip_whitespace_id [OF lx(1) assms(2)] by (simp add: next_token_def Let_def)
  then show ?thesis using sc(2) by (auto simp: sees_def)
qed

lemma at_lparen: "at st (CHR ''('' # s) \<Longrightarrow> sees st TLParen s"
  by (erule at_scan) (simp_all add: is_whitespace_def scan_token_def one_char_def)

lemma at_rparen: "at st (CHR '')'' # s) \<Longrightarrow> sees st TRParen s"
  by (erule at_scan) (simp_all add: is_whitespace_def scan_token_def one_char_def)

lemma at_comma: "at st (CHR '','' # s) \<Longrightarrow> sees st TComma s"
  by (erule at_scan) (simp_all add: is_whitespace_def scan_token_def one_char_def)

lemma at_comparisons:
  "at st (CHR ''='' # CHR ''='' # s) \<Longrightarrow> sees st TEq s"
  "at st (CHR ''!'' # CHR ''='' # s) \<Longrightarrow> sees st TNe s"
  "at st (CHR ''>'' # CHR ''='' # s) \<Longrightarrow> sees st TGe s"
  "at st (CHR ''<'' # CHR ''='' # s) \<Longrightarrow> sees st TLe s"
  "at st (CHR ''>'' # CHR '' '' # s) \<Longrightarrow> sees st TGt (CHR '' '' # s)"
  "at st (CHR ''<'' # CHR '' '' # s) \<Longrightarrow> sees st TLt (CHR '' '' # s)"
  by (erule at_scan,
      simp_all add: is_whitespace_def scan_token_def one_char_def two_chars_def peek_next_def)+

lemma string_loop_lit:
  "lx_rest lx = s @ CHR 0x27 # t \<Longrightarrow> lit_ok escaped s \<Longrightarrow>
     \<exists>u lx'. string_loop escaped lx = (s, u, lx') \<and> lx_rest lx' = t"
proof (induction s arbitrary: escaped lx)
  case Nil
  then show ?case by (simp add: string_loop_step [of lx "CHR 0x27" t])
next
  case (Cons c s)
  have "lit_ok (\<not> escaped \<and> c = CHR 0x5C) s" "escaped \<or> c = CHR 0x5C \<or> c \<noteq> CHR 0x27"
    using Cons.prems(2) by (auto split: if_splits)
  then show ?case using Cons.IH [of "lx_advance lx" "\<not> escaped \<and> c = CHR 0x5C"] Cons.prems(1)
    by (auto simp: string_loop_step)
qed

lemma at_quoted:
  assumes "at st (quoted k @ s)" and "lit_ok False k"
  shows "sees st (TStr k) s"
proof (rule at_scan [of st "CHR 0x27" "k @ CHR 0x27 # s"])
  show "at st (CHR 0x27 # k @ CHR 0x27 # s)" using assms(1) by (simp add: quoted_def)
  show "\<not> is_whitespace (CHR 0x27)" by (simp add: is_whitespace_def)
  fix lx :: lexer
  assume lx: "lx_rest lx = CHR 0x27 # k @ CHR 0x27 # s"
  obtain u lx' where "string_loop False (lx_advance lx) = (k, u, lx')" "lx_rest lx' = s"
    using string_loop_lit [of "lx_advance lx" k s False] lx assms(2) by auto
  then show "\<exists>u lx'. scan_token (CHR 0x27) lx = (TStr k, u, lx') \<and> lx_rest lx' = s"
    by (simp add: scan_token_def string_literal_def)
qed

lemma scan_while:
  assumes "lx_rest lx = w @ s" and "list_all p w" and "s = [] \<or> \<not> p (hd s)"
  shows "fst (advance_while p lx) = w" and "lx_rest (snd (advance_while p lx)) = s"
proof -
  have "takeWhile p (w @ s) = w" "dropWhile p (w @ s) = s"
    using assms(2,3) by (cases s; auto simp: list_all_iff takeWhile_append dropWhile_append)+
  then show "fst (advance_while p lx) = w" "lx_rest (snd (advance_while p lx)) = s"
    using advance_while_spec [of p lx "fst (advance_while p lx)" "snd (advance_while p lx)"] assms(1)
    by simp_all
qed

text \<open>A text that ends a word or a number before it: empty, or it starts with one of these.\<close>

definition delimited :: "string \<Rightarrow> bool" where
  "delimited s = (s = [] \<or> hd s \<in> {CHR '' '', CHR ''('', CHR '')'', CHR '',''})"

lemma delimited_simps [simp]:
  "delimited []" "delimited (CHR '' '' # s)" "delimited (CHR ''('' # s)" "delimited (CHR '')'' # s)"
  "delimited (CHR '','' # s)"
  by (simp_all add: delimited_def)

lemma delimiters_stop:
  assumes "delimited s"
  shows "s = [] \<or> \<not> is_word_char (hd s)" "s = [] \<or> \<not> is_ascii_digit (hd s)"
  using assms by (auto simp: delimited_def is_word_char_def is_alphanumeric_def is_ascii_digit_def
      is_ascii_letter_def)

lemma nonspace_word: "is_ascii_letter c \<or> is_ascii_digit c \<or> c = CHR ''_'' \<Longrightarrow> \<not> is_whitespace c"
  by (auto simp: is_ascii_letter_def is_ascii_digit_def is_whitespace_def Let_def)

lemma letter_not_punct:
  assumes "is_ascii_letter c"
  shows "c \<noteq> CHR ''(''" "c \<noteq> CHR '')''" "c \<noteq> CHR '',''" "c \<noteq> CHR ''=''" "c \<noteq> CHR ''!''" "c \<noteq> CHR ''>''"
    "c \<noteq> CHR ''<''" "c \<noteq> CHR 0x27" "\<not> is_ascii_digit c"
  using assms by (auto simp: is_ascii_letter_def is_ascii_digit_def Let_def)

lemma digit_not_punct:
  assumes "is_ascii_digit c"
  shows "c \<noteq> CHR ''(''" "c \<noteq> CHR '')''" "c \<noteq> CHR '',''" "c \<noteq> CHR ''=''" "c \<noteq> CHR ''!''" "c \<noteq> CHR ''>''"
    "c \<noteq> CHR ''<''" "c \<noteq> CHR 0x27"
  using assms by (auto simp: is_ascii_digit_def Let_def)

lemma at_word:
  assumes "at st (w @ s)" and "w \<noteq> []" "is_ascii_letter (hd w)" "list_all is_word_char w" "delimited s"
  shows "sees st (keyword_kind w) s"
proof -
  obtain c w' where w: "w = c # w'" using assms(2) by (cases w) auto
  have c: "is_ascii_letter c" using assms(3) w by simp
  show ?thesis
  proof (rule at_scan [of st c "w' @ s"])
    show "at st (c # w' @ s)" using assms(1) w by simp
    show "\<not> is_whitespace c" using nonspace_word c by blast
    fix lx :: lexer
    assume lx: "lx_rest lx = c # w' @ s"
    note sw = scan_while [of lx w s is_word_char]
    have "scan_token c lx = identifier_or_keyword lx"
      using letter_not_punct [OF c] c by (simp add: scan_token_def)
    then show "\<exists>u lx'. scan_token c lx = (keyword_kind w, u, lx') \<and> lx_rest lx' = s"
      using sw lx assms(4) delimiters_stop(1) [OF assms(5)]
      by (auto simp: identifier_or_keyword_def w split: prod.splits)
  qed
qed

lemma at_number:
  assumes "at st (nat_to_string (nat k) @ s)" and "int_ok k" "delimited s"
  shows "sees st (TInt k) s"
proof -
  let ?w = "nat_to_string (nat k)"
  have ds: "list_all is_ascii_digit ?w" "?w \<noteq> []" using nat_to_string_digits by auto
  obtain c w' where w: "?w = c # w'" using ds(2) by (cases ?w) auto
  have c: "is_ascii_digit c" using ds(1) w by simp
  have val: "parse_i32 ?w = Some k"
    using assms(2) by (simp add: parse_int_digits [OF ds(2,1)] int_ok_def)
  show ?thesis
  proof (rule at_scan [of st c "w' @ s"])
    show "at st (c # w' @ s)" using assms(1) w by simp
    show "\<not> is_whitespace c" using nonspace_word c by blast
    fix lx :: lexer
    assume lx: "lx_rest lx = c # w' @ s"
    have sw: "fst (advance_while is_ascii_digit lx) = ?w"
        "lx_rest (snd (advance_while is_ascii_digit lx)) = s"
      using scan_while [of lx ?w s is_ascii_digit] lx w ds delimiters_stop(2) [OF assms(3)] by auto
    have "scan_token c lx = integer_token lx"
      using digit_not_punct [OF c] c by (simp add: scan_token_def)
    moreover have "integer_token lx = (TInt k, ?w, snd (advance_while is_ascii_digit lx))"
      unfolding integer_token_def Let_def case_prod_beta sw(1) val option.case by (rule refl)
    ultimately show "\<exists>u lx'. scan_token c lx = (TInt k, u, lx') \<and> lx_rest lx' = s" using sw(2) by simp
  qed
qed

lemma word_facts:
  "is_ascii_letter (hd (field_name f))" "list_all is_word_char (field_name f)" "field_name f \<noteq> []"
  "keyword_kind (field_name f) = TIdent (field_name f)" "plain_ident (field_name f) = EField f"
  by (cases f; simp add: is_ascii_letter_def is_word_char_def is_alphanumeric_def keyword_kind_def
      plain_ident_def)+

text \<open>A concrete word.\<close>

lemma at_keyword:
  assumes "at st (w @ s)" and "delimited s"
    and "w \<in> {''true'', ''false'', ''and'', ''or'', ''not'', ''contains_fact'', ''fact'', ''stdout_contains'',
      ''any_fact'', ''all_fact'', ''count_fact'', ''stderr_contains'', ''stderr_matches'', ''duration_lt'',
      ''duration_gt''}"
  shows "sees st (keyword_kind w) s"
proof (rule at_word [OF assms(1) _ _ _ assms(2)])
  show "w \<noteq> []" "is_ascii_letter (hd w)" using assms(3) by (auto simp: is_ascii_letter_def)
  show "list_all is_word_char w"
    using assms(3) by (auto simp: is_word_char_def is_alphanumeric_def is_ascii_letter_def)
qed

subsection \<open>Parsing what was printed\<close>

text \<open>
  \<open>reaches r x s\<close>: the outcome \<open>r\<close>, unless it ran out of fuel, is the value \<open>x\<close> with the parser at the
  text \<open>s\<close>. \<open>closes s\<close>: what follows a complete expression.
\<close>

definition reaches :: "'a outcome \<Rightarrow> 'a \<Rightarrow> string \<Rightarrow> bool" where
  "reaches r x s = (r = None \<or> (\<exists>st. at st s \<and> r = ret x st))"

definition closes :: "string \<Rightarrow> bool" where
  "closes s = (s = [] \<or> hd s \<in> {CHR '')'', CHR '',''})"

lemma reaches_None [simp]: "reaches None x s"
  by (simp add: reaches_def)

lemma reaches_ret [intro]: "at st s \<Longrightarrow> reaches (ret x st) x s"
  by (auto simp: reaches_def)

lemma reaches_bind:
  assumes "reaches m x s" and "\<And>st. at st s \<Longrightarrow> reaches (f x st) y t"
  shows "reaches (out_bind m f) y t"
proof -
  consider "m = None" | st where "m = ret x st" "at st s" using assms(1) by (auto simp: reaches_def)
  then show ?thesis by cases (simp_all add: assms(2))
qed

lemma closes_delimited: "closes s \<Longrightarrow> delimited s"
  by (auto simp: closes_def delimited_def)

lemma closes_kind:
  assumes "at st s" "closes s"
  shows "cur st \<in> {TEof, TRParen, TComma}"
proof (cases s)
  case Nil
  then show ?thesis using at_eof assms(1) by simp
next
  case (Cons c s')
  then show ?thesis
    using assms at_rparen [of st s'] at_comma [of st s'] by (auto simp: closes_def sees_def)
qed

lemma at_literal:
  assumes "at st (pr n a @ s)" "a = EStr k \<and> lit_ok False k \<or> a = EInt m \<and> int_ok m" "delimited s"
  shows "cur st \<noteq> TRParen"
  using assms at_quoted [of st k s] at_number [of st m s] by (auto simp: sees_def)

locale printed_parser =
  fixes rx :: regex_crate and pexpr :: "parser \<Rightarrow> expr outcome"
  assumes pexpr_reaches:
    "at st (pr 0 e @ s) \<Longrightarrow> expr_ok rx e \<Longrightarrow> closes s \<Longrightarrow> reaches (pexpr st) e s"
begin

lemma args_loop_reaches:
  assumes "at st (concat (map (\<lambda>a. '', '' @ pr 0 a) as) @ '')'' @ s)" "list_all (expr_ok rx) as"
  shows "reaches (args_loop pexpr n acc st) (acc @ as) ('')'' @ s)"
  using assms
proof (induction as arbitrary: n acc st)
  case Nil
  then have "sees st TRParen s" using at_rparen by simp
  then show ?case using Nil by (cases n) (auto simp: sees_def)
next
  case (Cons a as)
  let ?rest = "concat (map (\<lambda>a. '', '' @ pr 0 a) as) @ '')'' @ s"
  have "sees st TComma (CHR '' '' # pr 0 a @ ?rest)" using Cons.prems(1) by (intro at_comma) simp
  then have c: "cur st = TComma" "at (ps_advance st) (pr 0 a @ ?rest)"
    using sees_advance at_space by blast+
  have "closes ?rest" by (cases as) (simp_all add: closes_def)
  with c(2) have "reaches (pexpr (ps_advance st)) a ?rest"
    using pexpr_reaches Cons.prems(2) by simp
  then show ?case
    using c(1) Cons.IH [of _ _ "acc @ [a]"] Cons.prems(2)
    by (cases n) (auto intro!: reaches_bind)
qed

lemma call_args_reaches:
  assumes "at st (''('' @ pr 0 a @ concat (map (\<lambda>a. '', '' @ pr 0 a) as) @ '')'' @ s)"
    and "a = EStr k \<and> lit_ok False k \<or> a = EInt m \<and> int_ok m" "list_all (expr_ok rx) (a # as)"
  shows "cur st = TLParen" "reaches (parse_call_args pexpr n (ps_advance st)) (a # as) ('')'' @ s)"
proof -
  let ?rest = "concat (map (\<lambda>a. '', '' @ pr 0 a) as) @ '')'' @ s"
  have "sees st TLParen (pr 0 a @ ?rest)" using assms(1) by (intro at_lparen) simp
  then have c: "cur st = TLParen" "at (ps_advance st) (pr 0 a @ ?rest)" using sees_advance by blast+
  have cl: "closes ?rest" by (cases as) (simp_all add: closes_def)
  have ne: "cur (ps_advance st) \<noteq> TRParen"
    by (rule at_literal [OF c(2) assms(2) closes_delimited [OF cl]])
  have "reaches (pexpr (ps_advance st)) a ?rest" using pexpr_reaches c(2) cl assms(3) by simp
  then show "reaches (parse_call_args pexpr n (ps_advance st)) (a # as) ('')'' @ s)"
    unfolding parse_call_args_def
    using ne args_loop_reaches [of _ as s _ "[a]"] assms(3) by (auto intro: reaches_bind)
  show "cur st = TLParen" by (rule c(1))
qed

lemma call_reaches:
  assumes "at st (''('' @ pr 0 a @ concat (map (\<lambda>a. '', '' @ pr 0 a) as) @ '')'' @ s)"
    and "a = EStr k \<and> lit_ok False k \<or> a = EInt m \<and> int_ok m" "list_all (expr_ok rx) (a # as)"
    and "build_call rx name (a # as) = Inr e"
  shows "reaches (parse_ident_or_call rx pexpr n name st) e s"
proof -
  note args = call_args_reaches [OF assms(1-3)]
  from args(2) have "reaches (out_bind (parse_call_args pexpr n (ps_advance st)) (\<lambda>args st1.
      if cur st1 \<noteq> TRParen then Some (Err (unexpected '')'' st1))
      else (case build_call rx name args of
              Inl e \<Rightarrow> Some (Err e) | Inr e \<Rightarrow> ret e (ps_advance st1)))) e s"
  proof (rule reaches_bind)
    fix st1
    assume "at st1 ('')'' @ s)"
    then have "sees st1 TRParen s" by (intro at_rparen) simp
    then show "reaches (if cur st1 \<noteq> TRParen then Some (Err (unexpected '')'' st1))
      else (case build_call rx name (a # as) of
              Inl e \<Rightarrow> Some (Err e) | Inr e \<Rightarrow> ret e (ps_advance st1))) e s"
      using sees_advance [of st1] assms(4) by auto
  qed
  then show ?thesis using args(1) by (simp add: parse_ident_or_call_def)
qed

end

text \<open>What may follow an operand of a comparison, an operand of \<open>and\<close>, an operand of \<open>or\<close>.\<close>

definition follow4 :: "string \<Rightarrow> bool" where
  "follow4 s = (closes s \<or> (\<exists>w t. s = '' '' @ w @ '' '' @ t
     \<and> w \<in> {''and'', ''or'', ''=='', ''!='', ''>'', ''<'', ''>='', ''<=''}))"

definition follow3 :: "string \<Rightarrow> bool" where
  "follow3 s = (closes s \<or> (\<exists>w t. s = '' '' @ w @ '' '' @ t \<and> w \<in> {''and'', ''or''}))"

definition follow1 :: "string \<Rightarrow> bool" where
  "follow1 s = (closes s \<or> (\<exists>t. s = '' '' @ ''or'' @ '' '' @ t))"

lemma follow_mono: "follow1 s \<Longrightarrow> follow3 s" "follow3 s \<Longrightarrow> follow4 s"
  unfolding follow1_def follow3_def follow4_def by blast+

lemma follow4_infix:
  "w \<in> {''and'', ''or'', ''=='', ''!='', ''>'', ''<'', ''>='', ''<=''} \<Longrightarrow> follow4 ('' '' @ w @ '' '' @ t)"
  unfolding follow4_def by (rule disjI2, rule exI [of _ w], rule exI [of _ t]) simp

lemma follow_delimited: "follow4 s \<Longrightarrow> delimited s"
  by (auto simp: follow4_def closes_delimited)

lemma at_infix:
  assumes "at st ('' '' @ w @ '' '' @ t)"
  shows "w = ''and'' \<Longrightarrow> sees st TAnd ('' '' @ t)" "w = ''or'' \<Longrightarrow> sees st TOr ('' '' @ t)"
    "w = ''=='' \<Longrightarrow> sees st TEq ('' '' @ t)" "w = ''!='' \<Longrightarrow> sees st TNe ('' '' @ t)"
    "w = ''>'' \<Longrightarrow> sees st TGt ('' '' @ t)" "w = ''<'' \<Longrightarrow> sees st TLt ('' '' @ t)"
    "w = ''>='' \<Longrightarrow> sees st TGe ('' '' @ t)" "w = ''<='' \<Longrightarrow> sees st TLe ('' '' @ t)"
proof -
  have a: "at st (w @ '' '' @ t)" using assms at_space by simp
  show "w = ''and'' \<Longrightarrow> sees st TAnd ('' '' @ t)" "w = ''or'' \<Longrightarrow> sees st TOr ('' '' @ t)"
    using at_keyword [OF a] by (simp_all add: keyword_kind_def)
  show "w = ''=='' \<Longrightarrow> sees st TEq ('' '' @ t)" "w = ''!='' \<Longrightarrow> sees st TNe ('' '' @ t)"
    "w = ''>'' \<Longrightarrow> sees st TGt ('' '' @ t)" "w = ''<'' \<Longrightarrow> sees st TLt ('' '' @ t)"
    "w = ''>='' \<Longrightarrow> sees st TGe ('' '' @ t)" "w = ''<='' \<Longrightarrow> sees st TLe ('' '' @ t)"
    using a at_comparisons by simp_all
qed

lemma follow4_kind:
  assumes "at st s" "follow4 s"
  shows "cur st \<in> {TEof, TRParen, TComma, TAnd, TOr, TEq, TNe, TGt, TLt, TGe, TLe}"
proof (cases "closes s")
  case True
  then show ?thesis using closes_kind [OF assms(1)] by auto
next
  case False
  then obtain w t where s: "s = '' '' @ w @ '' '' @ t"
      and w: "w \<in> {''and'', ''or'', ''=='', ''!='', ''>'', ''<'', ''>='', ''<=''}"
    using assms(2) by (auto simp: follow4_def)
  note inf = at_infix [OF assms(1) [unfolded s]]
  show ?thesis using w inf by (auto simp: sees_def)
qed

lemma follow3_kind:
  assumes "at st s" "follow3 s"
  shows "cur st \<in> {TEof, TRParen, TComma, TAnd, TOr}"
proof (cases "closes s")
  case True
  then show ?thesis using closes_kind [OF assms(1)] by auto
next
  case False
  then obtain w t where s: "s = '' '' @ w @ '' '' @ t" and w: "w \<in> {''and'', ''or''}"
    using assms(2) by (auto simp: follow3_def)
  note inf = at_infix [OF assms(1) [unfolded s]]
  show ?thesis using w inf by (auto simp: sees_def)
qed

lemma follow1_kind:
  assumes "at st s" "follow1 s"
  shows "cur st \<in> {TEof, TRParen, TComma, TOr}"
proof (cases "closes s")
  case True
  then show ?thesis using closes_kind [OF assms(1)] by auto
next
  case False
  then obtain t where s: "s = '' '' @ ''or'' @ '' '' @ t" using assms(2) unfolding follow1_def by blast
  show ?thesis using at_infix(2) [OF assms(1) [unfolded s]] by (simp add: sees_def)
qed

fun compound :: "expr \<Rightarrow> bool" where
  "compound (EEq l r) = True" | "compound (ENe l r) = True" | "compound (EGt l r) = True"
| "compound (ELt l r) = True" | "compound (EGe l r) = True" | "compound (ELe l r) = True"
| "compound (EAnd l r) = True" | "compound (EOr l r) = True" | "compound (ENot e) = True"
| "compound e = False"

lemma pr_compound: "compound e \<Longrightarrow> pr 4 e = ''('' @ pr 0 e @ '')''"
  by (cases e) (simp_all add: paren_if_def)

lemma comp_op_lit: "lit_ok False (comp_op_string op)"
  by (cases op) simp_all

lemma comp_op_parse: "parse_comp_op_from_expr (EStr (comp_op_string op)) = Inr op"
  by (cases op) (simp_all add: parse_comp_op_from_expr_def)

lemma call_keywords:
  "keyword_kind ''contains_fact'' = TIdent ''contains_fact''" "keyword_kind ''fact'' = TIdent ''fact''"
  "keyword_kind ''stdout_contains'' = TIdent ''stdout_contains''"
  "keyword_kind ''stderr_contains'' = TIdent ''stderr_contains''"
  "keyword_kind ''stderr_matches'' = TIdent ''stderr_matches''"
  "keyword_kind ''duration_lt'' = TIdent ''duration_lt''" "keyword_kind ''duration_gt'' = TDurationGt"
  "keyword_kind ''any_fact'' = TAnyFact" "keyword_kind ''all_fact'' = TAllFact"
  "keyword_kind ''count_fact'' = TCountFact"
  by (simp_all add: keyword_kind_def)

lemma primary_call:
  assumes "cur st = keyword_kind name"
    and "name \<in> {''contains_fact'', ''fact'', ''stdout_contains'', ''stderr_contains'', ''stderr_matches'',
      ''duration_lt'', ''duration_gt'', ''any_fact'', ''all_fact'', ''count_fact''}"
  shows "parse_primary rx pexpr n st = parse_ident_or_call rx pexpr n name (ps_advance st)"
  using assms(2,1)
  by (elim insertE emptyE) (simp_all only: parse_primary_def call_keywords token_kind.case)

context printed_parser
begin

lemma paren_reaches:
  assumes "at st (''('' @ pr 0 e @ '')'' @ s)" "expr_ok rx e"
  shows "reaches (parse_primary rx pexpr n st) e s"
proof -
  have "sees st TLParen (pr 0 e @ '')'' @ s)" using assms(1) by (intro at_lparen) simp
  then have c: "cur st = TLParen" "at (ps_advance st) (pr 0 e @ '')'' @ s)" using sees_advance by blast+
  have "reaches (pexpr (ps_advance st)) e ('')'' @ s)"
    using pexpr_reaches [OF c(2) assms(2)] by (simp add: closes_def)
  then have "reaches (out_bind (pexpr (ps_advance st)) (\<lambda>e st1.
      if cur st1 \<noteq> TRParen then Some (Err (unexpected '')'' st1)) else ret e (ps_advance st1))) e s"
  proof (rule reaches_bind)
    fix st1
    assume "at st1 ('')'' @ s)"
    then have "sees st1 TRParen s" by (intro at_rparen) simp
    then show "reaches (if cur st1 \<noteq> TRParen then Some (Err (unexpected '')'' st1))
        else ret e (ps_advance st1)) e s"
      using sees_advance [of st1] by auto
  qed
  then show ?thesis using c(1) by (simp add: parse_primary_def)
qed

lemma call1_reaches:
  assumes "at st (call1 name (pr 0 a) @ s)" and name: "name \<in> {''contains_fact'', ''fact'',
      ''stdout_contains'', ''stderr_contains'', ''stderr_matches'', ''duration_lt'', ''duration_gt''}"
    and a: "a = EStr k \<and> lit_ok False k \<or> a = EInt m \<and> int_ok m"
    and build: "build_call rx name [a] = Inr e"
  shows "reaches (parse_primary rx pexpr n st) e s"
proof -
  have at: "at st (name @ ''('' @ pr 0 a @ '')'' @ s)" using assms(1) by (simp add: call1_def)
  have "sees st (keyword_kind name) (''('' @ pr 0 a @ '')'' @ s)"
    by (rule at_keyword [OF at], simp) (use name in \<open>elim insertE emptyE; simp\<close>)
  then have c: "cur st = keyword_kind name" "at (ps_advance st) (''('' @ pr 0 a @ '')'' @ s)"
    using sees_advance by blast+
  have "parse_primary rx pexpr n st = parse_ident_or_call rx pexpr n name (ps_advance st)"
    by (rule primary_call [OF c(1)]) (use name in \<open>elim insertE emptyE; simp\<close>)
  moreover have "expr_ok rx a" using a by auto
  ultimately show ?thesis
    using call_reaches [of "ps_advance st" a "[]" s k m, OF _ a _ build] c(2) by simp
qed

lemma call3_reaches:
  assumes "at st (call3 name (pr 0 a) (pr 0 b) (pr 0 c) @ s)"
    and name: "name \<in> {''any_fact'', ''all_fact'', ''count_fact''}"
    and a: "a = EStr k \<and> lit_ok False k" and bc: "expr_ok rx b" "expr_ok rx c"
    and build: "build_call rx name [a, b, c] = Inr e"
  shows "reaches (parse_primary rx pexpr n st) e s"
proof -
  let ?rest = "''('' @ pr 0 a @ concat (map (\<lambda>a. '', '' @ pr 0 a) [b, c]) @ '')'' @ s"
  have at: "at st (name @ ?rest)" using assms(1) by (simp add: call3_def)
  have "sees st (keyword_kind name) ?rest" by (rule at_keyword [OF at], simp) (use name in \<open>elim insertE emptyE; simp\<close>)
  then have c: "cur st = keyword_kind name" "at (ps_advance st) ?rest" using sees_advance by blast+
  have "parse_primary rx pexpr n st = parse_ident_or_call rx pexpr n name (ps_advance st)"
    by (rule primary_call [OF c(1)]) (use name in \<open>elim insertE emptyE; simp\<close>)
  then show ?thesis
    using call_reaches [OF c(2) _ _ build, of k 0 n] a bc by simp
qed

end

lemma bool_keyword: "keyword_kind (bool_to_string b) = TBool b"
  by (cases b) (simp_all add: keyword_kind_def bool_to_string_def)

lemma at_bool:
  assumes "at st (bool_to_string b @ s)" "delimited s"
  shows "sees st (TBool b) s"
  using at_keyword [OF assms] by (cases b) (simp_all add: bool_to_string_def keyword_kind_def)

lemma build_calls:
  "build_call rx ''contains_fact'' [EStr k] = Inr (EContainsFact k)"
  "build_call rx ''fact'' [EStr k] = Inr (EFact k)"
  "build_call rx ''stdout_contains'' [EStr k] = Inr (EStdoutContains k)"
  "build_call rx ''stderr_contains'' [EStr k] = Inr (EStderrContains k)"
  "is_ok (rx k) \<Longrightarrow> build_call rx ''stderr_matches'' [EStr k] = Inr (EStderrMatches k)"
  "build_call rx ''duration_lt'' [EInt m] = Inr (EDurationLt m)"
  "build_call rx ''duration_gt'' [EInt m] = Inr (EDurationGt m)"
  "build_call rx ''any_fact'' [EStr k, EStr (comp_op_string op), EStr v] = Inr (EAnyFact k op v)"
  "build_call rx ''all_fact'' [EStr k, EStr (comp_op_string op), EStr v] = Inr (EAllFact k op v)"
  "build_call rx ''count_fact'' [EStr k, EStr (comp_op_string op), EInt m] = Inr (ECountFact k op m)"
  by (simp_all add: build_call_def str_arg_def int_arg_def comp_op_parse)
    (auto simp: is_ok_iff)

context printed_parser
begin

lemma literal_reaches:
  assumes "sees st k s"
  shows "k = TBool b \<Longrightarrow> reaches (parse_primary rx pexpr n st) (EBool b) s"
    and "k = TInt i \<Longrightarrow> reaches (parse_primary rx pexpr n st) (EInt i) s"
    and "k = TStr u \<Longrightarrow> reaches (parse_primary rx pexpr n st) (EStr u) s"
  using sees_advance [OF assms] by (auto simp: parse_primary_def)

lemma field_reaches:
  assumes "at st (field_name f @ s)" "follow4 s"
  shows "reaches (parse_primary rx pexpr n st) (EField f) s"
proof -
  have "sees st (TIdent (field_name f)) s"
    using at_word [OF assms(1) word_facts(3,1,2) follow_delimited [OF assms(2)]] word_facts(4) by simp
  then have c: "cur st = TIdent (field_name f)" "at (ps_advance st) s" using sees_advance by blast+
  have "cur (ps_advance st) \<noteq> TLParen" using follow4_kind [OF c(2) assms(2)] by auto
  then have "parse_primary rx pexpr n st = ret (EField f) (ps_advance st)"
    using c(1) by (simp add: parse_primary_def parse_ident_or_call_def word_facts(5))
  then show ?thesis using c(2) by auto
qed

lemma primary_reaches:
  assumes at: "at st (pr 4 e @ s)" and ok: "expr_ok rx e" and f: "follow4 s"
  shows "reaches (parse_primary rx pexpr n st) e s"
proof (cases "compound e")
  case True
  then show ?thesis using paren_reaches [of st e s] at ok by (simp add: pr_compound)
next
  case False
  note d = follow_delimited [OF f]
  show ?thesis
  proof (cases e)
    case (EBool b)
    then show ?thesis using at literal_reaches(1) [OF at_bool [OF _ d]] by simp
  next
    case (EInt i)
    then show ?thesis using at ok literal_reaches(2) [OF at_number [OF _ _ d]] by simp
  next
    case (EStr u)
    then show ?thesis using at ok literal_reaches(3) [OF at_quoted] by simp
  next
    case (EField fl)
    then show ?thesis using at field_reaches f by simp
  next
    case (EContainsFact k)
    then show ?thesis using at ok call1_reaches [of st "''contains_fact''" "EStr k" s k 0 e n]
      by (simp add: build_calls)
  next
    case (EFact k)
    then show ?thesis using at ok call1_reaches [of st "''fact''" "EStr k" s k 0 e n]
      by (simp add: build_calls)
  next
    case (EStdoutContains k)
    then show ?thesis using at ok call1_reaches [of st "''stdout_contains''" "EStr k" s k 0 e n]
      by (simp add: build_calls)
  next
    case (EStderrContains k)
    then show ?thesis using at ok call1_reaches [of st "''stderr_contains''" "EStr k" s k 0 e n]
      by (simp add: build_calls)
  next
    case (EStderrMatches k)
    then show ?thesis using at ok call1_reaches [of st "''stderr_matches''" "EStr k" s k 0 e n]
      by (simp add: build_calls)
  next
    case (EDurationLt m)
    then show ?thesis using at ok call1_reaches [of st "''duration_lt''" "EInt m" s "[]" m e n]
      by (simp add: build_calls)
  next
    case (EDurationGt m)
    then show ?thesis using at ok call1_reaches [of st "''duration_gt''" "EInt m" s "[]" m e n]
      by (simp add: build_calls)
  next
    case (EAnyFact k op v)
    then show ?thesis using at ok comp_op_lit [of op]
        call3_reaches [of st "''any_fact''" "EStr k" "EStr (comp_op_string op)" "EStr v" s k e n]
      by (simp add: build_calls)
  next
    case (EAllFact k op v)
    then show ?thesis using at ok comp_op_lit [of op]
        call3_reaches [of st "''all_fact''" "EStr k" "EStr (comp_op_string op)" "EStr v" s k e n]
      by (simp add: build_calls)
  next
    case (ECountFact k op m)
    then show ?thesis using at ok comp_op_lit [of op]
        call3_reaches [of st "''count_fact''" "EStr k" "EStr (comp_op_string op)" "EInt m" s k e n]
      by (simp add: build_calls)
  qed (use False in simp_all)
qed

end

lemma pr_levels:
  "pr 2 e = pr 3 e \<or> (\<exists>x. e = ENot x)" "pr 1 e = pr 2 e \<or> (\<exists>l r. e = EAnd l r)"
  "pr 0 e = pr 1 e \<or> (\<exists>l r. e = EOr l r)"
  by (cases e; simp add: paren_if_def)+

lemma reaches_not_error: "\<not> reaches (Some (Inl x)) e s"
  by (simp add: reaches_def ret_def)

context printed_parser
begin

lemma primary_not_TNot:
  assumes "at st (pr 4 e @ s)" "expr_ok rx e" "follow4 s"
  shows "cur st \<noteq> TNot"
  using primary_reaches [OF assms, of 0] by (auto simp: parse_primary_def reaches_not_error)

text \<open>A comparison whose operator, the word \<open>w\<close>, is read as the token \<open>k\<close>.\<close>

lemma operator_reaches:
  assumes at: "at st (pr 4 l @ '' '' @ w @ '' '' @ pr 4 r @ s)" and ok: "expr_ok rx l" "expr_ok rx r"
    and s: "follow3 s" and w: "w \<in> {''=='', ''!='', ''>'', ''<'', ''>='', ''<=''}"
    and k: "\<And>st t. at st ('' '' @ w @ '' '' @ t) \<Longrightarrow> sees st k ('' '' @ t)" "comparison k = Some mk"
  shows "reaches (parse_comparison rx pexpr n st) (mk l r) s" and "cur st \<noteq> TNot"
proof -
  let ?s = "'' '' @ w @ '' '' @ pr 4 r @ s"
  have f: "follow4 ?s" by (rule follow4_infix) (use w in \<open>elim insertE emptyE; simp\<close>)
  show "cur st \<noteq> TNot" by (rule primary_not_TNot [OF at ok(1) f])
  show "reaches (parse_comparison rx pexpr n st) (mk l r) s"
    unfolding parse_comparison_def
  proof (rule reaches_bind [OF primary_reaches [OF at ok(1) f]])
    fix st1
    assume "at st1 ?s"
    then have "sees st1 k ('' '' @ pr 4 r @ s)" by (rule k(1))
    then have c: "cur st1 = k" "at (ps_advance st1) (pr 4 r @ s)"
      using sees_advance at_space by fastforce+
    have "reaches (parse_primary rx pexpr n (ps_advance st1)) r s"
      by (rule primary_reaches [OF c(2) ok(2) follow_mono(2) [OF s]])
    then have "reaches (out_bind (parse_primary rx pexpr n (ps_advance st1)) (\<lambda>right. ret (mk l right)))
        (mk l r) s"
      by (rule reaches_bind) auto
    then show "reaches (case comparison (cur st1) of None \<Rightarrow> ret l st1 | Some mk \<Rightarrow>
        out_bind (parse_primary rx pexpr n (ps_advance st1)) (\<lambda>right. ret (mk l right))) (mk l r) s"
      using c(1) k(2) by simp
  qed
qed

lemma comparison_reaches:
  assumes at: "at st (pr 3 e @ s)" and ok: "expr_ok rx e" and s: "follow3 s"
  shows "reaches (parse_comparison rx pexpr n st) e s \<and> cur st \<noteq> TNot"
proof -
  have cmp: ?thesis
    if "pr 3 e = pr 4 l @ '' '' @ w @ '' '' @ pr 4 r" "e = mk l r" "expr_ok rx l" "expr_ok rx r"
      "w \<in> {''=='', ''!='', ''>'', ''<'', ''>='', ''<=''}"
      "\<And>st t. at st ('' '' @ w @ '' '' @ t) \<Longrightarrow> sees st k ('' '' @ t)" "comparison k = Some mk"
    for l r w k mk
    using operator_reaches(1) [OF _ that(3,4) s that(5,6,7), of st n]
      operator_reaches(2) [OF _ that(3,4) s that(5,6,7), of st] at that(1,2) by simp
  show ?thesis
  proof (cases "pr 3 e = pr 4 e")
    case True
    note f = follow_mono(2) [OF s]
    have "reaches (parse_comparison rx pexpr n st) e s"
      unfolding parse_comparison_def
    proof (rule reaches_bind [OF primary_reaches [OF _ ok f]])
      show "at st (pr 4 e @ s)" using at True by simp
      fix st1
      assume st1: "at st1 s"
      then have "comparison (cur st1) = None"
        using follow3_kind [OF st1 s] by (auto simp: comparison_def)
      then show "reaches (case comparison (cur st1) of None \<Rightarrow> ret e st1 | Some mk \<Rightarrow>
          out_bind (parse_primary rx pexpr n (ps_advance st1)) (\<lambda>right. ret (mk e right))) e s"
        using st1 by auto
    qed
    then show ?thesis using primary_not_TNot [OF _ ok f] at True by simp
  next
    case False
    then show ?thesis
    proof (cases e)
      case (EEq l r)
      show ?thesis by (rule cmp [of l "''==''" r EEq TEq])
          (use EEq ok at_infix(3) in \<open>simp_all add: paren_if_def comparison_def\<close>)
    next
      case (ENe l r)
      show ?thesis by (rule cmp [of l "''!=''" r ENe TNe])
          (use ENe ok at_infix(4) in \<open>simp_all add: paren_if_def comparison_def\<close>)
    next
      case (EGt l r)
      show ?thesis by (rule cmp [of l "''>''" r EGt TGt])
          (use EGt ok at_infix(5) in \<open>simp_all add: paren_if_def comparison_def\<close>)
    next
      case (ELt l r)
      show ?thesis by (rule cmp [of l "''<''" r ELt TLt])
          (use ELt ok at_infix(6) in \<open>simp_all add: paren_if_def comparison_def\<close>)
    next
      case (EGe l r)
      show ?thesis by (rule cmp [of l "''>=''" r EGe TGe])
          (use EGe ok at_infix(7) in \<open>simp_all add: paren_if_def comparison_def\<close>)
    next
      case (ELe l r)
      show ?thesis by (rule cmp [of l "''<=''" r ELe TLe])
          (use ELe ok at_infix(8) in \<open>simp_all add: paren_if_def comparison_def\<close>)
    qed (use False in \<open>simp_all add: paren_if_def\<close>)
  qed
qed

lemma not_reaches:
  "at st (pr 2 e @ s) \<Longrightarrow> expr_ok rx e \<Longrightarrow> follow3 s \<Longrightarrow> reaches (parse_not rx pexpr n st) e s"
proof (induction n arbitrary: e st)
  case (Suc n)
  show ?case
  proof (cases "\<exists>x. e = ENot x")
    case True
    then obtain x where e: "e = ENot x" by blast
    have "sees st (keyword_kind ''not'') ('' '' @ pr 2 x @ s)"
      by (rule at_keyword) (use Suc.prems(1) e in \<open>simp_all add: paren_if_def\<close>)
    then have c: "cur st = TNot" "at (ps_advance st) (pr 2 x @ s)"
      using sees_advance at_space by (fastforce simp: keyword_kind_def)+
    have "reaches (parse_not rx pexpr n (ps_advance st)) x s"
      using Suc.IH [OF c(2)] Suc.prems e by simp
    then have "reaches (out_bind (parse_not rx pexpr n (ps_advance st)) (\<lambda>i. ret (ENot i))) (ENot x) s"
      by (rule reaches_bind) auto
    then show ?thesis using c(1) e by simp
  next
    case False
    then have "pr 2 e = pr 3 e" using pr_levels(1) by blast
    then show ?thesis using comparison_reaches [of st e s n] Suc.prems by simp
  qed
qed simp

end

context printed_parser
begin

lemma and_loop_done:
  "at st s \<Longrightarrow> follow1 s \<Longrightarrow> reaches (and_loop rx pexpr n e st) e s"
  using follow1_kind [of st s] by (cases n) auto

lemma and_operand:
  assumes "at st (pr 2 e @ s)" "expr_ok rx e" "follow3 s"
  shows "parse_and rx pexpr n st = None
     \<or> (\<exists>m st1. at st1 s \<and> parse_and rx pexpr n st = and_loop rx pexpr m e st1)"
proof -
  consider "parse_not rx pexpr n st = None" | st1 where "at st1 s" "parse_not rx pexpr n st = ret e st1"
    using not_reaches [OF assms, of n] by (auto simp: reaches_def)
  then show ?thesis by cases (auto simp: parse_and_def)
qed

text \<open>\<open>parse_and\<close> on the text of \<open>e\<close> ends up in its loop with \<open>e\<close> in hand.\<close>

lemma and_reaches_loop:
  "at st (pr 1 e @ s) \<Longrightarrow> expr_ok rx e \<Longrightarrow> follow3 s \<Longrightarrow>
     parse_and rx pexpr n st = None
     \<or> (\<exists>m st1. at st1 s \<and> parse_and rx pexpr n st = and_loop rx pexpr m e st1)"
proof (induction e arbitrary: s rule: measure_induct_rule [of size])
  case (less e)
  show ?case
  proof (cases "pr 1 e = pr 2 e")
    case True
    then show ?thesis using and_operand [of st e s n] less.prems by simp
  next
    case False
    then obtain l r where e: "e = EAnd l r" using pr_levels(2) by blast
    let ?s = "'' '' @ ''and'' @ '' '' @ pr 2 r @ s"
    have at: "at st (pr 1 l @ ?s)" using less.prems by (simp add: e paren_if_def)
    have "follow3 ?s" unfolding follow3_def by (rule disjI2, rule exI [of _ "''and''"]) simp
    then consider "parse_and rx pexpr n st = None"
      | m st1 where "at st1 ?s" "parse_and rx pexpr n st = and_loop rx pexpr m l st1"
      using less.IH [OF _ at] less.prems e by auto
    then show ?thesis
    proof cases
      case (2 m st1)
      have "sees st1 TAnd ('' '' @ pr 2 r @ s)" using at_infix(1) [OF 2(1)] by simp
      then have c: "cur st1 = TAnd" "at (ps_advance st1) (pr 2 r @ s)"
        using sees_advance at_space by fastforce+
      have nr: "reaches (parse_not rx pexpr k (ps_advance st1)) r s" for k
        using not_reaches [OF c(2)] less.prems e by simp
      show ?thesis
      proof (cases m)
        case 0
        then show ?thesis using 2(2) by simp
      next
        case (Suc k)
        consider "parse_not rx pexpr k (ps_advance st1) = None"
          | st2 where "at st2 s" "parse_not rx pexpr k (ps_advance st1) = ret r st2"
          using nr [of k] by (auto simp: reaches_def)
        then show ?thesis using 2(2) c(1) Suc e by cases (simp_all, blast)
      qed
    qed simp
  qed
qed

end

context printed_parser
begin

lemma and_reaches:
  assumes "at st (pr 1 e @ s)" "expr_ok rx e" "follow1 s"
  shows "reaches (parse_and rx pexpr n st) e s"
  using and_reaches_loop [OF assms(1,2) follow_mono(1) [OF assms(3)], of n]
    and_loop_done [OF _ assms(3)] by fastforce

lemma or_operand:
  assumes "at st (pr 1 e @ s)" "expr_ok rx e" "follow1 s"
  shows "parse_or rx pexpr n st = None
     \<or> (\<exists>m st1. at st1 s \<and> parse_or rx pexpr n st = or_loop rx pexpr m e st1)"
proof -
  consider "parse_and rx pexpr n st = None" | st1 where "at st1 s" "parse_and rx pexpr n st = ret e st1"
    using and_reaches [OF assms, of n] by (auto simp: reaches_def)
  then show ?thesis by cases (auto simp: parse_or_def)
qed

lemma or_reaches_loop:
  "at st (pr 0 e @ s) \<Longrightarrow> expr_ok rx e \<Longrightarrow> follow1 s \<Longrightarrow>
     parse_or rx pexpr n st = None
     \<or> (\<exists>m st1. at st1 s \<and> parse_or rx pexpr n st = or_loop rx pexpr m e st1)"
proof (induction e arbitrary: s rule: measure_induct_rule [of size])
  case (less e)
  show ?case
  proof (cases "pr 0 e = pr 1 e")
    case True
    then show ?thesis using or_operand [of st e s n] less.prems by simp
  next
    case False
    then obtain l r where e: "e = EOr l r" using pr_levels(3) by blast
    let ?s = "'' '' @ ''or'' @ '' '' @ pr 1 r @ s"
    have at: "at st (pr 0 l @ ?s)" using less.prems by (simp add: e paren_if_def)
    have "follow1 ?s" unfolding follow1_def by blast
    then consider "parse_or rx pexpr n st = None"
      | m st1 where "at st1 ?s" "parse_or rx pexpr n st = or_loop rx pexpr m l st1"
      using less.IH [OF _ at] less.prems e by auto
    then show ?thesis
    proof cases
      case (2 m st1)
      have "sees st1 TOr ('' '' @ pr 1 r @ s)" using at_infix(2) [OF 2(1)] by simp
      then have c: "cur st1 = TOr" "at (ps_advance st1) (pr 1 r @ s)"
        using sees_advance at_space by fastforce+
      have nr: "reaches (parse_and rx pexpr k (ps_advance st1)) r s" for k
        using and_reaches [OF c(2)] less.prems e by simp
      show ?thesis
      proof (cases m)
        case 0
        then show ?thesis using 2(2) by simp
      next
        case (Suc k)
        consider "parse_and rx pexpr k (ps_advance st1) = None"
          | st2 where "at st2 s" "parse_and rx pexpr k (ps_advance st1) = ret r st2"
          using nr [of k] by (auto simp: reaches_def)
        then show ?thesis using 2(2) c(1) Suc e by cases (simp_all, blast)
      qed
    qed simp
  qed
qed

lemma or_reaches:
  assumes "at st (pr 0 e @ s)" "expr_ok rx e" "closes s"
  shows "reaches (parse_or rx pexpr n st) e s"
proof -
  have "follow1 s" using assms(3) by (simp add: follow1_def)
  then consider "parse_or rx pexpr n st = None"
    | m st1 where "at st1 s" "parse_or rx pexpr n st = or_loop rx pexpr m e st1"
    using or_reaches_loop [OF assms(1,2), of n] by auto
  then show ?thesis
  proof cases
    case (2 m st1)
    then show ?thesis using closes_kind [OF 2(1) assms(3)] by (cases m) auto
  qed simp
qed

end

lemma parse_expression_printed: "printed_parser rx (parse_expression rx n)"
proof (induction n)
  case 0
  show ?case by unfold_locales simp
next
  case (Suc n)
  show ?case by unfold_locales (simp add: printed_parser.or_reaches [OF Suc])
qed

interpretation printed: printed_parser rx "parse_expression rx n"
  by (rule parse_expression_printed)

subsection \<open>Properties of the parser\<close>

lemma todo_start: "todo (parser_start input) \<le> length input + 1"
proof -
  obtain tok lx where n: "next_token (lexer_new input) = (tok, lx)" by fastforce
  have "length (lx_rest lx) \<le> length input"
    using next_token_spec [OF n] by (auto simp: consumes_def lexer_new_def)
  then show ?thesis by (simp add: todo_def parser_start_def ps_advance_def n)
qed

lemma parse_answers:
  assumes "length input + 2 \<le> n"
  shows "\<exists>r. parse_with rx n input = Some r"
proof -
  have "todo (parser_start input) < n" using todo_start [of input] assms by simp
  from pexp.pexpr_answers [OF this, of rx] show ?thesis
    by (auto simp: answers_def parse_with_def split: option.splits sum.splits)
qed

lemma parse_printed:
  assumes "expr_ok rx e"
  shows "parse rx (print_expr e) = Some (Inr e)"
proof -
  let ?n = "length (print_expr e) + 2"
  have "at (parser_start (print_expr e)) (pr 0 e @ [])"
    using at_start [of "print_expr e"] by (simp add: print_expr_def)
  from printed.pexpr_reaches [OF this assms, of ?n]
  have "reaches (parse_expression rx ?n (parser_start (print_expr e))) e []"
    by (simp add: closes_def del: parse_expression.simps)
  moreover obtain r where r: "parse_with rx ?n (print_expr e) = Some r" using parse_answers by blast
  ultimately obtain st where "at st []" "parse_expression rx ?n (parser_start (print_expr e)) = ret e st"
    by (auto simp: reaches_def parse_with_def)
  then show ?thesis using at_eof [of st] by (simp add: parse_def parse_with_def ret_def)
qed

text \<open>
  C10: the parser always answers. For every input, with any regular-expression crate, \<open>parse\<close> returns
  an expression or an error; the recursion depth and the number of loop rounds never exceed the number
  of characters by more than two.
\<close>

theorem parse_total: "\<exists>r. parse rx input = Some r"
  unfolding parse_def by (rule parse_answers) simp

text \<open>
  C11: the parser understands its language. Printing an expression with the fewest parentheses the
  precedence allows (\<open>or\<close>, then \<open>and\<close>, then \<open>not\<close>, then the comparisons; \<open>or\<close> and \<open>and\<close> to the left)
  and parsing the text gives the same expression, for every expression whose literals can be written
  down.
\<close>

theorem parse_print_roundtrip:
  assumes "expr_ok rx e"
  shows "parse rx (print_expr e) = Some (Inr e)"
  by (rule parse_printed [OF assms])

theorem parse_print_roundtrip_witness:
  "parse (\<lambda>p. Inr (\<lambda>s. True))
     (print_expr (EOr (EAnd (EEq (EField ExitCodeField) (EInt 0)) (EContainsFact ''k''))
                      (ENot (EOr (EBool True) (EGt (EFact ''n'') (EInt 7))))))
   = Some (Inr (EOr (EAnd (EEq (EField ExitCodeField) (EInt 0)) (EContainsFact ''k''))
                    (ENot (EOr (EBool True) (EGt (EFact ''n'') (EInt 7))))))"
  using parse_print_roundtrip [of "\<lambda>p. Inr (\<lambda>s. True)"
      "EOr (EAnd (EEq (EField ExitCodeField) (EInt 0)) (EContainsFact ''k''))
           (ENot (EOr (EBool True) (EGt (EFact ''n'') (EInt 7))))"]
  by (simp add: int_ok_def)

end
