(* ===== verification/Cel_Rules.thy ===== *)
theory Cel_Rules
  imports Cel_Printer "HOL-Library.Multiset"
begin

text \<open>
  Evaluation of rule conditions and of rule sets: \<open>EvalContext\<close>
  (\<open>crates/enrichment-engine/src/rules/ast.rs\<close>), the models of operations, facts and rules
  (\<open>models/mod.rs\<close>, \<open>models/rule.rs\<close>) and the rule evaluator with its in-memory repository
  (\<open>rules/evaluator.rs\<close>).

  An \<open>f32\<close> is its 32 bits; the rule engine only copies it. Conversions between integer widths are the
  source's casts: \<open>duration_ms as i32\<close> keeps the low 32 bits and reads them as signed.
\<close>

subsection \<open>Operations, facts and rules\<close>

record operation_result =
  op_exit_code :: "32 word"
  op_stdout :: string
  op_stderr :: string
  op_duration_ms :: "64 word"
  op_timed_out :: bool

record fact =
  fact_key :: string
  fact_value :: string
  fact_tags :: "string list"
  fact_source :: string
  fact_confidence :: "32 word"

datatype rule_action =
    DeriveFact string string "32 word"
  | SetVerdict string
  | Recommend string

record rule_config =
  rule_id :: string
  rule_enricher :: string
  rule_condition :: string
  rule_priority :: int
  rule_enabled :: bool
  rule_actions :: "rule_action list"

record rule_output =
  ro_facts :: "fact list"
  ro_verdict :: "string option"
  ro_recommendations :: "string list"
  ro_hits :: "32 word"

definition rule_output_empty :: rule_output where
  "rule_output_empty = \<lparr>ro_facts = [], ro_verdict = None, ro_recommendations = [], ro_hits = 0\<rparr>"

definition rule_output_merge :: "rule_output \<Rightarrow> rule_output \<Rightarrow> rule_output" where
  "rule_output_merge a b =
     \<lparr>ro_facts = ro_facts a @ ro_facts b,
      ro_verdict = (if ro_verdict b \<noteq> None then ro_verdict b else ro_verdict a),
      ro_recommendations = ro_recommendations a @ ro_recommendations b,
      ro_hits = ro_hits a + ro_hits b\<rparr>"

subsection \<open>The evaluation context\<close>

record eval_context =
  ec_result :: operation_result
  ec_facts :: "fact list"
  ec_fact_map :: "string \<rightharpoonup> fact"

text \<open>\<open>entry(key).or_insert(fact)\<close> for every fact: the first fact of a key stays.\<close>

definition build_fact_map :: "fact list \<Rightarrow> (string \<rightharpoonup> fact)" where
  "build_fact_map facts =
     foldl (\<lambda>m f. if m (fact_key f) = None then m(fact_key f \<mapsto> f) else m) Map.empty facts"

definition eval_context_new :: "operation_result \<Rightarrow> fact list \<Rightarrow> eval_context" where
  "eval_context_new res facts =
     \<lparr>ec_result = res, ec_facts = facts, ec_fact_map = build_fact_map facts\<rparr>"

definition get_fact :: "eval_context \<Rightarrow> string \<Rightarrow> fact option" where
  "get_fact ctx key = ec_fact_map ctx key"

text \<open>\<open>duration_ms as i32\<close> and \<open>count() as i32\<close>.\<close>

definition as_i32 :: "nat \<Rightarrow> int" where
  "as_i32 n = sint (of_nat n :: 32 word)"

definition duration_i32 :: "eval_context \<Rightarrow> int" where
  "duration_i32 ctx = as_i32 (unat (op_duration_ms (ec_result ctx)))"

definition unwrap_or :: "'a \<Rightarrow> 'a option \<Rightarrow> 'a" where
  "unwrap_or d x = (case x of None \<Rightarrow> d | Some a \<Rightarrow> a)"

fun extract_str :: "eval_context \<Rightarrow> expr \<Rightarrow> string" where
  "extract_str ctx (EStr s) = s"
| "extract_str ctx (EInt n) = int_to_string n"
| "extract_str ctx (EBool b) = bool_to_string b"
| "extract_str ctx (EField ExitCodeField) = int_to_string (sint (op_exit_code (ec_result ctx)))"
| "extract_str ctx (EField TimedOutField) = bool_to_string (op_timed_out (ec_result ctx))"
| "extract_str ctx (EField StdoutField) = op_stdout (ec_result ctx)"
| "extract_str ctx (EField StderrField) = op_stderr (ec_result ctx)"
| "extract_str ctx (EField DurationMsField) = nat_to_string (unat (op_duration_ms (ec_result ctx)))"
| "extract_str ctx _ = []"

fun extract_i32 :: "eval_context \<Rightarrow> expr \<Rightarrow> int" where
  "extract_i32 ctx (EInt n) = n"
| "extract_i32 ctx (EStr s) = unwrap_or 0 (parse_i32 s)"
| "extract_i32 ctx (EField ExitCodeField) = sint (op_exit_code (ec_result ctx))"
| "extract_i32 ctx (EField DurationMsField) = duration_i32 ctx"
| "extract_i32 ctx _ = 0"

definition compare_fact_eq :: "eval_context \<Rightarrow> string \<Rightarrow> expr \<Rightarrow> bool" where
  "compare_fact_eq ctx key right =
     (case get_fact ctx key of None \<Rightarrow> False | Some f \<Rightarrow> fact_value f = extract_str ctx right)"

definition compare_fact_cmp ::
    "eval_context \<Rightarrow> string \<Rightarrow> expr \<Rightarrow> (int \<Rightarrow> int \<Rightarrow> bool) \<Rightarrow> bool" where
  "compare_fact_cmp ctx key right cmp =
     (case get_fact ctx key of
        None \<Rightarrow> False
      | Some f \<Rightarrow> cmp (unwrap_or 0 (parse_i32 (fact_value f))) (extract_i32 ctx right))"

definition compare_eq :: "eval_context \<Rightarrow> expr \<Rightarrow> expr \<Rightarrow> bool" where
  "compare_eq ctx l r =
     (case l of EFact key \<Rightarrow> compare_fact_eq ctx key r
      | _ \<Rightarrow> extract_str ctx l = extract_str ctx r)"

definition compare_gt :: "eval_context \<Rightarrow> expr \<Rightarrow> expr \<Rightarrow> bool" where
  "compare_gt ctx l r =
     (case l of EFact key \<Rightarrow> compare_fact_cmp ctx key r (\<lambda>a b. a > b)
      | _ \<Rightarrow> extract_i32 ctx l > extract_i32 ctx r)"

definition compare_lt :: "eval_context \<Rightarrow> expr \<Rightarrow> expr \<Rightarrow> bool" where
  "compare_lt ctx l r =
     (case l of EFact key \<Rightarrow> compare_fact_cmp ctx key r (\<lambda>a b. a < b)
      | _ \<Rightarrow> extract_i32 ctx l < extract_i32 ctx r)"

definition compare_ge :: "eval_context \<Rightarrow> expr \<Rightarrow> expr \<Rightarrow> bool" where
  "compare_ge ctx l r =
     (case l of EFact key \<Rightarrow> compare_fact_cmp ctx key r (\<lambda>a b. a \<ge> b)
      | _ \<Rightarrow> extract_i32 ctx l \<ge> extract_i32 ctx r)"

definition compare_le :: "eval_context \<Rightarrow> expr \<Rightarrow> expr \<Rightarrow> bool" where
  "compare_le ctx l r =
     (case l of EFact key \<Rightarrow> compare_fact_cmp ctx key r (\<lambda>a b. a \<le> b)
      | _ \<Rightarrow> extract_i32 ctx l \<le> extract_i32 ctx r)"

definition as_i64_or_min :: "string \<Rightarrow> int" where
  "as_i64_or_min s = unwrap_or (- (2 ^ 63)) (parse_i64 s)"

fun fact_satisfies_op :: "fact \<Rightarrow> comp_op \<Rightarrow> string \<Rightarrow> bool" where
  "fact_satisfies_op f OpEq expected = (fact_value f = expected)"
| "fact_satisfies_op f OpNe expected = (fact_value f \<noteq> expected)"
| "fact_satisfies_op f OpGt expected = (as_i64_or_min (fact_value f) > as_i64_or_min expected)"
| "fact_satisfies_op f OpLt expected = (as_i64_or_min (fact_value f) < as_i64_or_min expected)"
| "fact_satisfies_op f OpGe expected = (as_i64_or_min (fact_value f) \<ge> as_i64_or_min expected)"
| "fact_satisfies_op f OpLe expected = (as_i64_or_min (fact_value f) \<le> as_i64_or_min expected)"

fun compare_count :: "comp_op \<Rightarrow> int \<Rightarrow> int \<Rightarrow> bool" where
  "compare_count OpEq cnt n = (cnt = n)"
| "compare_count OpNe cnt n = (cnt \<noteq> n)"
| "compare_count OpGt cnt n = (cnt > n)"
| "compare_count OpLt cnt n = (cnt < n)"
| "compare_count OpGe cnt n = (cnt \<ge> n)"
| "compare_count OpLe cnt n = (cnt \<le> n)"

definition eval_any_fact :: "eval_context \<Rightarrow> string \<Rightarrow> comp_op \<Rightarrow> string \<Rightarrow> bool" where
  "eval_any_fact ctx key op v =
     (let matching = filter (\<lambda>f. fact_key f = key) (ec_facts ctx) in
      if matching = [] then False else list_ex (\<lambda>f. fact_satisfies_op f op v) matching)"

definition eval_all_fact :: "eval_context \<Rightarrow> string \<Rightarrow> comp_op \<Rightarrow> string \<Rightarrow> bool" where
  "eval_all_fact ctx key op v =
     (let matching = filter (\<lambda>f. fact_key f = key) (ec_facts ctx) in
      if matching = [] then False else list_all (\<lambda>f. fact_satisfies_op f op v) matching)"

definition eval_count_fact :: "eval_context \<Rightarrow> string \<Rightarrow> comp_op \<Rightarrow> int \<Rightarrow> bool" where
  "eval_count_fact ctx key op n =
     compare_count op (as_i32 (length (filter (\<lambda>f. fact_key f = key) (ec_facts ctx)))) n"

fun evaluate :: "regex_crate \<Rightarrow> eval_context \<Rightarrow> expr \<Rightarrow> bool" where
  "evaluate rx ctx (EBool b) = b"
| "evaluate rx ctx (EInt n) = (n \<noteq> 0)"
| "evaluate rx ctx (EStr s) = (s \<noteq> [])"
| "evaluate rx ctx (EField ExitCodeField) = (op_exit_code (ec_result ctx) \<noteq> 0)"
| "evaluate rx ctx (EField TimedOutField) = op_timed_out (ec_result ctx)"
| "evaluate rx ctx (EField StdoutField) = (op_stdout (ec_result ctx) \<noteq> [])"
| "evaluate rx ctx (EField StderrField) = (op_stderr (ec_result ctx) \<noteq> [])"
| "evaluate rx ctx (EField DurationMsField) = (duration_i32 ctx \<noteq> 0)"
| "evaluate rx ctx (EEq l r) = compare_eq ctx l r"
| "evaluate rx ctx (ENe l r) = (\<not> compare_eq ctx l r)"
| "evaluate rx ctx (EGt l r) = compare_gt ctx l r"
| "evaluate rx ctx (ELt l r) = compare_lt ctx l r"
| "evaluate rx ctx (EGe l r) = compare_ge ctx l r"
| "evaluate rx ctx (ELe l r) = compare_le ctx l r"
| "evaluate rx ctx (EAnd l r) = (evaluate rx ctx l \<and> evaluate rx ctx r)"
| "evaluate rx ctx (EOr l r) = (evaluate rx ctx l \<or> evaluate rx ctx r)"
| "evaluate rx ctx (ENot e) = (\<not> evaluate rx ctx e)"
| "evaluate rx ctx (EContainsFact key) = (ec_fact_map ctx key \<noteq> None)"
| "evaluate rx ctx (EFact key) = False"
| "evaluate rx ctx (EStdoutContains sub) = str_contains sub (op_stdout (ec_result ctx))"
| "evaluate rx ctx (EAnyFact key op v) = eval_any_fact ctx key op v"
| "evaluate rx ctx (EAllFact key op v) = eval_all_fact ctx key op v"
| "evaluate rx ctx (ECountFact key op n) = eval_count_fact ctx key op n"
| "evaluate rx ctx (EStderrContains sub) = str_contains sub (op_stderr (ec_result ctx))"
| "evaluate rx ctx (EStderrMatches p) =
     (case rx p of Inr is_match \<Rightarrow> is_match (op_stderr (ec_result ctx)) | Inl e \<Rightarrow> False)"
| "evaluate rx ctx (EDurationLt threshold) = (duration_i32 ctx < threshold)"
| "evaluate rx ctx (EDurationGt threshold) = (duration_i32 ctx > threshold)"

subsection \<open>Rule sets\<close>

definition find_rules :: "rule_config list \<Rightarrow> string \<Rightarrow> rule_config list" where
  "find_rules rules enricher = filter (\<lambda>r. rule_enricher r = enricher \<and> rule_enabled r) rules"

record parsed_rule =
  pr_config :: rule_config
  pr_expr :: expr

text \<open>Rules whose condition does not parse are skipped.\<close>

definition get_parsed_rules :: "regex_crate \<Rightarrow> rule_config list \<Rightarrow> parsed_rule list" where
  "get_parsed_rules rx configs =
     List.map_filter (\<lambda>c.
       case parse rx (rule_condition c) of
         Some (Inr e) \<Rightarrow> Some \<lparr>pr_config = c, pr_expr = e\<rparr>
       | _ \<Rightarrow> None) configs"

fun execute_action :: "rule_action \<Rightarrow> rule_output \<Rightarrow> rule_output" where
  "execute_action (DeriveFact key v confidence) out =
     out\<lparr>ro_facts := ro_facts out @ [\<lparr>fact_key = key, fact_value = v, fact_tags = [],
            fact_source = ''rule'', fact_confidence = confidence\<rparr>]\<rparr>"
| "execute_action (SetVerdict verdict) out = out\<lparr>ro_verdict := Some verdict\<rparr>"
| "execute_action (Recommend rec) out =
     out\<lparr>ro_recommendations := ro_recommendations out @ [rec]\<rparr>"

definition apply_rule ::
    "regex_crate \<Rightarrow> eval_context \<Rightarrow> parsed_rule \<Rightarrow> rule_output \<Rightarrow> rule_output" where
  "apply_rule rx ctx rl out =
     (if evaluate rx ctx (pr_expr rl)
      then fold execute_action (rule_actions (pr_config rl)) (out\<lparr>ro_hits := ro_hits out + 1\<rparr>)
      else out)"

text \<open>\<open>sort_by_key\<close> is stable, as \<open>sort_key\<close> is.\<close>

definition evaluate_rules ::
    "regex_crate \<Rightarrow> eval_context \<Rightarrow> parsed_rule list \<Rightarrow> rule_output" where
  "evaluate_rules rx ctx rules =
     fold (apply_rule rx ctx) (sort_key (\<lambda>r. rule_priority (pr_config r)) rules) rule_output_empty"

definition rule_evaluate ::
    "regex_crate \<Rightarrow> rule_config list \<Rightarrow> string \<Rightarrow> operation_result \<Rightarrow> fact list \<Rightarrow> rule_output" where
  "rule_evaluate rx repo enricher res facts =
     evaluate_rules rx (eval_context_new res facts) (get_parsed_rules rx (find_rules repo enricher))"

subsection \<open>Facts about evaluation\<close>

lemma foldl_fact_map:
  "foldl (\<lambda>m f. if m (fact_key f) = None then m(fact_key f \<mapsto> f) else m) m0 facts k =
     (case m0 k of Some f \<Rightarrow> Some f | None \<Rightarrow> find (\<lambda>f. fact_key f = k) facts)"
  by (induction facts arbitrary: m0) (auto split: option.splits)

lemma build_fact_map_find: "build_fact_map facts k = find (\<lambda>f. fact_key f = k) facts"
  by (simp add: build_fact_map_def foldl_fact_map)

lemma build_fact_map_None: "build_fact_map facts k = None \<longleftrightarrow> k \<notin> fact_key ` set facts"
  by (auto simp: build_fact_map_find find_None_iff)

lemma eval_context_new_simps [simp]:
  "ec_result (eval_context_new res facts) = res" "ec_facts (eval_context_new res facts) = facts"
  "ec_fact_map (eval_context_new res facts) = build_fact_map facts"
  "get_fact (eval_context_new res facts) k = build_fact_map facts k"
  by (simp_all add: eval_context_new_def get_fact_def)

fun negate_op :: "comp_op \<Rightarrow> comp_op" where
  "negate_op OpEq = OpNe" | "negate_op OpNe = OpEq" | "negate_op OpGt = OpLe"
| "negate_op OpLe = OpGt" | "negate_op OpLt = OpGe" | "negate_op OpGe = OpLt"

lemma satisfies_negate: "fact_satisfies_op f (negate_op op) v \<longleftrightarrow> \<not> fact_satisfies_op f op v"
  by (cases op) auto

lemma as_i32_mod:
  "as_i32 n = (if n mod 2 ^ 32 < 2 ^ 31 then int (n mod 2 ^ 32) else int (n mod 2 ^ 32) - 2 ^ 32)"
  by (simp add: as_i32_def sint_unat unat_of_nat)

lemma as_i32_small: "n < 2 ^ 31 \<Longrightarrow> as_i32 n = int n"
  by (simp add: as_i32_mod)

subsection \<open>Facts about rule sets\<close>

definition derived_fact :: "rule_action \<Rightarrow> fact option" where
  "derived_fact a =
     (case a of
        DeriveFact key v c \<Rightarrow> Some \<lparr>fact_key = key, fact_value = v, fact_tags = [],
          fact_source = ''rule'', fact_confidence = c\<rparr>
      | _ \<Rightarrow> None)"

definition verdict_of :: "rule_action \<Rightarrow> string option" where
  "verdict_of a = (case a of SetVerdict v \<Rightarrow> Some v | _ \<Rightarrow> None)"

definition recommendation_of :: "rule_action \<Rightarrow> string option" where
  "recommendation_of a = (case a of Recommend r \<Rightarrow> Some r | _ \<Rightarrow> None)"

definition last_option :: "'a list \<Rightarrow> 'a option" where
  "last_option xs = (if xs = [] then None else Some (last xs))"

lemma last_option_Cons: "last_option (x # xs) = (if xs = [] then Some x else last_option xs)"
  by (simp add: last_option_def)

lemma fold_actions:
  "fold execute_action acts out =
     \<lparr>ro_facts = ro_facts out @ List.map_filter derived_fact acts,
      ro_verdict = (case last_option (List.map_filter verdict_of acts) of
                      None \<Rightarrow> ro_verdict out | Some v \<Rightarrow> Some v),
      ro_recommendations = ro_recommendations out @ List.map_filter recommendation_of acts,
      ro_hits = ro_hits out\<rparr>"
proof (induction acts arbitrary: out)
  case Nil
  show ?case by (simp add: List.map_filter_def last_option_def)
next
  case (Cons a acts)
  show ?case
    by (cases a) (auto simp: Cons map_filter_simps derived_fact_def verdict_of_def
        recommendation_of_def last_option_Cons last_option_def split: option.splits)
qed

definition action_output :: "nat \<Rightarrow> rule_action list \<Rightarrow> rule_output" where
  "action_output hits acts =
     \<lparr>ro_facts = List.map_filter derived_fact acts,
      ro_verdict = last_option (List.map_filter verdict_of acts),
      ro_recommendations = List.map_filter recommendation_of acts, ro_hits = of_nat hits\<rparr>"

lemma map_filter_append: "List.map_filter f (xs @ ys) = List.map_filter f xs @ List.map_filter f ys"
  by (simp add: List.map_filter_def)

lemma last_option_append:
  "last_option (xs @ ys) = (case last_option ys of None \<Rightarrow> last_option xs | Some y \<Rightarrow> Some y)"
  by (auto simp: last_option_def)

lemma merge_action_output:
  "rule_output_merge (action_output m xs) (action_output n ys) = action_output (m + n) (xs @ ys)"
  by (auto simp: rule_output_merge_def action_output_def map_filter_append last_option_append
      split: option.splits)

lemma fold_apply_rule:
  "fold (apply_rule rx ctx) rules (action_output n acts) =
     action_output (n + length (filter (\<lambda>r. evaluate rx ctx (pr_expr r)) rules))
       (acts @ concat (map (\<lambda>r. rule_actions (pr_config r))
                        (filter (\<lambda>r. evaluate rx ctx (pr_expr r)) rules)))"
proof (induction rules arbitrary: n acts)
  case (Cons r rules)
  have "apply_rule rx ctx r (action_output n acts) =
      (if evaluate rx ctx (pr_expr r) then action_output (n + 1) (acts @ rule_actions (pr_config r))
       else action_output n acts)"
    by (auto simp: apply_rule_def fold_actions action_output_def map_filter_append last_option_append
        split: option.splits)
  then show ?case by (simp add: Cons)
qed simp

lemma evaluate_rules_actions:
  "evaluate_rules rx ctx rules =
     (let hits = filter (\<lambda>r. evaluate rx ctx (pr_expr r))
                   (sort_key (\<lambda>r. rule_priority (pr_config r)) rules)
      in action_output (length hits) (concat (map (\<lambda>r. rule_actions (pr_config r)) hits)))"
proof -
  have e: "rule_output_empty = action_output 0 []"
    by (simp add: rule_output_empty_def action_output_def last_option_def List.map_filter_def)
  show ?thesis unfolding evaluate_rules_def e fold_apply_rule Let_def by simp
qed

lemma sort_key_split:
  fixes f :: "'a \<Rightarrow> 'b :: linorder"
  shows "sort_key f xs = sort_key f (filter (\<lambda>x. f x \<le> p) xs) @ sort_key f (filter (\<lambda>x. p < f x) xs)"
proof (rule properties_for_sort_key)
  show "mset (sort_key f (filter (\<lambda>x. f x \<le> p) xs) @ sort_key f (filter (\<lambda>x. p < f x) xs)) = mset xs"
    by (simp add: not_le [symmetric])
next
  fix k
  assume "k \<in> set (sort_key f (filter (\<lambda>x. f x \<le> p) xs) @ sort_key f (filter (\<lambda>x. p < f x) xs))"
  show "filter (\<lambda>x. f k = f x)
        (sort_key f (filter (\<lambda>x. f x \<le> p) xs) @ sort_key f (filter (\<lambda>x. p < f x) xs))
      = filter (\<lambda>x. f k = f x) xs"
  proof (cases "f k \<le> p")
    case True
    then have "(\<lambda>x. f x \<le> p \<and> f x = f k) = (\<lambda>x. f x = f k)" "(\<lambda>x. p < f x \<and> f x = f k) = (\<lambda>x. False)"
      by auto
    then show ?thesis by (simp add: eq_commute [of "f k"] sort_key_stable)
  next
    case False
    then have "(\<lambda>x. f x \<le> p \<and> f x = f k) = (\<lambda>x. False)" "(\<lambda>x. p < f x \<and> f x = f k) = (\<lambda>x. f x = f k)"
      by auto
    then show ?thesis by (simp add: eq_commute [of "f k"] sort_key_stable)
  qed
next
  show "sorted (map f (sort_key f (filter (\<lambda>x. f x \<le> p) xs) @ sort_key f (filter (\<lambda>x. p < f x) xs)))"
    by (auto simp: sorted_append)
qed

subsection \<open>Properties of the rule engine\<close>

text \<open>
  the fact predicates mean what their names say. \<open>contains_fact\<close> holds exactly for the keys of the
  facts; \<open>any_fact\<close> holds exactly if some fact of the key satisfies the comparison; \<open>all_fact\<close>
  holds exactly if the key has a fact and no fact of the key satisfies the opposite comparison;
  below 2^31 facts, \<open>count_fact\<close> with at-least-one agrees with \<open>contains_fact\<close>.
\<close>

theorem fact_predicates_semantics:
  "let ctx = eval_context_new res facts;
       n = length (filter (\<lambda>f. fact_key f = k) facts)
   in (evaluate rx ctx (EContainsFact k) \<longleftrightarrow> k \<in> fact_key ` set facts)
      \<and> (evaluate rx ctx (EAnyFact k op v) \<longleftrightarrow>
           (\<exists>f. f \<in> set facts \<and> fact_key f = k \<and> fact_satisfies_op f op v))
      \<and> (evaluate rx ctx (EAllFact k op v) \<longleftrightarrow>
           evaluate rx ctx (EContainsFact k) \<and> \<not> evaluate rx ctx (EAnyFact k (negate_op op) v))
      \<and> (if n < 2 ^ 31
         then evaluate rx ctx (ECountFact k OpGe 1) = evaluate rx ctx (EContainsFact k) else True)"
proof -
  let ?m = "filter (\<lambda>f. fact_key f = k) facts"
  have ne: "?m \<noteq> [] \<longleftrightarrow> k \<in> fact_key ` set facts" by (auto simp: filter_empty_conv)
  have any: "evaluate rx (eval_context_new res facts) (EAnyFact k op' v) \<longleftrightarrow>
      (\<exists>f. f \<in> set facts \<and> fact_key f = k \<and> fact_satisfies_op f op' v)" for op'
    by (auto simp: eval_any_fact_def Let_def list_ex_iff filter_empty_conv)
  have all: "evaluate rx (eval_context_new res facts) (EAllFact k op v) \<longleftrightarrow>
      k \<in> fact_key ` set facts
      \<and> \<not> (\<exists>f. f \<in> set facts \<and> fact_key f = k \<and> fact_satisfies_op f (negate_op op) v)"
    unfolding satisfies_negate
    by (auto simp: eval_all_fact_def Let_def list_all_iff filter_empty_conv)
  have cont: "evaluate rx (eval_context_new res facts) (EContainsFact k) \<longleftrightarrow> k \<in> fact_key ` set facts"
    using build_fact_map_None [of facts k] by simp
  have cnt: "length ?m < 2 ^ 31 \<Longrightarrow>
      evaluate rx (eval_context_new res facts) (ECountFact k OpGe 1) \<longleftrightarrow> k \<in> fact_key ` set facts"
    using ne by (simp add: eval_count_fact_def as_i32_small) (cases ?m; simp)
  show ?thesis unfolding Let_def any all cont using cnt by simp
qed

text \<open>
  comparing a fact with anything. An ordering comparison of a fact is decided exactly when the
  fact exists: then one of \<open>\<open><\<close>\<close> and \<open>\<open>>=\<close>\<close>, and one of \<open>\<open>>\<close>\<close> and \<open>\<open><=\<close>\<close>, holds; without the fact
  none does, nor does equality, but inequality always holds.
\<close>

theorem fact_comparison_decided_iff_present:
  "let ev = evaluate rx (eval_context_new res facts); present = (k \<in> fact_key ` set facts)
   in (ev (ELt (EFact k) r) \<or> ev (EGe (EFact k) r) \<longleftrightarrow> present)
      \<and> (ev (EGt (EFact k) r) \<or> ev (ELe (EFact k) r) \<longleftrightarrow> present)
      \<and> \<not> (ev (ELt (EFact k) r) \<and> ev (EGe (EFact k) r))
      \<and> \<not> (ev (EGt (EFact k) r) \<and> ev (ELe (EFact k) r))
      \<and> (if present then True else \<not> ev (EEq (EFact k) r) \<and> ev (ENe (EFact k) r))"
  using build_fact_map_None [of facts k]
  by (cases "build_fact_map facts k")
    (auto simp: Let_def compare_lt_def compare_ge_def compare_gt_def compare_le_def compare_eq_def
      compare_fact_cmp_def compare_fact_eq_def)

text \<open>
  durations are compared after a cast to 32 signed bits. The comparison sees the duration
  modulo 2^32, and from 2^31 milliseconds (about 25 days) up to 2^32 a duration is below every
  non-negative threshold: \<open>duration_gt\<close> is false and \<open>duration_lt\<close> true.
\<close>

theorem duration_comparisons_wrap:
  "let ev = evaluate rx (eval_context_new res facts);
       m = unat (op_duration_ms res) mod 2 ^ 32;
       seen = (if m < 2 ^ 31 then int m else int m - 2 ^ 32)
   in (ev (EDurationGt n) \<longleftrightarrow> n < seen) \<and> (ev (EDurationLt n) \<longleftrightarrow> seen < n)
      \<and> (ev (EGt (EField DurationMsField) (EInt n)) \<longleftrightarrow> ev (EDurationGt n))
      \<and> (if 2 ^ 31 \<le> m \<and> 0 \<le> n then \<not> ev (EDurationGt n) \<and> ev (EDurationLt n) else True)"
proof -
  define m where "m = unat (op_duration_ms res) mod 2 ^ 32"
  have m: "m < 2 ^ 32" by (simp add: m_def)
  have d: "duration_i32 (eval_context_new res facts) = (if m < 2 ^ 31 then int m else int m - 2 ^ 32)"
    unfolding duration_i32_def eval_context_new_simps m_def by (rule as_i32_mod)
  show ?thesis
    unfolding Let_def m_def [symmetric] using m by (auto simp: d compare_gt_def)
qed

text \<open>
  C12: what a rule set produces. The rules that count are those of the enricher that are enabled,
  parse, and evaluate to true; taken in the order of their priority, and in repository order within a
  priority, their actions give the derived facts and the recommendations in order, the number of
  rules is the hit count (modulo 2^32), and the verdict is the one set last, so that of the rule with the
  largest priority number.
\<close>

theorem rule_evaluate_declarative:
  "let ctx = eval_context_new res facts;
       rules = get_parsed_rules rx (filter (\<lambda>r. rule_enricher r = e \<and> rule_enabled r) repo);
       hits = filter (\<lambda>r. evaluate rx ctx (pr_expr r))
                (sort_key (\<lambda>r. rule_priority (pr_config r)) rules);
       acts = concat (map (\<lambda>r. rule_actions (pr_config r)) hits);
       out = rule_evaluate rx repo e res facts
   in ro_facts out = List.map_filter derived_fact acts
      \<and> ro_recommendations out = List.map_filter recommendation_of acts
      \<and> ro_verdict out = last_option (List.map_filter verdict_of acts)
      \<and> ro_hits out = of_nat (length hits)"
  by (simp add: Let_def rule_evaluate_def find_rules_def evaluate_rules_actions action_output_def)

text \<open>
  rule sets can be evaluated in two parts. For every threshold, evaluating the rules up to that
  priority and the rules beyond it and merging the two outputs is evaluating all of them at once.
\<close>

theorem evaluate_rules_split_merge:
  "evaluate_rules rx ctx rules =
     rule_output_merge
       (evaluate_rules rx ctx (filter (\<lambda>r. rule_priority (pr_config r) \<le> p) rules))
       (evaluate_rules rx ctx (filter (\<lambda>r. p < rule_priority (pr_config r)) rules))"
proof -
  have "sort_key (\<lambda>r. rule_priority (pr_config r)) rules =
      sort_key (\<lambda>r. rule_priority (pr_config r)) (filter (\<lambda>r. rule_priority (pr_config r) \<le> p) rules)
      @ sort_key (\<lambda>r. rule_priority (pr_config r)) (filter (\<lambda>r. p < rule_priority (pr_config r)) rules)"
    by (rule sort_key_split)
  then show ?thesis
    unfolding evaluate_rules_actions Let_def merge_action_output by simp
qed

end
