(* ===== verification/Command_Extractor.thy ===== *)
theory Command_Extractor
  imports Cel_Rules
begin

text \<open>
  The command extractor, \<open>enrichment-engine/src/extractors/command_extractor.rs\<close>: a tokenizer for command
  lines that refuses shell syntax, and the classification of the tokens into facts under a policy
  (\<open>CommandExtractorPolicy\<close> of \<open>models/enricher.rs\<close>). The loops of the source over the character iterator
  are recursive functions on the characters that are left. Confidences are the bit patterns of \<open>f32\<close>.
\<close>

section \<open>Tokenizer\<close>

datatype diagnostic =
    UnsafeToken string
  | CommandTooLong "32 word" "32 word"
  | EmptyCommand
  | UnclosedQuote string

fun diag_key :: "diagnostic \<Rightarrow> string" where
  "diag_key (UnsafeToken _) = ''unsafe_token''"
| "diag_key (CommandTooLong _ _) = ''command_too_long''"
| "diag_key EmptyCommand = ''empty_command''"
| "diag_key (UnclosedQuote _) = ''unclosed_quote''"

fun diag_value :: "diagnostic \<Rightarrow> string" where
  "diag_value (UnsafeToken ch) = ch"
| "diag_value (CommandTooLong tokens len) =
     ''t:'' @ nat_to_string (unat tokens) @ '' l:'' @ nat_to_string (unat len)"
| "diag_value EmptyCommand = []"
| "diag_value (UnclosedQuote pre) = pre"

definition is_unsafe :: "char \<Rightarrow> bool" where
  "is_unsafe c = (c \<in> set ''`$|&;><*?[{'' \<or> c = CHR 0x00)"

abbreviation squote :: char where "squote \<equiv> CHR 0x27"
abbreviation dquote :: char where "dquote \<equiv> CHR 0x22"
abbreviation backslash :: char where "backslash \<equiv> CHR 0x5C"

text \<open>The rest of a quoted literal: what is read so far, and the characters that are left.\<close>

fun single_quoted :: "string \<Rightarrow> string \<Rightarrow> (diagnostic, string \<times> string) result" where
  "single_quoted token [] = Err (UnclosedQuote (squote # token))"
| "single_quoted token (c # cs) =
     (if c = squote then Ok (token, cs) else single_quoted (token @ [c]) cs)"

definition unescape :: "char \<Rightarrow> string" where
  "unescape c =
     (if c = dquote then [dquote]
      else if c = backslash then [backslash]
      else if c = CHR ''n'' then [CHR 0x0A]
      else if c = CHR ''t'' then [CHR 0x09]
      else [backslash, c])"

fun double_quoted :: "string \<Rightarrow> string \<Rightarrow> (diagnostic, string \<times> string) result" where
  "double_quoted token [] = Err (UnclosedQuote (dquote # token))"
| "double_quoted token [c] =
     (if c = dquote then Ok (token, [])
      else if c = backslash then Err (UnclosedQuote (dquote # token))
      else Err (UnclosedQuote (dquote # token @ [c])))"
| "double_quoted token (c # d # cs) =
     (if c = dquote then Ok (token, d # cs)
      else if c = backslash then double_quoted (token @ unescape d) cs
      else double_quoted (token @ [c]) (d # cs))"

lemma single_quoted_shorter: "single_quoted t cs = Ok (t', rest) \<Longrightarrow> length rest < length cs"
  by (induction t cs rule: single_quoted.induct) (fastforce split: if_splits)+

lemma double_quoted_shorter: "double_quoted t cs = Ok (t', rest) \<Longrightarrow> length rest < length cs"
  by (induction t cs rule: double_quoted.induct) (fastforce split: if_splits)+

text \<open>The rest of a token that does not begin with a quote.\<close>

function unquoted :: "string \<Rightarrow> string \<Rightarrow> (diagnostic, string \<times> string) result" where
  "unquoted token [] = Ok (token, [])"
| "unquoted token (c # cs) =
     (if is_whitespace c then Ok (token, c # cs)
      else if is_unsafe c then Err (UnsafeToken [c])
      else if c = squote then
        (case single_quoted [] cs of
           Inl e \<Rightarrow> Err e
         | Inr (sq, rest) \<Rightarrow> unquoted (token @ sq) rest)
      else if c = dquote then
        (case double_quoted token cs of
           Inl e \<Rightarrow> Err e
         | Inr (token', rest) \<Rightarrow> unquoted token' rest)
      else if c = backslash then
        (case cs of
           [] \<Rightarrow> Ok (token @ [backslash], [])
         | d # ds \<Rightarrow> unquoted (token @ [d]) ds)
      else unquoted (token @ [c]) cs)"
  by pat_completeness auto
termination
  by (relation "measure (length \<circ> snd)") (auto dest: single_quoted_shorter double_quoted_shorter)

definition start_token :: "char \<Rightarrow> string \<Rightarrow> (diagnostic, string \<times> string) result" where
  "start_token c cs =
     (if c = squote then single_quoted [] cs
      else if c = dquote then double_quoted [] cs
      else if c = backslash then
        (case cs of
           [] \<Rightarrow> Ok ([backslash], [])
         | d # ds \<Rightarrow> Ok ([d], ds))
      else unquoted [c] cs)"

lemma unquoted_shorter: "unquoted t cs = Ok (t', rest) \<Longrightarrow> length rest \<le> length cs"
  by (induction t cs rule: unquoted.induct)
     (fastforce split: if_splits sum.splits prod.splits list.splits
        dest: single_quoted_shorter double_quoted_shorter)+

lemma start_token_shorter: "start_token c cs = Ok (t, rest) \<Longrightarrow> length rest \<le> length cs"
  by (auto simp: start_token_def split: if_splits list.splits
      dest: single_quoted_shorter double_quoted_shorter unquoted_shorter)

text \<open>
  The main loop; \<open>len\<close> is the length of the whole command for the error message. The special treatment of
  the dollar sign in the source returns the same diagnostic on every path.
\<close>

function token_loop ::
    "32 word \<Rightarrow> 32 word \<Rightarrow> 32 word \<Rightarrow> string list \<Rightarrow> string \<Rightarrow> (diagnostic, string list) result" where
  "token_loop len max_tokens n tokens [] = Ok tokens"
| "token_loop len max_tokens n tokens (c # cs) =
     (if is_unsafe c then Err (UnsafeToken [c])
      else if is_whitespace c then token_loop len max_tokens n tokens cs
      else if max_tokens < n + 1 then Err (CommandTooLong (n + 1) len)
      else case start_token c cs of
             Inl e \<Rightarrow> Err e
           | Inr (token, rest) \<Rightarrow> token_loop len max_tokens (n + 1) (tokens @ [token]) rest)"
  by pat_completeness auto
termination
  by (relation "measure (\<lambda>(_, _, _, _, cs). length cs)") (auto dest: start_token_shorter)

definition command_tokens :: "string \<Rightarrow> 32 word \<Rightarrow> 32 word \<Rightarrow> (diagnostic, string list) result" where
  "command_tokens command max_tokens max_input_len =
     (if command = [] then Err EmptyCommand
      else
        let len = (of_nat (str_len command) :: 32 word)
        in if max_input_len < len then Err (CommandTooLong 0 len)
           else token_loop len max_tokens 0 [] command)"

section \<open>Classification\<close>

record command_extractor_policy =
  cp_strict :: bool
  cp_allow_flags :: bool
  cp_allow_options :: bool
  cp_allow_targets :: bool
  cp_max_tokens :: "32 word"
  cp_max_input_len :: "32 word"
  cp_goal_map :: "(string \<times> string) list option"

definition policy_default :: command_extractor_policy where
  "policy_default =
     \<lparr>cp_strict = True, cp_allow_flags = True, cp_allow_options = True, cp_allow_targets = True,
      cp_max_tokens = 64, cp_max_input_len = 4096, cp_goal_map = None\<rparr>"

definition classify_tool :: "string \<Rightarrow> string" where
  "classify_tool executable =
     (if executable = ''mvn'' then ''maven''
      else if executable \<in> {''gradle'', ''gradlew''} then ''gradle''
      else if executable \<in> {''npm'', ''npx'', ''yarn''} then ''node''
      else if executable = ''cargo'' then ''cargo''
      else ''unknown'')"

definition default_intent :: "string \<Rightarrow> string" where
  "default_intent goal =
     (if goal \<in> {''compile'', ''build''} then ''build''
      else if goal = ''test'' then ''test''
      else if goal = ''clean'' then ''clean''
      else if goal = ''install'' then ''install''
      else if goal \<in> {''publish'', ''deploy''} then ''deploy''
      else ''run'')"

definition infer_intent :: "string \<Rightarrow> (string \<times> string) list option \<Rightarrow> string" where
  "infer_intent goal goal_map =
     (case goal_map of
        None \<Rightarrow> default_intent goal
      | Some m \<Rightarrow> (case map_of m goal of Some intent \<Rightarrow> intent | None \<Rightarrow> default_intent goal))"

definition strip_prefix :: "string \<Rightarrow> string \<Rightarrow> string option" where
  "strip_prefix p s = (if starts_with p s then Some (drop (length p) s) else None)"

text \<open>\<open>str::find\<close> of a character and \<open>split_at\<close> there: what stands before and after it.\<close>

definition split_at_eq :: "string \<Rightarrow> (string \<times> string) option" where
  "split_at_eq s =
     (if CHR ''='' \<in> set s
      then Some (takeWhile (\<lambda>c. c \<noteq> CHR ''='') s, tl (dropWhile (\<lambda>c. c \<noteq> CHR ''='') s))
      else None)"

definition one_f32 :: "32 word" where
  "one_f32 = 0x3F800000"

definition cmd_fact :: "string \<Rightarrow> string \<Rightarrow> string \<Rightarrow> string list \<Rightarrow> fact" where
  "cmd_fact source_name key v tags =
     \<lparr>fact_key = key, fact_value = v, fact_tags = tags, fact_source = source_name,
      fact_confidence = one_f32\<rparr>"


definition flag_facts :: "string \<Rightarrow> string \<Rightarrow> fact list" where
  "flag_facts src flag_rest =
     (case split_at_eq flag_rest of
        Some (flag_name, flag_value) \<Rightarrow> [cmd_fact src ''command_flag'' (flag_name @ ''='' @ flag_value) []]
      | None \<Rightarrow> [cmd_fact src ''command_flag'' flag_rest []])"

definition define_facts :: "string \<Rightarrow> string \<Rightarrow> string \<Rightarrow> fact list" where
  "define_facts src token d_arg =
     (case split_at_eq d_arg of
        Some (key, v) \<Rightarrow> [cmd_fact src ''command_option'' token [''key:'' @ key, ''value:'' @ v]]
      | None \<Rightarrow> [cmd_fact src ''command_option'' token [''key:'' @ d_arg]])"

definition exclude_fact :: "string \<Rightarrow> string \<Rightarrow> string \<Rightarrow> fact" where
  "exclude_fact src v task = cmd_fact src ''command_option'' v [''exclude'', ''exclude:'' @ task]"

definition option_fact :: "string \<Rightarrow> string \<Rightarrow> string \<Rightarrow> fact" where
  "option_fact src token profile = cmd_fact src ''command_option'' token [''profile'', ''profile:'' @ profile]"

text \<open>
  One round of the loop over the tokens from the third on: the facts of a token, whether it is a target, and
  whether the next token is used up with it.
\<close>

datatype token_class = Facts "fact list" | FactsOfTwo "fact list" | Target

definition classify_token :: "command_extractor_policy \<Rightarrow> string \<Rightarrow> string \<Rightarrow> string list \<Rightarrow> token_class" where
  "classify_token policy src token rest =
     (case strip_prefix ''--'' token of
        Some flag_rest \<Rightarrow> Facts (if cp_allow_flags policy then flag_facts src flag_rest else [])
      | None \<Rightarrow>
     (case strip_prefix ''-x'' token of
        Some task \<Rightarrow>
          if \<not> cp_allow_options policy then Facts []
          else if task \<noteq> [] then Facts [exclude_fact src token task]
          else (case rest of
                  [] \<Rightarrow> Facts []
                | nxt # _ \<Rightarrow>
                    if starts_with ''-'' nxt then Facts []
                    else FactsOfTwo [exclude_fact src (''-x='' @ nxt) nxt])
      | None \<Rightarrow>
     (case strip_prefix ''-D'' token of
        Some d_arg \<Rightarrow> Facts (if cp_allow_options policy then define_facts src token d_arg else [])
      | None \<Rightarrow>
     (case strip_prefix ''-P'' token of
        Some profile \<Rightarrow>
          Facts (if cp_allow_options policy \<and> profile \<noteq> [] then [option_fact src token profile] else [])
      | None \<Rightarrow>
     if str_len token = 2 \<and> starts_with ''-'' token
     then Facts (if cp_allow_flags policy then [cmd_fact src ''command_flag'' (drop 1 token) []] else [])
     else Target))))"

fun classify_rest :: "command_extractor_policy \<Rightarrow> string \<Rightarrow> string list \<Rightarrow> fact list \<times> string list" where
  "classify_rest policy src [] = ([], [])"
| "classify_rest policy src (token # rest) =
     (case classify_token policy src token rest of
        Facts fs \<Rightarrow> (case classify_rest policy src rest of (facts, targets) \<Rightarrow> (fs @ facts, targets))
      | FactsOfTwo fs \<Rightarrow>
          (case classify_rest policy src (drop 1 rest) of (facts, targets) \<Rightarrow> (fs @ facts, targets))
      | Target \<Rightarrow> (case classify_rest policy src rest of (facts, targets) \<Rightarrow> (facts, token # targets)))"

definition goal_facts :: "command_extractor_policy \<Rightarrow> string \<Rightarrow> string \<Rightarrow> fact list" where
  "goal_facts policy src token1 =
     (if starts_with ''-D'' token1 \<or> starts_with ''-P'' token1 \<or> starts_with ''-x'' token1 then []
      else [cmd_fact src ''command_goal'' token1 [],
            cmd_fact src ''command_intent'' (infer_intent token1 (cp_goal_map policy)) [''intent'']])"

definition classify :: "string list \<Rightarrow> command_extractor_policy \<Rightarrow> string \<Rightarrow> fact list" where
  "classify tokens policy src =
     (case tokens of
        [] \<Rightarrow> []
      | executable # more_tokens \<Rightarrow>
          [cmd_fact src ''command_executable'' executable [],
           cmd_fact src ''command_tool'' (classify_tool executable) [''tool'']] @
          (case more_tokens of
             [] \<Rightarrow> []
           | token1 # rest \<Rightarrow>
               goal_facts policy src token1 @
               (case classify_rest policy src rest of
                  (facts, targets) \<Rightarrow>
                    facts @
                    (if cp_allow_targets policy
                     then map (\<lambda>target. cmd_fact src ''command_target'' target []) targets
                     else []))))"

record command_extractor =
  ce_name :: string
  ce_policy :: command_extractor_policy

definition diagnostic_fact :: "string \<Rightarrow> string \<Rightarrow> string \<Rightarrow> fact" where
  "diagnostic_fact src key v =
     \<lparr>fact_key = key, fact_value = v, fact_tags = [''diagnostic''], fact_source = src, fact_confidence = 0\<rparr>"

definition extract_command :: "command_extractor \<Rightarrow> string \<Rightarrow> fact list" where
  "extract_command e command =
     (case command_tokens command (cp_max_tokens (ce_policy e)) (cp_max_input_len (ce_policy e)) of
        Inl diag \<Rightarrow> [diagnostic_fact (ce_name e) (diag_key diag) (diag_value diag)]
      | Inr tokens \<Rightarrow>
          if tokens = [] then [diagnostic_fact (ce_name e) ''empty_command'' []]
          else classify tokens (ce_policy e) (ce_name e))"


section \<open>Quoting\<close>

text \<open>A way to write any tokens as a command line: each in double quotes, with quotes and backslashes escaped.\<close>

definition escape_char :: "char \<Rightarrow> string" where
  "escape_char c = (if c = dquote \<or> c = backslash then [backslash, c] else [c])"

definition quote_token :: "string \<Rightarrow> string" where
  "quote_token t = dquote # concat (map escape_char t) @ [dquote]"

definition command_line :: "string list \<Rightarrow> string" where
  "command_line ts = join_with CHR '' '' (map quote_token ts)"

lemma double_quoted_steps:
  "double_quoted acc (dquote # cs) = Ok (acc, cs)"
  "double_quoted acc (backslash # d # cs) = double_quoted (acc @ unescape d) cs"
  "c \<noteq> dquote \<Longrightarrow> c \<noteq> backslash \<Longrightarrow> double_quoted acc (c # cs) = double_quoted (acc @ [c]) cs"
  by (cases cs; simp)+

lemma double_quoted_escaped:
  "double_quoted acc (concat (map escape_char t) @ dquote # rest) = Ok (acc @ t, rest)"
  by (induction t arbitrary: acc)
     (auto simp: escape_char_def unescape_def double_quoted_steps simp del: double_quoted.simps)

lemma quote_token_starts:
  "quote_token t @ rest = dquote # concat (map escape_char t) @ dquote # rest"
  by (simp add: quote_token_def)

lemma dquote_plain [simp]: "\<not> is_unsafe dquote" "\<not> is_whitespace dquote" "\<not> is_unsafe CHR '' ''" "is_whitespace CHR '' ''"
  by (simp_all add: is_unsafe_def is_whitespace_def)

lemma word_step:
  fixes n m :: "32 word"
  assumes "unat n < unat m"
  shows "\<not> m < n + 1" "unat (n + 1) = Suc (unat n)"
proof -
  have "unat n + 1 < 2 ^ 32" using assms unsigned_less [of m, where ?'a = nat] by simp
  then show "unat (n + 1) = Suc (unat n)" by (simp add: unat_word_ariths)
  with assms show "\<not> m < n + 1" by (simp add: word_less_nat_alt)
qed

lemma token_loop_quoted:
  assumes "unat n < unat max_tokens"
  shows "token_loop len max_tokens n tokens (quote_token t @ rest) =
         token_loop len max_tokens (n + 1) (tokens @ [t]) rest"
  unfolding quote_token_starts
  using double_quoted_escaped [of "[]" t rest] word_step(1) [OF assms]
  by (simp add: start_token_def)

lemma token_loop_command_line:
  "unat n + length ts \<le> unat max_tokens \<Longrightarrow>
   token_loop len max_tokens n tokens (command_line ts) = Ok (tokens @ ts)"
proof (induction ts arbitrary: n tokens)
  case Nil
  then show ?case by (simp add: command_line_def)
next
  case (Cons t ts)
  have n: "unat n < unat max_tokens" using Cons.prems by simp
  have len: "unat (n + 1) + length ts \<le> unat max_tokens" using Cons.prems word_step(2) [OF n] by simp
  show ?case
  proof (cases ts)
    case Nil
    then show ?thesis using token_loop_quoted [OF n, of len tokens t "[]"] by (simp add: command_line_def)
  next
    case (Cons u us)
    then have "command_line (t # ts) = quote_token t @ CHR '' '' # command_line ts"
      by (simp add: command_line_def)
    then show ?thesis using token_loop_quoted [OF n] Cons.IH [OF len] by simp
  qed
qed

text \<open>
  C25: Any list of tokens, whatever characters they hold, can be written as a command line and comes back from the
  tokenizer, within the two limits of the policy.
\<close>

theorem quoted_tokens_roundtrip:
  assumes "ts \<noteq> []" "length ts \<le> unat max_tokens" "str_len (command_line ts) \<le> unat max_input_len"
  shows "command_tokens (command_line ts) max_tokens max_input_len = Ok ts"
proof -
  have "command_line ts \<noteq> []"
    using assms(1) by (cases ts; cases "tl ts") (auto simp: command_line_def quote_token_def)
  moreover have "\<not> max_input_len < of_nat (str_len (command_line ts))"
    using assms(3) unsigned_less [of max_input_len, where ?'a = nat]
    by (simp add: word_less_nat_alt unat_of_nat take_bit_nat_eq_self)
  ultimately show ?thesis
    using token_loop_command_line [of 0 ts max_tokens _ "[]"] assms(2)
    by (simp add: command_tokens_def Let_def)
qed

theorem quoted_tokens_roundtrip_witness:
  "command_tokens (command_line [''git'', ''a b'', [CHR ''$'', dquote, backslash]]) 64 4096 = Ok [''git'', ''a b'', [CHR ''$'', dquote, backslash]]"
  by (rule quoted_tokens_roundtrip) code_simp+


lemma word_below_succ: "m \<noteq> - 1 \<Longrightarrow> (m :: 32 word) < m + 1"
proof -
  assume "m \<noteq> - 1"
  then have "m + 1 \<noteq> 0" by (metis add.commute add_eq_0_iff2 minus_minus)
  then have "unat (1 + m) = Suc (unat m)" by (intro unatSuc) (simp add: add.commute)
  then show ?thesis by (simp add: word_less_nat_alt add.commute)
qed

section \<open>Plain command lines\<close>

text \<open>The words of a text, and the characters that give a command line more structure than words.\<close>

function words :: "string \<Rightarrow> string list" where
  "words [] = []"
| "words (c # cs) =
     (if is_whitespace c then words cs
      else (c # takeWhile (\<lambda>d. \<not> is_whitespace d) cs) # words (dropWhile (\<lambda>d. \<not> is_whitespace d) cs))"
  by pat_completeness auto
termination
  by (relation "measure length") (auto simp: length_dropWhile_le le_imp_less_Suc)

definition plain_text :: "string \<Rightarrow> bool" where
  "plain_text s = (squote \<notin> set s \<and> dquote \<notin> set s \<and> backslash \<notin> set s)"

lemma plain_text_Cons:
  "plain_text (c # cs) \<longleftrightarrow> c \<noteq> squote \<and> c \<noteq> dquote \<and> c \<noteq> backslash \<and> plain_text cs"
  by (auto simp: plain_text_def)

lemma plain_text_dropWhile: "plain_text cs \<Longrightarrow> plain_text (dropWhile P cs)"
  by (auto simp: plain_text_def dest: set_dropWhileD)

lemma unquoted_plain:
  "plain_text cs \<Longrightarrow>
   unquoted token cs = Ok (token', rest) \<longleftrightarrow>
     (\<forall>c \<in> set (takeWhile (\<lambda>d. \<not> is_whitespace d) cs). \<not> is_unsafe c) \<and>
     token' = token @ takeWhile (\<lambda>d. \<not> is_whitespace d) cs \<and> rest = dropWhile (\<lambda>d. \<not> is_whitespace d) cs"
  by (induction cs arbitrary: token) (auto simp: plain_text_Cons)

lemma set_take_dropWhile: "set cs = set (takeWhile P cs) \<union> set (dropWhile P cs)"
  by (metis set_append takeWhile_dropWhile_id)

lemma start_token_plain:
  assumes "plain_text (c # cs)"
  shows "start_token c cs = Ok (token, rest) \<longleftrightarrow>
     (\<forall>d \<in> set (takeWhile (\<lambda>d. \<not> is_whitespace d) cs). \<not> is_unsafe d) \<and>
     token = c # takeWhile (\<lambda>d. \<not> is_whitespace d) cs \<and> rest = dropWhile (\<lambda>d. \<not> is_whitespace d) cs"
  using assms unquoted_plain [of cs "[c]"] by (auto simp: plain_text_Cons start_token_def)

lemma token_loop_plain:
  assumes "plain_text cs" "unat n \<le> unat max_tokens" and max_tokens: "max_tokens \<noteq> - 1"
  shows "token_loop len max_tokens n tokens cs = Ok ts \<longleftrightarrow>
     (\<forall>c \<in> set cs. \<not> is_unsafe c) \<and> unat n + length (words cs) \<le> unat max_tokens \<and> ts = tokens @ words cs"
  using assms(1,2)
proof (induction "length cs" arbitrary: cs n tokens rule: less_induct)
  case less
  let ?nows = "\<lambda>d. \<not> is_whitespace d"
  show ?case
  proof (cases cs)
    case Nil
    with less.prems show ?thesis by auto
  next
    case (Cons c cs')
    have plain: "plain_text cs'" using less.prems(1) Cons by (simp add: plain_text_Cons)
    consider "is_unsafe c" | "\<not> is_unsafe c" "is_whitespace c" | "\<not> is_unsafe c" "\<not> is_whitespace c"
      by blast
    then show ?thesis
    proof cases
      case 1
      then show ?thesis using Cons by simp
    next
      case 2
      then show ?thesis using less.hyps [OF _ plain less.prems(2)] Cons by simp
    next
      case 3
      show ?thesis
      proof (cases "unat n < unat max_tokens")
        case False
        then have "n = max_tokens" using less.prems(2) by (simp add: word_unat_eq_iff)
        then have "max_tokens < n + 1" using word_below_succ [OF max_tokens] by simp
        then show ?thesis using 3 Cons False by simp
      next
        case True
        note step = word_step [OF True]
        have rest: "length (dropWhile ?nows cs') < length cs" "plain_text (dropWhile ?nows cs')"
          using Cons plain by (auto simp: plain_text_dropWhile le_imp_less_Suc length_dropWhile_le)
        have "token_loop len max_tokens n tokens cs = Ok ts \<longleftrightarrow>
            (\<forall>d \<in> set (takeWhile ?nows cs'). \<not> is_unsafe d) \<and>
            token_loop len max_tokens (n + 1) (tokens @ [c # takeWhile ?nows cs']) (dropWhile ?nows cs') = Ok ts"
          using 3 Cons step(1) start_token_plain [of c cs'] less.prems(1)
          by (auto split: sum.splits) blast
        then show ?thesis
          using less.hyps [OF rest, of "n + 1"] 3 True step(2) Cons set_take_dropWhile [of cs' ?nows]
          by auto
      qed
    qed
  qed
qed

text \<open>
  A command line without quotes and backslashes is accepted exactly when it is not empty, within the limits
  and free of shell metacharacters, and then its tokens are its words.
\<close>

theorem plain_command_tokens_iff:
  assumes "plain_text command" "max_tokens \<noteq> - 1"
  shows "command_tokens command max_tokens max_input_len = Ok ts \<longleftrightarrow>
     command \<noteq> [] \<and> of_nat (str_len command) \<le> max_input_len \<and> (\<forall>c \<in> set command. \<not> is_unsafe c) \<and>
     length (words command) \<le> unat max_tokens \<and> ts = words command"
  using token_loop_plain [OF assms(1) _ assms(2), of 0] by (auto simp: command_tokens_def Let_def not_less)

theorem plain_command_tokens_iff_witness:
  "command_tokens ''mvn  clean test'' 64 4096 = Ok [''mvn'', ''clean'', ''test'']"
proof -
  have "plain_text ''mvn  clean test''" "(64 :: 32 word) \<noteq> - 1" "words ''mvn  clean test'' = [''mvn'', ''clean'', ''test'']"
    "(of_nat (str_len ''mvn  clean test'') :: 32 word) \<le> 4096" "\<forall>c \<in> set ''mvn  clean test''. \<not> is_unsafe c"
    "length [''mvn'', ''clean'', ''test''] \<le> unat (64 :: 32 word)"
    by code_simp+
  then show ?thesis
    using plain_command_tokens_iff [of "''mvn  clean test''" 64 4096 "[''mvn'', ''clean'', ''test'']"] by simp
qed

section \<open>Facts of a command\<close>

definition command_keys :: "string set" where
  "command_keys = {''command_executable'', ''command_tool'', ''command_goal'', ''command_intent'',
     ''command_flag'', ''command_option'', ''command_target''}"

definition proper_fact :: "string \<Rightarrow> fact \<Rightarrow> bool" where
  "proper_fact src f \<longleftrightarrow> fact_source f = src \<and> fact_confidence f = one_f32 \<and> fact_key f \<in> command_keys"

lemma cmd_fact_proper [simp]: "key \<in> command_keys \<Longrightarrow> proper_fact src (cmd_fact src key v tags)"
  by (simp add: proper_fact_def cmd_fact_def)

lemma command_keys_simps [simp]:
  "''command_executable'' \<in> command_keys" "''command_tool'' \<in> command_keys" "''command_goal'' \<in> command_keys"
  "''command_intent'' \<in> command_keys" "''command_flag'' \<in> command_keys" "''command_option'' \<in> command_keys"
  "''command_target'' \<in> command_keys"
  by (simp_all add: command_keys_def)

lemmas token_fact_defs = flag_facts_def define_facts_def exclude_fact_def option_fact_def

lemma classify_token_proper:
  "classify_token policy src token rest = Facts fs \<Longrightarrow> list_all (proper_fact src) fs"
  "classify_token policy src token rest = FactsOfTwo fs \<Longrightarrow> list_all (proper_fact src) fs"
  by (auto simp: classify_token_def token_fact_defs split: option.splits if_splits list.splits)

lemma classify_rest_proper: "list_all (proper_fact src) (fst (classify_rest policy src tokens))"
  by (induction policy src tokens rule: classify_rest.induct)
     (auto split: token_class.splits prod.splits dest: classify_token_proper)


definition permissive :: "command_extractor_policy \<Rightarrow> command_extractor_policy" where
  "permissive p = p\<lparr>cp_allow_flags := True, cp_allow_targets := True\<rparr>"

definition admitted :: "command_extractor_policy \<Rightarrow> fact \<Rightarrow> bool" where
  "admitted p f =
     ((fact_key f = ''command_flag'' \<longrightarrow> cp_allow_flags p) \<and>
      (fact_key f = ''command_target'' \<longrightarrow> cp_allow_targets p))"

lemma admitted_cmd_fact [simp]:
  "admitted p (cmd_fact src key v tags) \<longleftrightarrow>
     (key = ''command_flag'' \<longrightarrow> cp_allow_flags p) \<and> (key = ''command_target'' \<longrightarrow> cp_allow_targets p)"
  by (simp add: admitted_def cmd_fact_def)

lemma permissive_simps [simp]:
  "cp_allow_flags (permissive p)" "cp_allow_targets (permissive p)"
  "cp_allow_options (permissive p) = cp_allow_options p" "cp_goal_map (permissive p) = cp_goal_map p"
  by (simp_all add: permissive_def)

lemma classify_token_permissive:
  "classify_token p src token rest =
     (case classify_token (permissive p) src token rest of
        Facts fs \<Rightarrow> Facts (filter (admitted p) fs)
      | FactsOfTwo fs \<Rightarrow> FactsOfTwo (filter (admitted p) fs)
      | Target \<Rightarrow> Target)"
  by (simp add: classify_token_def token_fact_defs split: option.split list.split)

lemma classify_rest_permissive:
  "classify_rest p src tokens =
     (case classify_rest (permissive p) src tokens of (fs, targets) \<Rightarrow> (filter (admitted p) fs, targets))"
proof (induction p src tokens rule: classify_rest.induct)
  case (2 policy src token rest)
  then show ?case
    using classify_token_permissive [of policy src token rest]
    by (cases "classify_token (permissive policy) src token rest") (simp_all add: split_beta)
qed simp

text \<open>
  The flags of the policy for flag and target facts only leave facts out: the result is the one of the
  permissive policy without the facts of those keys. (For options this does not hold: when options are not
  allowed, the argument of a separate -x is read as a target.)
\<close>

theorem policy_only_filters:
  "classify tokens p src = filter (admitted p) (classify tokens (permissive p) src)"
  using classify_rest_permissive [of p src "drop 2 tokens"]
  by (cases tokens; cases "tl tokens") (auto simp: classify_def goal_facts_def split_beta filter_map comp_def)

end
