(* ===== verification/Fact_Pipeline.thy ===== *)
theory Fact_Pipeline
  imports Command_Extractor "HOL-Library.Multiset"
begin

text \<open>
  The enrichment pipeline, \<open>enrichment-engine/src\<close>: intent detection (\<open>intent.rs\<close>), the regex, glob, static and
  command extractors (\<open>extractors\<close>), the pattern and extractor caches and the run of the pipeline
  (\<open>pipeline.rs\<close>), the normalizer (\<open>normalizer.rs\<close>) and the test summary. Parameters are the regex crate (compile,
  match and capture), the file system's glob, the catalog, the rule evaluator, the clock and the order in
  which a \<open>HashMap\<close> yields its entries. A path is the string \<open>to_string_lossy\<close> makes of it.
\<close>

section \<open>Models\<close>

record captures =
  cap_full :: string
  cap_name :: "string \<Rightarrow> string option"

record 're regex_engine =
  re_new :: "string \<Rightarrow> (string, 're) result"
  re_is_match :: "'re \<Rightarrow> string \<Rightarrow> bool"
  re_capture_names :: "'re \<Rightarrow> string list"
  re_captures :: "'re \<Rightarrow> string \<Rightarrow> captures option"
  re_dot :: 're

type_synonym glob_fs = "string \<Rightarrow> (string, string list) result"

record operation_invocation =
  oi_command :: string
  oi_args :: "string list"
  oi_working_dir :: "string option"
  oi_env_vars :: "(string \<times> string) list"

definition from_command :: "string \<Rightarrow> operation_invocation" where
  "from_command command = \<lparr>oi_command = command, oi_args = [], oi_working_dir = None, oi_env_vars = []\<rparr>"

record extractor_config =
  xc_id :: string
  xc_extractor_type :: string
  xc_pattern :: string
  xc_fact_key :: string
  xc_priority :: "32 word"
  xc_merge_mode :: string
  xc_policy :: "command_extractor_policy option"
  xc_static_value :: "(string \<times> string) list option"
  xc_output_key :: "string option"
  xc_shape :: "string option"
  xc_fact_type :: "string option"
  xc_confidence :: "32 word option"
  xc_source :: "string option"
  xc_single :: bool

record enricher_descriptor =
  ed_id :: string
  ed_name :: string
  ed_version :: string
  ed_match_patterns :: "string list"
  ed_template :: string
  ed_enabled :: bool
  ed_extractors :: "extractor_config list"
  ed_schema_version :: string
  ed_description :: "string option"
  ed_category :: "string option"
  ed_command_pattern :: "string option"
  ed_advice_scope :: "string list"
  ed_pre_checks :: "string list"
  ed_assertions :: "string list"

record 're validated_pattern =
  vp_regex :: 're
  vp_pattern_str :: string
  vp_fact_key :: string
  vp_extractor_id :: string
  vp_merge_mode :: string
  vp_extractor_type :: string

text \<open>The expression of a glob pattern is a dummy, the compiled dot.\<close>

definition validated_new ::
    "'re regex_engine \<Rightarrow> string \<Rightarrow> string \<Rightarrow> string \<Rightarrow> string \<Rightarrow> (string, 're validated_pattern) result" where
  "validated_new rx extractor_id pattern key merge_mode =
     (case re_new rx pattern of
        Inl e \<Rightarrow> Err e
      | Inr re \<Rightarrow>
          Ok \<lparr>vp_regex = re, vp_pattern_str = pattern, vp_fact_key = key, vp_extractor_id = extractor_id,
              vp_merge_mode = merge_mode, vp_extractor_type = ''regex''\<rparr>)"

definition validated_new_glob :: "'re regex_engine \<Rightarrow> string \<Rightarrow> string \<Rightarrow> string \<Rightarrow> string \<Rightarrow> 're validated_pattern" where
  "validated_new_glob rx extractor_id pattern key merge_mode =
     \<lparr>vp_regex = re_dot rx, vp_pattern_str = pattern, vp_fact_key = key, vp_extractor_id = extractor_id,
      vp_merge_mode = merge_mode, vp_extractor_type = ''glob''\<rparr>"


section \<open>Intent detection\<close>

text \<open>The detector keeps the compiled patterns; a pattern that does not compile is tried again each time.\<close>

type_synonym 're intent_cache = "(string \<times> 're) list"

definition get_or_compile ::
    "'re regex_engine \<Rightarrow> string \<Rightarrow> 're intent_cache \<Rightarrow> 're option \<times> 're intent_cache" where
  "get_or_compile rx pattern cache =
     (case map_of cache pattern of
        Some re \<Rightarrow> (Some re, cache)
      | None \<Rightarrow>
          (case re_new rx pattern of
             Inl _ \<Rightarrow> (None, cache)
           | Inr re \<Rightarrow> (Some re, AList.update pattern re cache)))"

fun any_match ::
    "'re regex_engine \<Rightarrow> string \<Rightarrow> string list \<Rightarrow> 're intent_cache \<Rightarrow> bool \<times> 're intent_cache" where
  "any_match rx command [] cache = (False, cache)"
| "any_match rx command (p # ps) cache =
     (case get_or_compile rx p cache of
        (re, cache') \<Rightarrow>
          if (case re of None \<Rightarrow> False | Some r \<Rightarrow> re_is_match rx r command) then (True, cache')
          else any_match rx command ps cache')"

fun detect ::
    "'re regex_engine \<Rightarrow> string \<Rightarrow> enricher_descriptor list \<Rightarrow> 're intent_cache \<Rightarrow>
     enricher_descriptor list \<times> 're intent_cache" where
  "detect rx command [] cache = ([], cache)"
| "detect rx command (e # es) cache =
     (if ed_enabled e then
        (case any_match rx command (ed_match_patterns e) cache of
           (hit, cache') \<Rightarrow>
             (case detect rx command es cache' of
                (rest, cache'') \<Rightarrow> (if hit then e # rest else rest, cache'')))
      else detect rx command es cache)"

section \<open>Extractors\<close>

record 're regex_extractor =
  rx_name :: string
  rx_pattern :: 're
  rx_fact_key :: string
  rx_merge_mode :: string

definition regex_from_validated :: "'re validated_pattern \<Rightarrow> 're regex_extractor" where
  "regex_from_validated vp =
     \<lparr>rx_name = vp_extractor_id vp, rx_pattern = vp_regex vp, rx_fact_key = vp_fact_key vp,
      rx_merge_mode = vp_merge_mode vp\<rparr>"

definition regex_with_merge_mode ::
    "'re regex_engine \<Rightarrow> string \<Rightarrow> string \<Rightarrow> string \<Rightarrow> string \<Rightarrow> (string, 're regex_extractor) result" where
  "regex_with_merge_mode rx name pattern key merge_mode =
     (case re_new rx pattern of
        Inl e \<Rightarrow> Err (''Config error: Invalid regex: '' @ e)
      | Inr re \<Rightarrow>
          Ok \<lparr>rx_name = name, rx_pattern = re, rx_fact_key = key, rx_merge_mode = merge_mode\<rparr>)"

definition has_named_captures :: "'re regex_engine \<Rightarrow> 're regex_extractor \<Rightarrow> bool" where
  "has_named_captures rx ext = (re_capture_names rx (rx_pattern ext) \<noteq> [])"

definition regex_extract :: "'re regex_engine \<Rightarrow> 're regex_extractor \<Rightarrow> operation_result \<Rightarrow> fact list" where
  "regex_extract rx ext res =
     (let subject = (if op_stdout res = [] then op_stderr res else op_stdout res)
      in case re_captures rx (rx_pattern ext) subject of
           None \<Rightarrow> []
         | Some caps \<Rightarrow>
             let capture_names = re_capture_names rx (rx_pattern ext)
             in if 1 < length capture_names
                then List.map_filter (\<lambda>name.
                       map_option (\<lambda>v. cmd_fact (rx_name ext) name v []) (cap_name caps name)) capture_names
                else [cmd_fact (rx_name ext) (rx_fact_key ext) (cap_full caps) []])"

record glob_extractor =
  gx_name :: string
  gx_pattern :: string
  gx_fact_key :: string
  gx_merge_mode :: string

definition glob_extract :: "glob_fs \<Rightarrow> glob_extractor \<Rightarrow> fact list" where
  "glob_extract fs ext =
     (case fs (gx_pattern ext) of
        Inr paths \<Rightarrow> map (\<lambda>p. cmd_fact (gx_name ext) (gx_fact_key ext) p []) paths
      | Inl _ \<Rightarrow> [])"

record static_fact =
  sf_key :: string
  sf_value :: string
  sf_confidence :: "32 word"

definition static_extract :: "string \<Rightarrow> static_fact list \<Rightarrow> fact list" where
  "static_extract name facts =
     map (\<lambda>sf. \<lparr>fact_key = sf_key sf, fact_value = sf_value sf, fact_tags = [], fact_source = name,
                fact_confidence = sf_confidence sf\<rparr>) facts"

datatype 're extractor_instance =
    RegexInstance "'re regex_extractor"
  | GlobInstance glob_extractor
  | CommandInstance command_extractor

fun instance_extract ::
    "'re regex_engine \<Rightarrow> glob_fs \<Rightarrow> operation_invocation \<Rightarrow> operation_result \<Rightarrow> 're extractor_instance \<Rightarrow>
     fact list" where
  "instance_extract rx fs invoc res (RegexInstance ext) = regex_extract rx ext res"
| "instance_extract rx fs invoc res (GlobInstance ext) = glob_extract fs ext"
| "instance_extract rx fs invoc res (CommandInstance ext) = extract_command ext (oi_command invoc)"

fun instance_name :: "'re extractor_instance \<Rightarrow> string" where
  "instance_name (RegexInstance ext) = rx_name ext"
| "instance_name (GlobInstance ext) = gx_name ext"
| "instance_name (CommandInstance ext) = ce_name ext"

section \<open>Caches\<close>

type_synonym 're compiled_cache = "(string \<times> 're validated_pattern list) list"

definition validate_extractor :: "'re regex_engine \<Rightarrow> extractor_config \<Rightarrow> 're validated_pattern option" where
  "validate_extractor rx ext =
     (if xc_extractor_type ext = ''regex'' then
        (case validated_new rx (xc_id ext) (xc_pattern ext) (xc_fact_key ext) (xc_merge_mode ext) of
           Inr vp \<Rightarrow> Some vp
         | Inl _ \<Rightarrow> None)
      else if xc_extractor_type ext = ''glob'' then
        Some (validated_new_glob rx (xc_id ext) (xc_pattern ext) (xc_fact_key ext) (xc_merge_mode ext))
      else None)"

definition from_enrichers :: "'re regex_engine \<Rightarrow> enricher_descriptor list \<Rightarrow> 're compiled_cache" where
  "from_enrichers rx enrichers =
     foldl (\<lambda>cache e. AList.update (ed_id e) (List.map_filter (validate_extractor rx) (ed_extractors e)) cache)
       [] enrichers"

definition build_instance :: "'re validated_pattern \<Rightarrow> 're extractor_instance" where
  "build_instance vp =
     (if vp_extractor_type vp = ''regex'' then RegexInstance (regex_from_validated vp)
      else if vp_extractor_type vp = ''glob'' then
        GlobInstance \<lparr>gx_name = vp_extractor_id vp, gx_pattern = vp_pattern_str vp,
                      gx_fact_key = vp_fact_key vp, gx_merge_mode = vp_merge_mode vp\<rparr>
      else RegexInstance (regex_from_validated vp))"

record 're fact_pipeline =
  fp_compiled_cache :: "'re compiled_cache"
  fp_cached_extractors :: "(string \<times> 're extractor_instance list) list option"

definition pipeline_with_cache :: "'re compiled_cache \<Rightarrow> 're fact_pipeline" where
  "pipeline_with_cache cache = \<lparr>fp_compiled_cache = cache, fp_cached_extractors = None\<rparr>"

definition build_cached_extractors :: "'re fact_pipeline \<Rightarrow> 're fact_pipeline" where
  "build_cached_extractors fp =
     (case fp_cached_extractors fp of
        Some _ \<Rightarrow> fp
      | None \<Rightarrow>
          fp\<lparr>fp_cached_extractors :=
               Some (map (\<lambda>(i, patterns). (i, map build_instance patterns)) (fp_compiled_cache fp))\<rparr>)"

definition run_extractor ::
    "'re regex_engine \<Rightarrow> glob_fs \<Rightarrow> operation_invocation \<Rightarrow> operation_result \<Rightarrow> extractor_config \<Rightarrow>
     (string, fact list) result" where
  "run_extractor rx fs invoc res config =
     (if xc_extractor_type config = ''regex'' then
        (case regex_with_merge_mode rx (xc_id config) (xc_pattern config) (xc_fact_key config)
                (xc_merge_mode config) of
           Inl e \<Rightarrow> Err e
         | Inr extractor \<Rightarrow> Ok (regex_extract rx extractor res))
      else if xc_extractor_type config = ''glob'' then
        Ok (glob_extract fs \<lparr>gx_name = xc_id config, gx_pattern = xc_pattern config,
                             gx_fact_key = xc_fact_key config, gx_merge_mode = xc_merge_mode config\<rparr>)
      else if xc_extractor_type config = ''command'' then
        Ok (extract_command
              \<lparr>ce_name = xc_id config,
               ce_policy = (case xc_policy config of Some p \<Rightarrow> p | None \<Rightarrow> policy_default)\<rparr>
              (oi_command invoc))
      else Ok [])"

definition execute_extractors ::
    "'re regex_engine \<Rightarrow> glob_fs \<Rightarrow> operation_invocation \<Rightarrow> operation_result \<Rightarrow> enricher_descriptor \<Rightarrow>
     're fact_pipeline \<Rightarrow> fact list \<times> 're fact_pipeline" where
  "execute_extractors rx fs invoc res enricher fp =
     (let fp' = build_cached_extractors fp;
          cached_instances =
            (case fp_cached_extractors fp' of
               None \<Rightarrow> []
             | Some m \<Rightarrow> (case map_of m (ed_id enricher) of None \<Rightarrow> [] | Some instances \<Rightarrow> instances));
          cached_extractor_ids = set (map instance_name cached_instances);
          cached_facts = concat (map (instance_extract rx fs invoc res) cached_instances);
          per_call = concat (map (\<lambda>config.
            case run_extractor rx fs invoc res config of Inr facts \<Rightarrow> facts | Inl _ \<Rightarrow> [])
            (filter (\<lambda>config. xc_id config \<notin> cached_extractor_ids) (ed_extractors enricher)))
      in (cached_facts @ per_call, fp'))"


section \<open>Normalizer\<close>

text \<open>
  Comparison of two \<open>f32\<close> by their bit patterns: no order with a NaN, otherwise sign and magnitude, which
  makes the two zeros equal.
\<close>

definition f32_magnitude :: "32 word \<Rightarrow> int" where
  "f32_magnitude w = uint w mod 2 ^ 31"

definition f32_is_nan :: "32 word \<Rightarrow> bool" where
  "f32_is_nan w = (0x7F800000 < f32_magnitude w)"

definition f32_rank :: "32 word \<Rightarrow> int" where
  "f32_rank w = (if uint w < 2 ^ 31 then f32_magnitude w else - f32_magnitude w)"

definition f32_ge :: "32 word \<Rightarrow> 32 word \<Rightarrow> bool" where
  "f32_ge a b = (\<not> f32_is_nan a \<and> \<not> f32_is_nan b \<and> f32_rank b \<le> f32_rank a)"

text \<open>\<open>partial_cmp\<close> is \<open>Greater\<close>; without an order the source takes \<open>Equal\<close>.\<close>

definition f32_greater :: "32 word \<Rightarrow> 32 word \<Rightarrow> bool" where
  "f32_greater a b = (\<not> f32_is_nan a \<and> \<not> f32_is_nan b \<and> f32_rank b < f32_rank a)"

text \<open>\<open>Iterator::max_by\<close> keeps the later of two elements unless the earlier one is greater.\<close>

fun best_fact :: "fact \<Rightarrow> fact list \<Rightarrow> fact" where
  "best_fact best [] = best"
| "best_fact best (f # fs) =
     best_fact (if f32_greater (fact_confidence best) (fact_confidence f) then best else f) fs"

definition default_threshold :: "32 word" where
  "default_threshold = 0x3F000000"

definition group_by_key :: "fact list \<Rightarrow> (string \<times> fact list) list" where
  "group_by_key facts =
     foldl (\<lambda>by_key f.
       AList.update (fact_key f)
         ((case map_of by_key (fact_key f) of None \<Rightarrow> [] | Some fs \<Rightarrow> fs) @ [f]) by_key) [] facts"

definition merge_group :: "(string \<rightharpoonup> extractor_config) \<Rightarrow> fact list \<Rightarrow> fact list" where
  "merge_group config facts_with_key =
     (case facts_with_key of
        [] \<Rightarrow> []
      | f # fs \<Rightarrow>
          let merge_mode = (case config (fact_source f) of None \<Rightarrow> ''single'' | Some cfg \<Rightarrow> xc_merge_mode cfg)
          in if merge_mode = ''multi'' then f # fs else [best_fact f fs])"

text \<open>The parameter \<open>order\<close> is the order in which the map of groups yields its entries.\<close>

type_synonym group_order = "(string \<times> fact list) list \<Rightarrow> (string \<times> fact list) list"

definition normalize_with_config ::
    "group_order \<Rightarrow> 32 word \<Rightarrow> (string \<rightharpoonup> extractor_config) \<Rightarrow> fact list \<Rightarrow> fact list" where
  "normalize_with_config order threshold config facts =
     filter (\<lambda>f. f32_ge (fact_confidence f) threshold)
       (concat (map (\<lambda>(_, fs). merge_group config fs) (order (group_by_key facts))))"

definition normalize :: "group_order \<Rightarrow> 32 word \<Rightarrow> fact list \<Rightarrow> fact list" where
  "normalize order threshold facts = normalize_with_config order threshold Map.empty facts"

section \<open>The run\<close>

record test_summary =
  ts_run :: "32 word"
  ts_failed :: "32 word"
  ts_errors :: "32 word"
  ts_skipped :: "32 word"

record enrichment_meta =
  em_source :: string
  em_timestamp :: string
  em_enricher_id :: string

record agent_context =
  ac_facts :: "fact list"
  ac_build_status :: "string option"
  ac_artifacts :: "fact list"
  ac_test_summary :: "test_summary option"
  ac_meta :: enrichment_meta
  ac_verdict :: "string option"
  ac_recommendations :: "string list option"

definition fact_value_of :: "fact list \<Rightarrow> string \<Rightarrow> string option" where
  "fact_value_of facts key = map_option fact_value (find (\<lambda>f. fact_key f = key) facts)"

text \<open>\<open>str::parse::<u32>\<close>: a minus sign is not a digit of an unsigned type.\<close>

definition parse_u32 :: "string \<Rightarrow> 32 word option" where
  "parse_u32 s =
     (if starts_with ''-'' s then None else map_option of_int (parse_int 0 (2 ^ 32 - 1) s))"

definition count_of :: "fact list \<Rightarrow> string \<Rightarrow> 32 word" where
  "count_of facts key =
     (case fact_value_of facts key of
        None \<Rightarrow> 0
      | Some s \<Rightarrow> (case parse_u32 s of None \<Rightarrow> 0 | Some n \<Rightarrow> n))"

definition parse_test_summary :: "fact list \<Rightarrow> test_summary option" where
  "parse_test_summary facts =
     (case fact_value_of facts ''tests_run'' of
        None \<Rightarrow> None
      | Some _ \<Rightarrow>
          Some \<lparr>ts_run = count_of facts ''tests_run'', ts_failed = count_of facts ''tests_failed'',
                ts_errors = count_of facts ''tests_errors'', ts_skipped = count_of facts ''tests_skipped''\<rparr>)"

definition compose_context ::
    "string \<Rightarrow> fact list \<Rightarrow> enricher_descriptor \<Rightarrow> string option \<Rightarrow> string list option \<Rightarrow> agent_context" where
  "compose_context now facts enricher verdict recommendations =
     \<lparr>ac_facts = facts, ac_build_status = fact_value_of facts ''build_status'',
      ac_artifacts = filter (\<lambda>f. str_contains ''artifact'' (fact_key f)) facts,
      ac_test_summary = parse_test_summary facts,
      ac_meta = \<lparr>em_source = ''enrichment-engine'', em_timestamp = now, em_enricher_id = ed_id enricher\<rparr>,
      ac_verdict = verdict, ac_recommendations = recommendations\<rparr>"

type_synonym rule_evaluator =
  "string \<Rightarrow> operation_invocation \<Rightarrow> operation_result \<Rightarrow> fact list \<Rightarrow> rule_output"

definition evaluate_and_normalize ::
    "group_order \<Rightarrow> rule_evaluator option \<Rightarrow> operation_invocation \<Rightarrow> operation_result \<Rightarrow>
     enricher_descriptor \<Rightarrow> fact list \<Rightarrow> rule_output \<times> fact list" where
  "evaluate_and_normalize order evaluator invoc res enricher all_facts =
     (let rule_output =
            (case evaluator of
               Some ev \<Rightarrow> ev (ed_id enricher) invoc res all_facts
             | None \<Rightarrow> rule_output_empty);
          facts = (case evaluator of Some _ \<Rightarrow> all_facts @ ro_facts rule_output | None \<Rightarrow> all_facts);
          config = map_of (rev (map (\<lambda>e. (xc_id e, e)) (ed_extractors enricher)))
      in (rule_output, normalize_with_config order default_threshold config facts))"

definition select_enricher ::
    "'re regex_engine \<Rightarrow> (string \<Rightarrow> enricher_descriptor list) \<Rightarrow> operation_invocation \<Rightarrow>
     enricher_descriptor option" where
  "select_enricher rx find_enrichers invoc =
     (case fst (detect rx (oi_command invoc) (find_enrichers (oi_command invoc)) []) of
        [] \<Rightarrow> None
      | e # _ \<Rightarrow> Some e)"

definition pipeline_run ::
    "'re regex_engine \<Rightarrow> glob_fs \<Rightarrow> group_order \<Rightarrow> (string \<Rightarrow> enricher_descriptor list) \<Rightarrow>
     rule_evaluator option \<Rightarrow> string \<Rightarrow> operation_invocation \<Rightarrow> operation_result \<Rightarrow> 're fact_pipeline \<Rightarrow>
     (string, agent_context) result \<times> 're fact_pipeline" where
  "pipeline_run rx fs order find_enrichers evaluator now invoc res fp =
     (case select_enricher rx find_enrichers invoc of
        None \<Rightarrow>
          (Ok \<lparr>ac_facts = [], ac_build_status = None, ac_artifacts = [], ac_test_summary = None,
               ac_meta = \<lparr>em_source = ''enrichment-engine'', em_timestamp = now, em_enricher_id = []\<rparr>,
               ac_verdict = None, ac_recommendations = None\<rparr>, fp)
      | Some enricher \<Rightarrow>
          let (all_facts, fp') = execute_extractors rx fs invoc res enricher fp;
              (rule_output, normalized) = evaluate_and_normalize order evaluator invoc res enricher all_facts
          in (Ok (compose_context now normalized enricher (ro_verdict rule_output)
                    (if ro_recommendations rule_output = [] then None
                     else Some (ro_recommendations rule_output))), fp'))"


section \<open>The intent cache is transparent\<close>

definition pattern_matches :: "'re regex_engine \<Rightarrow> string \<Rightarrow> string \<Rightarrow> bool" where
  "pattern_matches rx command p = (case re_new rx p of Inl _ \<Rightarrow> False | Inr re \<Rightarrow> re_is_match rx re command)"

definition cache_ok :: "'re regex_engine \<Rightarrow> 're intent_cache \<Rightarrow> bool" where
  "cache_ok rx cache \<longleftrightarrow> (\<forall>p re. map_of cache p = Some re \<longrightarrow> re_new rx p = Ok re)"

lemma get_or_compile_ok:
  assumes "cache_ok rx cache"
  shows "fst (get_or_compile rx p cache) = (case re_new rx p of Inl _ \<Rightarrow> None | Inr re \<Rightarrow> Some re)"
    and "cache_ok rx (snd (get_or_compile rx p cache))"
  using assms by (auto simp: get_or_compile_def cache_ok_def update_conv' split: option.splits sum.splits)

lemma any_match_ok:
  "cache_ok rx cache \<Longrightarrow>
     fst (any_match rx command ps cache) = list_ex (pattern_matches rx command) ps \<and>
     cache_ok rx (snd (any_match rx command ps cache))"
proof (induction ps arbitrary: cache)
  case (Cons p ps)
  obtain re cache' where g: "get_or_compile rx p cache = (re, cache')" by (cases "get_or_compile rx p cache")
  then have "re = (case re_new rx p of Inl _ \<Rightarrow> None | Inr r \<Rightarrow> Some r)" and ok: "cache_ok rx cache'"
    using get_or_compile_ok [OF Cons.prems, of p] by simp_all
  then have "(case re of None \<Rightarrow> False | Some r \<Rightarrow> re_is_match rx r command) = pattern_matches rx command p"
    by (cases "re_new rx p") (simp_all add: pattern_matches_def)
  then show ?case using Cons.IH [OF ok] ok g by simp
qed simp

lemma detect_ok:
  "cache_ok rx cache \<Longrightarrow>
     fst (detect rx command es cache) =
       filter (\<lambda>e. ed_enabled e \<and> list_ex (pattern_matches rx command) (ed_match_patterns e)) es \<and>
     cache_ok rx (snd (detect rx command es cache))"
proof (induction es arbitrary: cache)
  case (Cons e es)
  then show ?case
    using any_match_ok [OF Cons.prems, of command "ed_match_patterns e"] by (auto simp: split_beta)
qed simp

text \<open>
  Whatever a detector has been asked before, it answers with the enabled enrichers one of whose patterns
  compiles and matches the command, in their order; its cache of compiled patterns changes no answer.
\<close>

theorem detection_ignores_history:
  "fst (detect rx command es (fold (\<lambda>(c, es') cache. snd (detect rx c es' cache)) history [])) =
     filter (\<lambda>e. ed_enabled e \<and> list_ex (pattern_matches rx command) (ed_match_patterns e)) es"
proof -
  have "cache_ok rx (fold (\<lambda>(c, es') cache. snd (detect rx c es' cache)) history [])"
    by (rule fold_invariant [where Q = "\<lambda>_. True"])
       (auto simp: cache_ok_def [of rx "[]"] conjunct2 [OF detect_ok])
  then show ?thesis using detect_ok by blast
qed

section \<open>The extractor cache is transparent\<close>

definition facts_of :: "'re regex_engine \<Rightarrow> glob_fs \<Rightarrow> operation_invocation \<Rightarrow> operation_result \<Rightarrow>
    extractor_config \<Rightarrow> fact list" where
  "facts_of rx fs invoc res config = (case run_extractor rx fs invoc res config of Inr facts \<Rightarrow> facts | Inl _ \<Rightarrow> [])"

lemma cached_instance:
  assumes "validate_extractor rx config = Some vp"
  shows "instance_extract rx fs invoc res (build_instance vp) = facts_of rx fs invoc res config"
    and "instance_name (build_instance vp) = xc_id config"
proof -
  note defs = validated_new_def validated_new_glob_def build_instance_def regex_from_validated_def
    facts_of_def run_extractor_def regex_with_merge_mode_def
  consider re where "xc_extractor_type config = ''regex''" "re_new rx (xc_pattern config) = Ok re"
    | "xc_extractor_type config = ''glob''"
    using assms by (auto simp: validate_extractor_def validated_new_def split: if_splits sum.splits)
  then have "instance_extract rx fs invoc res (build_instance vp) = facts_of rx fs invoc res config \<and>
      instance_name (build_instance vp) = xc_id config"
  proof cases
    case 1
    with assms have "vp = \<lparr>vp_regex = re, vp_pattern_str = xc_pattern config, vp_fact_key = xc_fact_key config,
        vp_extractor_id = xc_id config, vp_merge_mode = xc_merge_mode config, vp_extractor_type = ''regex''\<rparr>"
      by (simp add: validate_extractor_def validated_new_def)
    with 1 show ?thesis by (simp add: defs)
  next
    case 2
    with assms have "vp = validated_new_glob rx (xc_id config) (xc_pattern config) (xc_fact_key config)
        (xc_merge_mode config)"
      by (simp add: validate_extractor_def)
    with 2 show ?thesis by (simp add: defs)
  qed
  then show "instance_extract rx fs invoc res (build_instance vp) = facts_of rx fs invoc res config"
    "instance_name (build_instance vp) = xc_id config" by simp_all
qed

lemma mset_concat_partition:
  "mset (concat (map f (filter P xs))) + mset (concat (map f (filter (\<lambda>x. \<not> P x) xs))) = mset (concat (map f xs))"
  by (induction xs) auto

lemma map_filter_cached:
  "concat (map (instance_extract rx fs invoc res) (map build_instance (List.map_filter (validate_extractor rx) xs))) =
     concat (map (facts_of rx fs invoc res) (filter (\<lambda>x. validate_extractor rx x \<noteq> None) xs))"
proof (induction xs)
  case (Cons x xs)
  then show ?case
    using cached_instance(1) [of rx x]
    by (cases "validate_extractor rx x") (simp_all add: List.map_filter_simps)
qed (simp add: List.map_filter_simps)

lemma cached_names:
  "set (map instance_name (map build_instance (List.map_filter (validate_extractor rx) xs))) =
     xc_id ` set (filter (\<lambda>x. validate_extractor rx x \<noteq> None) xs)"
proof (induction xs)
  case (Cons x xs)
  then show ?case
    using cached_instance(2) [of rx x]
    by (cases "validate_extractor rx x") (simp_all add: List.map_filter_simps)
qed (simp add: List.map_filter_simps)

lemma distinct_ids_filter:
  assumes "distinct (map xc_id xs)"
  shows "filter (\<lambda>x. xc_id x \<notin> xc_id ` set (filter P xs)) xs = filter (\<lambda>x. \<not> P x) xs"
  using assms by (intro filter_cong) (auto simp: distinct_map inj_on_def)

lemma from_enrichers_lookup:
  assumes "distinct (map ed_id es)" "e \<in> set es"
  shows "map_of (from_enrichers rx es) (ed_id e) =
     Some (List.map_filter (validate_extractor rx) (ed_extractors e))"
proof -
  let ?add = "\<lambda>cache e. AList.update (ed_id e) (List.map_filter (validate_extractor rx) (ed_extractors e)) cache"
  have keep: "map_of (foldl ?add c es) k = map_of c k" if "k \<notin> ed_id ` set es" for c k es
    using that by (induction es arbitrary: c) (auto simp: update_conv')
  have "map_of (foldl ?add c es) (ed_id e) =
      Some (List.map_filter (validate_extractor rx) (ed_extractors e))" for c
    using assms
  proof (induction es arbitrary: c)
    case (Cons e' es)
    then show ?case using keep [of "ed_id e" es] by (auto simp: update_conv')
  qed simp
  then show ?thesis by (simp add: from_enrichers_def)
qed

lemma map_of_built: "map_of (map (\<lambda>(i, ps). (i, map g ps)) c) k = map_option (map g) (map_of c k)"
  by (induction c) auto

lemma execute_extractors_facts:
  assumes "fp_cached_extractors fp = None \<or>
      fp_cached_extractors fp = Some (map (\<lambda>(i, ps). (i, map build_instance ps)) (fp_compiled_cache fp))"
  shows "fst (execute_extractors rx fs invoc res e fp) =
     (let instances = (case map_of (fp_compiled_cache fp) (ed_id e) of None \<Rightarrow> [] | Some ps \<Rightarrow> map build_instance ps)
      in concat (map (instance_extract rx fs invoc res) instances) @
         concat (map (facts_of rx fs invoc res)
           (filter (\<lambda>c. xc_id c \<notin> set (map instance_name instances)) (ed_extractors e))))"
    and "snd (execute_extractors rx fs invoc res e fp) =
      fp\<lparr>fp_cached_extractors := Some (map (\<lambda>(i, ps). (i, map build_instance ps)) (fp_compiled_cache fp))\<rparr>"
  using assms
  by (auto simp: execute_extractors_def build_cached_extractors_def Let_def map_of_built facts_of_def [abs_def]
      split: option.splits)

text \<open>
  C27: With the compiled cache of the catalog, however often the pipeline has run before, an enricher of the
  catalog yields the same facts, up to their order, as without any cache.
\<close>

theorem cached_extraction_equivalent:
  assumes "distinct (map ed_id es)" "e \<in> set es" "distinct (map xc_id (ed_extractors e))"
  shows "mset (fst (execute_extractors rx fs invoc res e
           (fold (\<lambda>(i, r, x) fp. snd (execute_extractors rx fs i r x fp)) history
              (pipeline_with_cache (from_enrichers rx es))))) =
         mset (fst (execute_extractors rx fs invoc res e (pipeline_with_cache [])))"
proof -
  let ?cached = "\<lambda>fp. fp_cached_extractors fp = None \<or>
      fp_cached_extractors fp = Some (map (\<lambda>(i, ps). (i, map build_instance ps)) (fp_compiled_cache fp))"
  let ?valid = "\<lambda>x. validate_extractor rx x \<noteq> None"
  define fp where "fp = fold (\<lambda>(i, r, x) fp. snd (execute_extractors rx fs i r x fp)) history
      (pipeline_with_cache (from_enrichers rx es))"
  have "?cached fp \<and> fp_compiled_cache fp = from_enrichers rx es"
    unfolding fp_def
    by (rule fold_invariant [where Q = "\<lambda>_. True"])
       (auto simp: execute_extractors_facts(2) pipeline_with_cache_def)
  then have fp: "?cached fp" "fp_compiled_cache fp = from_enrichers rx es" by blast+
  have "fst (execute_extractors rx fs invoc res e fp) =
      concat (map (facts_of rx fs invoc res) (filter ?valid (ed_extractors e))) @
      concat (map (facts_of rx fs invoc res) (filter (\<lambda>x. \<not> ?valid x) (ed_extractors e)))"
    unfolding execute_extractors_facts(1) [OF fp(1)] fp(2) from_enrichers_lookup [OF assms(1,2)]
    by (simp only: Let_def option.case map_filter_cached cached_names distinct_ids_filter [OF assms(3)])
  then have "mset (fst (execute_extractors rx fs invoc res e fp)) =
      mset (concat (map (facts_of rx fs invoc res) (ed_extractors e)))"
    using mset_concat_partition [of "facts_of rx fs invoc res" ?valid "ed_extractors e"] by simp
  also have "\<dots> = mset (fst (execute_extractors rx fs invoc res e (pipeline_with_cache [])))"
    by (simp add: execute_extractors_facts pipeline_with_cache_def)
  finally show ?thesis unfolding fp_def .
qed


text \<open>A regular expression crate of literal patterns, for concrete runs.\<close>

definition literal_engine :: "string regex_engine" where
  "literal_engine =
     \<lparr>re_new = (\<lambda>p. if p = ''('' then Err ''unclosed group'' else Ok p),
      re_is_match = (\<lambda>re s. str_contains re s),
      re_capture_names = (\<lambda>_. []),
      re_captures = (\<lambda>re s. if str_contains re s then Some \<lparr>cap_full = re, cap_name = (\<lambda>_. None)\<rparr> else None),
      re_dot = ''.''\<rparr>"

definition demo_extractor :: "string \<Rightarrow> string \<Rightarrow> string \<Rightarrow> extractor_config" where
  "demo_extractor i ty pattern =
     \<lparr>xc_id = i, xc_extractor_type = ty, xc_pattern = pattern, xc_fact_key = ''build_status'', xc_priority = 0,
      xc_merge_mode = ''single'', xc_policy = None, xc_static_value = None, xc_output_key = None,
      xc_shape = None, xc_fact_type = None, xc_confidence = None, xc_source = None, xc_single = False\<rparr>"

definition demo_enricher :: enricher_descriptor where
  "demo_enricher =
     \<lparr>ed_id = ''mvn'', ed_name = ''maven'', ed_version = ''1'', ed_match_patterns = [''mvn''], ed_template = [],
      ed_enabled = True,
      ed_extractors = [demo_extractor ''c'' ''command'' [], demo_extractor ''r'' ''regex'' ''SUCCESS'',
                       demo_extractor ''bad'' ''regex'' ''(''],
      ed_schema_version = ''1.0'', ed_description = None, ed_category = None, ed_command_pattern = None,
      ed_advice_scope = [], ed_pre_checks = [], ed_assertions = []\<rparr>"

definition demo_result :: operation_result where
  "demo_result =
     \<lparr>op_exit_code = 0, op_stdout = ''BUILD SUCCESS'', op_stderr = [], op_duration_ms = 5, op_timed_out = False\<rparr>"

theorem cached_extraction_equivalent_witness:
  "mset (fst (execute_extractors literal_engine (\<lambda>_. Ok []) (from_command ''mvn'') demo_result demo_enricher
      (fold (\<lambda>(i, r, x) fp. snd (execute_extractors literal_engine (\<lambda>_. Ok []) i r x fp))
         [(from_command ''mvn'', demo_result, demo_enricher)]
         (pipeline_with_cache (from_enrichers literal_engine [demo_enricher]))))) =
   mset (fst (execute_extractors literal_engine (\<lambda>_. Ok []) (from_command ''mvn'') demo_result demo_enricher
      (pipeline_with_cache [])))"
  by (rule cached_extraction_equivalent) (simp_all add: demo_enricher_def demo_extractor_def)

section \<open>What normalization keeps\<close>

lemma group_by_key_lookup:
  "map_of (group_by_key facts) k =
     (case filter (\<lambda>f. fact_key f = k) facts of [] \<Rightarrow> None | fs \<Rightarrow> Some fs)"
proof (induction facts rule: rev_induct)
  case (snoc f facts)
  then show ?case
    by (cases "filter (\<lambda>f. fact_key f = k) facts")
       (auto simp: group_by_key_def update_conv' split: option.splits)
qed (simp add: group_by_key_def)

lemma group_by_key_distinct: "distinct (map fst (group_by_key facts))"
proof (induction facts rule: rev_induct)
  case (snoc f facts)
  then show ?case by (simp add: group_by_key_def distinct_update)
qed (simp add: group_by_key_def)

text \<open>The last of the facts of greatest confidence.\<close>

abbreviation rank_of :: "fact \<Rightarrow> int" where
  "rank_of f \<equiv> f32_rank (fact_confidence f)"

definition last_greatest :: "fact \<Rightarrow> fact list \<Rightarrow> bool" where
  "last_greatest b fs \<longleftrightarrow>
     (\<exists>us vs. fs = us @ b # vs \<and> (\<forall>u \<in> set us. rank_of u \<le> rank_of b) \<and> (\<forall>v \<in> set vs. rank_of v < rank_of b))"

lemma last_greatestI:
  "fs = us @ b # vs \<Longrightarrow> (\<And>u. u \<in> set us \<Longrightarrow> rank_of u \<le> rank_of b) \<Longrightarrow>
   (\<And>v. v \<in> set vs \<Longrightarrow> rank_of v < rank_of b) \<Longrightarrow> last_greatest b fs"
  unfolding last_greatest_def by blast

lemma last_greatest_upper: "last_greatest b fs \<Longrightarrow> f \<in> set fs \<Longrightarrow> rank_of f \<le> rank_of b"
  by (fastforce simp: last_greatest_def)

lemma last_greatest_step:
  "last_greatest b (f # fs) \<Longrightarrow> rank_of g < rank_of f \<Longrightarrow> last_greatest b (f # g # fs)"
  "last_greatest b (g # fs) \<Longrightarrow> rank_of f \<le> rank_of g \<Longrightarrow> last_greatest b (f # g # fs)"
proof -
  assume lg: "last_greatest b (f # fs)" and less: "rank_of g < rank_of f"
  then obtain us vs where uv: "f # fs = us @ b # vs" "\<forall>u \<in> set us. rank_of u \<le> rank_of b"
    "\<forall>v \<in> set vs. rank_of v < rank_of b"
    by (auto simp: last_greatest_def)
  show "last_greatest b (f # g # fs)"
  proof (cases us)
    case Nil
    then show ?thesis using uv less by (intro last_greatestI [of _ "[]" _ "g # fs"]) auto
  next
    case (Cons u us')
    then have "f # g # fs = (f # g # us') @ b # vs" using uv(1) by simp
    moreover have "rank_of f \<le> rank_of b" by (rule last_greatest_upper [OF lg]) simp
    ultimately show ?thesis using uv(2,3) Cons less by (intro last_greatestI [of _ "f # g # us'" _ vs]) auto
  qed
next
  assume lg: "last_greatest b (g # fs)" and le: "rank_of f \<le> rank_of g"
  then obtain us vs where uv: "g # fs = us @ b # vs" "\<forall>u \<in> set us. rank_of u \<le> rank_of b"
    "\<forall>v \<in> set vs. rank_of v < rank_of b"
    by (auto simp: last_greatest_def)
  moreover have "rank_of g \<le> rank_of b" by (rule last_greatest_upper [OF lg]) simp
  ultimately show "last_greatest b (f # g # fs)"
    using le by (intro last_greatestI [of _ "f # us" _ vs]) auto
qed

lemma best_fact_last_greatest:
  "list_all (\<lambda>f. \<not> f32_is_nan (fact_confidence f)) (f # fs) \<Longrightarrow> last_greatest (best_fact f fs) (f # fs)"
proof (induction fs arbitrary: f)
  case Nil
  show ?case by (rule last_greatestI [of _ "[]" _ "[]"]) simp_all
next
  case (Cons g fs)
  then show ?case
    by (cases "rank_of g < rank_of f") (simp_all add: f32_greater_def last_greatest_step)
qed

lemma best_fact_in: "best_fact f fs \<in> set (f # fs)"
  by (induction fs arbitrary: f) auto

lemma merge_group_Cons:
  "merge_group config (f # fs) =
     (if map_option xc_merge_mode (config (fact_source f)) = Some ''multi'' then f # fs else [best_fact f fs])"
  by (cases "config (fact_source f)") (simp_all add: merge_group_def Let_def)

lemma merge_group_keys: "f \<in> set (merge_group config fs) \<Longrightarrow> f \<in> set fs"
  using best_fact_in by (fastforce simp: merge_group_def Let_def split: list.splits if_splits)

lemma merged_by_key:
  assumes "\<And>k' fs'. (k', fs') \<in> set groups \<Longrightarrow> \<forall>f \<in> set fs'. fact_key f = k'" "distinct (map fst groups)"
  shows "filter (\<lambda>f. fact_key f = k) (concat (map (\<lambda>(_, fs). merge_group config fs) groups)) =
     (case map_of groups k of None \<Rightarrow> [] | Some fs \<Rightarrow> merge_group config fs)"
  using assms
proof (induction groups)
  case (Cons g groups)
  obtain k' fs' where g: "g = (k', fs')" by (cases g)
  have keys: "\<forall>f \<in> set (merge_group config fs'). fact_key f = k'"
    using Cons.prems(1) [of k' fs'] g merge_group_keys by fastforce
  have IH: "filter (\<lambda>f. fact_key f = k) (concat (map (\<lambda>(_, fs). merge_group config fs) groups)) =
     (case map_of groups k of None \<Rightarrow> [] | Some fs \<Rightarrow> merge_group config fs)"
    using Cons.prems by (intro Cons.IH) auto
  show ?case
  proof (cases "k = k'")
    case True
    then have "map_of groups k = None" using Cons.prems(2) g by (simp add: map_of_eq_None_iff)
    then show ?thesis using True g keys IH by (simp add: filter_id_conv)
  next
    case False
    then have "filter (\<lambda>f. fact_key f = k) (merge_group config fs') = []"
      using keys by (auto simp: filter_empty_conv)
    then show ?thesis using False g IH by simp
  qed
qed simp

lemma filter_swap: "filter P (filter Q xs) = filter Q (filter P xs)"
  by (simp add: conj_commute)

text \<open>
  Normalization key by key, for every order in which the groups may be visited: a key whose first fact comes
  from an extractor with merge mode multi keeps all its facts, any other key keeps one, the last of those
  with the greatest confidence; facts below the threshold are dropped.
\<close>

theorem normalize_by_key:
  assumes "\<And>g. mset (order g) = mset g" "list_all (\<lambda>f. \<not> f32_is_nan (fact_confidence f)) facts"
    "filter (\<lambda>f. fact_key f = k) facts = f # fs"
  shows "\<exists>b. last_greatest b (f # fs) \<and>
    filter (\<lambda>f. fact_key f = k) (normalize_with_config order threshold config facts) =
      filter (\<lambda>f. f32_ge (fact_confidence f) threshold)
        (if map_option xc_merge_mode (config (fact_source f)) = Some ''multi'' then f # fs else [b])"
proof (intro exI conjI)
  have "list_all (\<lambda>f. \<not> f32_is_nan (fact_confidence f)) (f # fs)"
    unfolding assms(3) [symmetric] using assms(2) by (simp add: list_all_iff)
  then show "last_greatest (best_fact f fs) (f # fs)" by (rule best_fact_last_greatest)
  let ?groups = "order (group_by_key facts)"
  have perm: "set ?groups = set (group_by_key facts)" "distinct (map fst ?groups)"
    using assms(1) group_by_key_distinct [of facts]
    by (metis set_mset_mset, metis mset_eq_imp_distinct_iff mset_map)
  have "\<forall>f \<in> set fs'. fact_key f = k'" if "(k', fs') \<in> set ?groups" for k' fs'
  proof -
    have "map_of (group_by_key facts) k' = Some fs'"
      using that perm(1) group_by_key_distinct by (simp add: map_of_eq_Some_iff)
    then show ?thesis unfolding group_by_key_lookup by (auto split: list.splits dest: filter_eq_ConsD)
  qed
  then have "filter (\<lambda>f. fact_key f = k) (concat (map (\<lambda>(_, fs). merge_group config fs) ?groups)) =
      (case map_of ?groups k of None \<Rightarrow> [] | Some fs \<Rightarrow> merge_group config fs)"
    by (rule merged_by_key [OF _ perm(2)])
  also have "map_of ?groups k = Some (f # fs)"
    using map_of_eq_Some_iff [OF perm(2)] map_of_eq_Some_iff [OF group_by_key_distinct] perm(1)
      group_by_key_lookup [of facts k] assms(3) by simp
  finally have sel: "filter (\<lambda>f. fact_key f = k) (concat (map (\<lambda>(_, fs). merge_group config fs) ?groups)) =
      merge_group config (f # fs)"
    by (simp only: option.case)
  show "filter (\<lambda>f. fact_key f = k) (normalize_with_config order threshold config facts) =
      filter (\<lambda>f. f32_ge (fact_confidence f) threshold)
        (if map_option xc_merge_mode (config (fact_source f)) = Some ''multi'' then f # fs
         else [best_fact f fs])"
    unfolding normalize_with_config_def filter_swap [of "\<lambda>f. fact_key f = k"] sel merge_group_Cons ..
qed

theorem normalize_by_key_witness:
  "\<exists>b. last_greatest b [cmd_fact ''a'' ''k'' ''1'' [], cmd_fact ''b'' ''k'' ''2'' []] \<and>
    filter (\<lambda>f. fact_key f = ''k'')
      (normalize_with_config rev default_threshold Map.empty
         [cmd_fact ''a'' ''k'' ''1'' [], cmd_fact ''c'' ''l'' ''0'' [], cmd_fact ''b'' ''k'' ''2'' []]) =
      filter (\<lambda>f. f32_ge (fact_confidence f) default_threshold)
        (if map_option xc_merge_mode (Map.empty ''a'') = Some ''multi''
         then [cmd_fact ''a'' ''k'' ''1'' [], cmd_fact ''b'' ''k'' ''2'' []] else [b])"
proof -
  have "list_all (\<lambda>f. \<not> f32_is_nan (fact_confidence f))
      [cmd_fact ''a'' ''k'' ''1'' [], cmd_fact ''c'' ''l'' ''0'' [], cmd_fact ''b'' ''k'' ''2'' []]"
    by code_simp
  then show ?thesis
    using normalize_by_key [of rev "[cmd_fact ''a'' ''k'' ''1'' [], cmd_fact ''c'' ''l'' ''0'' [],
        cmd_fact ''b'' ''k'' ''2'' []]" "''k''" "cmd_fact ''a'' ''k'' ''1'' []"
        "[cmd_fact ''b'' ''k'' ''2'' []]" default_threshold Map.empty]
    by (simp add: cmd_fact_def)
qed

end
