(* ===== verification/Worker_Registry.thy ===== *)
theory Worker_Registry
  imports Complex_Main Sandbox_Usecases
begin

text \<open>
  The gateway's side of the worker protocol: the messages of
  \<open>proto/sandbox/v1/sandbox.proto\<close>, and the registry of
  \<open>crates/bastion-gateway/src/registry.rs\<close> with challenge-response registration, the command
  stream, the circuit breaker, the rate limiter, the collection of responses and the command router,
  and the event store of \<open>crates/bastion-gateway/src/pipeline_events.rs\<close>.

  What is shared behind an \<open>Arc\<close> is explicit: a worker handle lives in a store
  (\<open>rg_handles\<close>) and the map of workers holds its address, so that a call in flight keeps the
  handle it started with when the worker registers again. An \<open>mpsc\<close> channel is the list of the
  messages that are in it. Time is read by the caller: an \<open>instant\<close> is a number of nanoseconds, and
  each operation reads the clock once. The floating-point numbers of the rate limiter and of the
  health report are rational numbers: rounding is not modelled. HMAC-SHA256 is the
  parameter \<open>hmac\<close> (key and data to tag); random identifiers are arguments.
\<close>

subsection \<open>The messages of the protocol\<close>

type_synonym bytes = "8 word list"
type_synonym instant = nat

record run_command_request =
  rc_command :: string
  rc_args :: "string list"
  rc_working_dir :: string
  rc_env :: "(string \<times> string) list"
  rc_timeout_ms :: "64 word"
  rc_persistent :: bool
  rc_session_id :: string

record read_file_request =
  rf_path :: string
  rf_offset :: "64 word"
  rf_length :: "64 word"

record write_file_request =
  wf_path :: string
  wf_mode :: "32 word"
  wf_total_size :: "64 word"
  wf_chunk_index :: "32 word"
  wf_total_chunks :: "32 word"
  wf_content :: bytes

record list_files_request =
  lf_directory :: string
  lf_recursive :: bool
  lf_max_depth :: "32 word"

datatype grace_level = Graceful | Draining | Forceful

record run_pipeline_request =
  rp_pipeline_file :: string
  rp_env :: "(string \<times> string) list"
  rp_timeout_ms :: "64 word"
  rp_pipeline_run_id :: string
  rp_parameters :: "(string \<times> string) list"

datatype gateway_payload =
    Run run_command_request
  | ReadFile read_file_request
  | WriteFile write_file_request
  | ListFiles list_files_request
  | Ping "64 word"
  | Shutdown grace_level "64 word" string
  | Cancel string string
  | RunPipeline run_pipeline_request
  | CancelPipeline string string

record gateway_command =
  gc_command_id :: string
  gc_session_token :: string
  gc_payload :: "gateway_payload option"

datatype ack_state = Received | Executing | Queued

record wire_file_entry =
  we_path :: string
  we_is_directory :: bool
  we_size_bytes :: "64 word"
  we_permissions :: string
  we_modified_epoch_ms :: "64 word"
  we_file_type :: string

record health_report =
  hr_cpu_usage_percent :: rat
  hr_memory_used_bytes :: "64 word"
  hr_memory_total_bytes :: "64 word"
  hr_disk_free_bytes :: "64 word"
  hr_uptime_seconds :: "64 word"
  hr_active_commands :: "32 word"
  hr_pending_commands :: "32 word"
  hr_load_average_1m :: rat

record pipeline_event =
  ev_event_type :: string
  ev_pipeline_run_id :: string
  ev_stage_name :: string
  ev_step_name :: string
  ev_step_index :: "32 word"
  ev_payload :: bytes
  ev_timestamp_ms :: "64 word"
  ev_labels :: "(string \<times> string) list"

text \<open>\<open>FileChunk content offset is_last chunk_index total_chunks\<close>, the other constructors alike.\<close>

datatype worker_payload =
    ReadySignal string string
  | CommandAck ack_state
  | StdoutData bytes "64 word"
  | StderrData bytes "64 word"
  | ExitResult "32 word" "64 word" bool string
  | FileChunk bytes "64 word" bool "32 word" "32 word"
  | FileList "wire_file_entry list"
  | ErrorResult string string "32 word"
  | Pong "64 word" "64 word" "health_report option"
  | ShutdownAck "32 word" bool
  | Health health_report
  | CancelAck bool string
  | PipelineEvent pipeline_event

record worker_message =
  wm_command_id :: string
  wm_payload :: "worker_payload option"

type_synonym protocol_version = "32 word \<times> 32 word \<times> 32 word"

record worker_capabilities =
  wc_supported_operations :: "string list"
  wc_max_concurrent_commands :: "32 word"
  wc_max_output_bytes :: "64 word"
  wc_max_file_size_bytes :: "64 word"
  wc_supports_streaming :: bool
  wc_supports_compression :: bool
  wc_os :: string
  wc_arch :: string

record register_request =
  rr_sandbox_id :: string
  rr_protocol_version :: "protocol_version option"
  rr_capabilities :: "worker_capabilities option"
  rr_worker_nonce :: bytes
  rr_worker_version :: string

datatype register_status = Accepted | Challenge | Rejected | VersionMismatch

record register_response =
  rs_status :: register_status
  rs_gateway_nonce :: bytes
  rs_session_token :: string
  rs_negotiated_version :: "protocol_version option"
  rs_heartbeat_interval_ms :: "64 word"
  rs_command_timeout_ms :: "64 word"
  rs_session_expiry_ms :: "64 word"
  rs_gateway_version :: string

record challenge_proof =
  cp_sandbox_id :: string
  cp_proof :: bytes

subsection \<open>Nonces and proofs\<close>

text \<open>\<open>to_le_bytes\<close>, and the bytes of a string in UTF-8 (code points up to U+00FF).\<close>

definition le_bytes :: "nat \<Rightarrow> 'a::len word \<Rightarrow> bytes" where
  "le_bytes n w = map (\<lambda>i. ucast (drop_bit (8 * i) w)) [0..<n]"

definition utf8 :: "char \<Rightarrow> bytes" where
  "utf8 c =
     (let n = (of_char c :: nat)
      in if n < 128 then [of_nat n] else [of_nat (192 + n div 64), of_nat (128 + n mod 64)])"

definition as_bytes :: "string \<Rightarrow> bytes" where
  "as_bytes s = concat (map utf8 s)"

text \<open>The gateway's nonce, from the nanoseconds since the epoch.\<close>

definition generate_nonce :: "128 word \<Rightarrow> bytes" where
  "generate_nonce ts = le_bytes 16 ts @ map (\<lambda>i. ucast (drop_bit (i * 8) ts)) [0..<8]"

type_synonym hmac_fun = "bytes \<Rightarrow> bytes \<Rightarrow> bytes"

definition verify_hmac_proof :: "hmac_fun \<Rightarrow> string \<Rightarrow> bytes \<Rightarrow> bytes \<Rightarrow> bytes \<Rightarrow> bool" where
  "verify_hmac_proof hmac secret worker_nonce gateway_nonce proof_bytes =
     (hmac (as_bytes secret) (worker_nonce @ gateway_nonce) = proof_bytes)"

definition verify_hmac_proof_against_keys ::
    "hmac_fun \<Rightarrow> string list \<Rightarrow> bytes \<Rightarrow> bytes \<Rightarrow> bytes \<Rightarrow> bool" where
  "verify_hmac_proof_against_keys hmac keys worker_nonce gateway_nonce proof_bytes =
     list_ex (\<lambda>key. verify_hmac_proof hmac key worker_nonce gateway_nonce proof_bytes) keys"

subsection \<open>The rate limiter\<close>

record token_bucket =
  tb_tokens :: rat
  tb_max_tokens :: rat
  tb_refill_rate :: rat
  tb_last_refill :: instant

definition token_bucket_new :: "instant \<Rightarrow> rat \<Rightarrow> rat \<Rightarrow> token_bucket" where
  "token_bucket_new now max_tokens refill_rate =
     \<lparr>tb_tokens = max_tokens, tb_max_tokens = max_tokens, tb_refill_rate = refill_rate,
      tb_last_refill = now\<rparr>"

definition as_secs :: "nat \<Rightarrow> rat" where
  "as_secs n = of_nat n / 1000000000"

definition try_consume :: "instant \<Rightarrow> token_bucket \<Rightarrow> bool \<times> token_bucket" where
  "try_consume now b =
     (let elapsed = as_secs (now - tb_last_refill b);
          tokens = min (tb_tokens b + elapsed * tb_refill_rate b) (tb_max_tokens b);
          b1 = b\<lparr>tb_tokens := tokens, tb_last_refill := now\<rparr>
      in if 1 \<le> tokens then (True, b1\<lparr>tb_tokens := tokens - 1\<rparr>) else (False, b1))"

subsection \<open>Worker handles and the circuit breaker\<close>

text \<open>
  \<open>wh_sent\<close> is what was sent on the command channel, \<open>wh_closed\<close> whether its receiver (the response
  stream of the worker) is gone; the session token, the failure counter and the deadline as in the code.
\<close>

record worker_handle =
  wh_sent :: "gateway_command list"
  wh_closed :: bool
  wh_session_token :: string
  wh_consecutive_failures :: "32 word"
  wh_circuit_open_until :: "instant option"

datatype circuit_state = Closed | HalfOpen | Open

definition get_circuit_state :: "instant \<Rightarrow> worker_handle \<Rightarrow> circuit_state" where
  "get_circuit_state now h =
     (case wh_circuit_open_until h of
        Some until \<Rightarrow> if now < until then Open else HalfOpen
      | None \<Rightarrow> Closed)"

definition is_circuit_open :: "instant \<Rightarrow> worker_handle \<Rightarrow> bool" where
  "is_circuit_open now h = (get_circuit_state now h = Open)"

definition record_success :: "worker_handle \<Rightarrow> worker_handle" where
  "record_success h = h\<lparr>wh_consecutive_failures := 0, wh_circuit_open_until := None\<rparr>"

definition open_period :: nat where
  "open_period = 30 * 1000000000"

definition record_failure :: "instant \<Rightarrow> worker_handle \<Rightarrow> worker_handle" where
  "record_failure now h =
     (let failures = wh_consecutive_failures h + 1;
          h1 = h\<lparr>wh_consecutive_failures := failures\<rparr>
      in case get_circuit_state now h of
           HalfOpen \<Rightarrow> h1\<lparr>wh_circuit_open_until := Some (now + open_period)\<rparr>
         | Closed \<Rightarrow>
             if 3 \<le> failures then h1\<lparr>wh_circuit_open_until := Some (now + open_period)\<rparr> else h1
         | Open \<Rightarrow> h1)"

subsection \<open>The registry\<close>

record auth_config =
  ac_pre_shared_key_enabled :: bool
  ac_pre_shared_keys :: "string list"

record pending_challenge =
  pc_worker_nonce :: bytes
  pc_gateway_nonce :: bytes

record worker_resources =
  wr_sandbox_id :: string
  wr_cpu_percent :: rat
  wr_mem_used_mb :: rat
  wr_mem_limit_mb :: rat
  wr_disk_used_mb :: rat
  wr_loadavg_1m :: rat
  wr_uptime_seconds :: "64 word"
  wr_last_heartbeat_epoch :: "64 word"

type_synonym response_channel = "(string, worker_message) result list"

record registry =
  rg_workers :: "(string \<times> nat) list"
  rg_handles :: "worker_handle list"
  rg_pending_multi :: "(string \<times> response_channel) list"
  rg_secrets :: "(string \<times> string) list"
  rg_rate_limiters :: "(string \<times> token_bucket) list"
  rg_pending_challenges :: "(string \<times> pending_challenge) list"
  rg_auth_config :: auth_config
  rg_heartbeat_bridge :: "(string \<times> worker_resources) list option"
  rg_pipeline_events :: "(string \<times> pipeline_event list) list"

datatype registry_error =
    WorkerNotFound string
  | WorkerDisconnected string
  | CommandTimeout string
  | CommandFailedWith string
  | RateLimited string

fun registry_error_display :: "registry_error \<Rightarrow> string" where
  "registry_error_display (WorkerNotFound i) = ''Worker '' @ i @ '' not found''"
| "registry_error_display (WorkerDisconnected i) = ''Worker '' @ i @ '' disconnected''"
| "registry_error_display (CommandTimeout i) = ''Command '' @ i @ '' timed out''"
| "registry_error_display (CommandFailedWith e) = ''Command failed: '' @ e"
| "registry_error_display (RateLimited i) = ''Rate limited for sandbox '' @ i"

definition registry_new :: "auth_config \<Rightarrow> registry" where
  "registry_new auth =
     \<lparr>rg_workers = [], rg_handles = [], rg_pending_multi = [], rg_secrets = [],
      rg_rate_limiters = [], rg_pending_challenges = [], rg_auth_config = auth,
      rg_heartbeat_bridge = None, rg_pipeline_events = []\<rparr>"

definition set_heartbeat_bridge :: "(string \<times> worker_resources) list \<Rightarrow> registry \<Rightarrow> registry" where
  "set_heartbeat_bridge bridge r = r\<lparr>rg_heartbeat_bridge := Some bridge\<rparr>"

text \<open>\<open>epoch\<close> is the wall clock in seconds; byte counts are read as signed numbers.\<close>

definition update_heartbeat_bridge ::
    "64 word \<Rightarrow> string \<Rightarrow> health_report \<Rightarrow> registry \<Rightarrow> registry" where
  "update_heartbeat_bridge epoch sandbox_id health r =
     (case rg_heartbeat_bridge r of
        None \<Rightarrow> r
      | Some bridge \<Rightarrow>
          let resources =
                \<lparr>wr_sandbox_id = sandbox_id,
                 wr_cpu_percent = hr_cpu_usage_percent health,
                 wr_mem_used_mb = of_int (sint (hr_memory_used_bytes health)) / (1024 * 1024),
                 wr_mem_limit_mb = of_int (sint (hr_memory_total_bytes health)) / (1024 * 1024),
                 wr_disk_used_mb = 0,
                 wr_loadavg_1m = hr_load_average_1m health,
                 wr_uptime_seconds = hr_uptime_seconds health,
                 wr_last_heartbeat_epoch = epoch\<rparr>
          in r\<lparr>rg_heartbeat_bridge := Some (AList.update sandbox_id resources bridge)\<rparr>)"

definition remove_heartbeat_bridge :: "string \<Rightarrow> registry \<Rightarrow> registry" where
  "remove_heartbeat_bridge sandbox_id r =
     r\<lparr>rg_heartbeat_bridge := map_option (AList.delete sandbox_id) (rg_heartbeat_bridge r)\<rparr>"

text \<open>\<open>PipelineEventStore::push\<close> and \<open>get_events\<close>; broadcasting to the subscribers is output.\<close>

definition push_event :: "pipeline_event \<Rightarrow> registry \<Rightarrow> registry" where
  "push_event event r =
     (let run_id = ev_pipeline_run_id event;
          old = (case map_of (rg_pipeline_events r) run_id of None \<Rightarrow> [] | Some es \<Rightarrow> es)
      in r\<lparr>rg_pipeline_events := AList.update run_id (old @ [event]) (rg_pipeline_events r)\<rparr>)"

definition get_events :: "string \<Rightarrow> registry \<Rightarrow> pipeline_event list" where
  "get_events run_id r =
     (case map_of (rg_pipeline_events r) run_id of None \<Rightarrow> [] | Some es \<Rightarrow> es)"

text \<open>One round of the watchdog task.\<close>

definition dead_workers :: "registry \<Rightarrow> string list" where
  "dead_workers r = map fst (filter (\<lambda>(i, a). wh_closed (rg_handles r ! a)) (rg_workers r))"

definition remove_dead :: "string \<Rightarrow> registry \<Rightarrow> registry" where
  "remove_dead i r =
     (let r1 = remove_heartbeat_bridge i r in r1\<lparr>rg_workers := AList.delete i (rg_workers r1)\<rparr>)"

definition watchdog_round :: "registry \<Rightarrow> registry" where
  "watchdog_round r = fold remove_dead (dead_workers r) r"

definition register_worker :: "instant \<Rightarrow> string \<Rightarrow> worker_handle \<Rightarrow> registry \<Rightarrow> registry" where
  "register_worker now sandbox_id handle r =
     r\<lparr>rg_handles := rg_handles r @ [handle],
       rg_workers := AList.update sandbox_id (length (rg_handles r)) (rg_workers r),
       rg_rate_limiters :=
         AList.update sandbox_id (token_bucket_new now 20 10) (rg_rate_limiters r)\<rparr>"

definition unregister_worker :: "string \<Rightarrow> registry \<Rightarrow> registry" where
  "unregister_worker sandbox_id r = r\<lparr>rg_workers := AList.delete sandbox_id (rg_workers r)\<rparr>"

definition get_session_token :: "string \<Rightarrow> registry \<Rightarrow> string option" where
  "get_session_token sandbox_id r =
     map_option (\<lambda>a. wh_session_token (rg_handles r ! a)) (map_of (rg_workers r) sandbox_id)"

definition set_secret :: "string \<Rightarrow> string \<Rightarrow> registry \<Rightarrow> registry" where
  "set_secret sandbox_id secret r =
     r\<lparr>rg_secrets := AList.update sandbox_id secret (rg_secrets r)\<rparr>"

definition get_secret :: "string \<Rightarrow> registry \<Rightarrow> string option" where
  "get_secret sandbox_id r = map_of (rg_secrets r) sandbox_id"

definition is_worker_connected :: "string \<Rightarrow> registry \<Rightarrow> bool" where
  "is_worker_connected sandbox_id r = (map_of (rg_workers r) sandbox_id \<noteq> None)"

subsection \<open>Registration\<close>

definition response :: "register_status \<Rightarrow> bytes \<Rightarrow> string \<Rightarrow> register_response" where
  "response status nonce token =
     \<lparr>rs_status = status, rs_gateway_nonce = nonce, rs_session_token = token,
      rs_negotiated_version = None, rs_heartbeat_interval_ms = 10000,
      rs_command_timeout_ms = 30000, rs_session_expiry_ms = 3600000,
      rs_gateway_version = ''0.1.0''\<rparr>"

definition register ::
    "128 word \<Rightarrow> register_request \<Rightarrow> registry \<Rightarrow> register_response \<times> registry" where
  "register ts req r =
     (let secret = (case get_secret (rr_sandbox_id req) r of None \<Rightarrow> [] | Some s \<Rightarrow> s)
      in if secret = []
         then (response Accepted [] (''token-'' @ rr_sandbox_id req), r)
         else
           let gateway_nonce = generate_nonce ts
           in (response Challenge gateway_nonce [],
               r\<lparr>rg_pending_challenges :=
                   AList.update (rr_sandbox_id req)
                     \<lparr>pc_worker_nonce = rr_worker_nonce req, pc_gateway_nonce = gateway_nonce\<rparr>
                     (rg_pending_challenges r)\<rparr>))"

definition hmac_valid :: "hmac_fun \<Rightarrow> string \<Rightarrow> pending_challenge \<Rightarrow> bytes \<Rightarrow> registry \<Rightarrow> bool" where
  "hmac_valid hmac sandbox_id pending proof_bytes r =
     (if ac_pre_shared_key_enabled (rg_auth_config r)
      then if ac_pre_shared_keys (rg_auth_config r) = [] then False
           else verify_hmac_proof_against_keys hmac (ac_pre_shared_keys (rg_auth_config r))
                  (pc_worker_nonce pending) (pc_gateway_nonce pending) proof_bytes
      else case get_secret sandbox_id r of
             Some secret \<Rightarrow>
               verify_hmac_proof hmac secret (pc_worker_nonce pending) (pc_gateway_nonce pending)
                 proof_bytes
           | None \<Rightarrow> False)"

definition challenge_response ::
    "hmac_fun \<Rightarrow> string \<Rightarrow> challenge_proof \<Rightarrow> registry \<Rightarrow> register_response \<times> registry" where
  "challenge_response hmac uuid req r =
     (case map_of (rg_pending_challenges r) (cp_sandbox_id req) of
        None \<Rightarrow> (response Rejected [] [], r)
      | Some pending \<Rightarrow>
          let r1 = r\<lparr>rg_pending_challenges :=
                       AList.delete (cp_sandbox_id req) (rg_pending_challenges r)\<rparr>
          in if \<not> hmac_valid hmac (cp_sandbox_id req) pending (cp_proof req) r1
             then (response Rejected [] [], r1)
             else (response Accepted [] uuid, r1))"

datatype status = InvalidArgument string | InternalStatus string

text \<open>
  \<open>command_stream\<close>, up to the point where its background tasks run: the first message of the incoming
  stream (none when it is empty, an error when it broke) decides whether and as what the worker is
  registered. The result is the identifier it was registered under.
\<close>

definition command_stream ::
    "instant \<Rightarrow> (string, worker_message) result option \<Rightarrow> registry \<Rightarrow>
     (status, string) result \<times> registry" where
  "command_stream now first_msg r =
     (case first_msg of
        None \<Rightarrow> (Err (InvalidArgument ''Empty stream''), r)
      | Some (Inl e) \<Rightarrow> (Err (InternalStatus (''Stream error: '' @ e)), r)
      | Some (Inr msg) \<Rightarrow>
          (case wm_payload msg of
             Some (ReadySignal session_token _) \<Rightarrow>
               let handle =
                     \<lparr>wh_sent = [], wh_closed = False, wh_session_token = session_token,
                      wh_consecutive_failures = 0, wh_circuit_open_until = None\<rparr>
               in (Ok session_token, register_worker now session_token handle r)
           | _ \<Rightarrow> (Err (InvalidArgument ''Expected ReadySignal as first message''), r)))"

text \<open>
  The routing task of a command stream, for one message that came from the worker registered as
  \<open>ready_id\<close>: to the channel of its command, to the heartbeat bridge, to the event store.
\<close>

definition send_multi :: "worker_message \<Rightarrow> registry \<Rightarrow> registry" where
  "send_multi msg r =
     (if wm_command_id msg = [] then r
      else case map_of (rg_pending_multi r) (wm_command_id msg) of
             None \<Rightarrow> r
           | Some ch \<Rightarrow>
               r\<lparr>rg_pending_multi :=
                   AList.update (wm_command_id msg) (ch @ [Ok msg]) (rg_pending_multi r)\<rparr>)"

definition route_message :: "64 word \<Rightarrow> string \<Rightarrow> worker_message \<Rightarrow> registry \<Rightarrow> registry" where
  "route_message epoch ready_id msg r =
     (let r1 = send_multi msg r
      in case wm_payload msg of
           Some (Pong _ _ (Some health)) \<Rightarrow> update_heartbeat_bridge epoch ready_id health r1
         | Some (PipelineEvent event) \<Rightarrow> push_event event r1
         | _ \<Rightarrow> r1)"

text \<open>What the routing task does when the stream ends, and the heartbeat it sends.\<close>

definition stream_ended :: "string \<Rightarrow> registry \<Rightarrow> registry" where
  "stream_ended ready_id r = remove_heartbeat_bridge ready_id r"

definition heartbeat :: "string \<Rightarrow> 64 word \<Rightarrow> nat \<Rightarrow> registry \<Rightarrow> bool \<times> registry" where
  "heartbeat uuid millis a r =
     (let h = rg_handles r ! a;
          ping = \<lparr>gc_command_id = uuid, gc_session_token = [], gc_payload = Some (Ping millis)\<rparr>
      in if wh_closed h then (False, r)
         else (True, r\<lparr>rg_handles := (rg_handles r)[a := h\<lparr>wh_sent := wh_sent h @ [ping]\<rparr>]\<rparr>))"

subsection \<open>Sending a command and collecting its responses\<close>

definition update_handle :: "nat \<Rightarrow> (worker_handle \<Rightarrow> worker_handle) \<Rightarrow> registry \<Rightarrow> registry" where
  "update_handle a f r = r\<lparr>rg_handles := (rg_handles r)[a := f (rg_handles r ! a)]\<rparr>"

definition remove_pending :: "string \<Rightarrow> registry \<Rightarrow> registry" where
  "remove_pending command_id r =
     r\<lparr>rg_pending_multi := AList.delete command_id (rg_pending_multi r)\<rparr>"

text \<open>The check of the rate limit; an identifier without a bucket is not limited.\<close>

definition rate_check :: "instant \<Rightarrow> string \<Rightarrow> registry \<Rightarrow> bool \<times> registry" where
  "rate_check now sandbox_id r =
     (case map_of (rg_rate_limiters r) sandbox_id of
        None \<Rightarrow> (True, r)
      | Some b \<Rightarrow>
          (case try_consume now b of
             (ok, b1) \<Rightarrow>
               (ok, r\<lparr>rg_rate_limiters := AList.update sandbox_id b1 (rg_rate_limiters r)\<rparr>)))"

text \<open>
  From the lookup of the worker to the moment the command is on its channel; the address of the handle
  stays with the call. Waiting for room on a full channel is not modelled: the call goes on when the
  command has been accepted.
\<close>

definition send_command ::
    "instant \<Rightarrow> string \<Rightarrow> nat \<Rightarrow> gateway_command \<Rightarrow> registry \<Rightarrow> (registry_error, nat) result \<times> registry"
  where
  "send_command now sandbox_id a command r =
     (let r1 = r\<lparr>rg_pending_multi :=
                   AList.update (gc_command_id command) [] (rg_pending_multi r)\<rparr>
      in if wh_closed (rg_handles r1 ! a)
         then (Err (WorkerDisconnected sandbox_id),
               remove_pending (gc_command_id command) (update_handle a (record_failure now) r1))
         else (Ok a, update_handle a (\<lambda>h. h\<lparr>wh_sent := wh_sent h @ [command]\<rparr>) r1))"

definition collect_start ::
    "instant \<Rightarrow> string \<Rightarrow> gateway_command \<Rightarrow> registry \<Rightarrow> (registry_error, nat) result \<times> registry"
  where
  "collect_start now sandbox_id command r =
     (case map_of (rg_workers r) sandbox_id of
        None \<Rightarrow> (Err (WorkerNotFound sandbox_id), r)
      | Some a \<Rightarrow>
          if is_circuit_open now (rg_handles r ! a)
          then (Err (WorkerNotFound (''Circuit breaker open for '' @ sandbox_id)), r)
          else
            (case rate_check now sandbox_id r of
               (False, r1) \<Rightarrow> (Err (RateLimited sandbox_id), r1)
             | (True, r1) \<Rightarrow> send_command now sandbox_id a command r1))"

definition is_terminal :: "worker_message \<Rightarrow> bool" where
  "is_terminal msg =
     (case wm_payload msg of
        Some (ExitResult _ _ _ _) \<Rightarrow> True
      | Some (ErrorResult _ _ _) \<Rightarrow> True
      | Some (FileList _) \<Rightarrow> True
      | Some (FileChunk _ _ is_last _ _) \<Rightarrow> is_last
      | _ \<Rightarrow> False)"

text \<open>
  The receiving loop over what the channel yields before the deadline. The sender stays in
  \<open>pending_multi\<close> until the loop is over, so the channel is not closed and an exhausted list means
  that the deadline passes.
\<close>

datatype collected = Completed "worker_message list" | Broken string | Elapsed

fun collect_loop :: "worker_message list \<Rightarrow> response_channel \<Rightarrow> collected" where
  "collect_loop messages [] = Elapsed"
| "collect_loop messages (Inl e # rest) = Broken e"
| "collect_loop messages (Inr msg # rest) =
     (if is_terminal msg then Completed (messages @ [msg])
      else collect_loop (messages @ [msg]) rest)"

definition collect_finish ::
    "instant \<Rightarrow> nat \<Rightarrow> string \<Rightarrow> collected \<Rightarrow> registry \<Rightarrow>
     (registry_error, worker_message list) result \<times> registry" where
  "collect_finish now a command_id outcome r =
     (let r1 = remove_pending command_id r
      in case outcome of
           Completed messages \<Rightarrow> (Ok messages, update_handle a record_success r1)
         | Broken e \<Rightarrow> (Err (CommandFailedWith e), update_handle a (record_failure now) r1)
         | Elapsed \<Rightarrow> (Err (CommandTimeout command_id), update_handle a (record_failure now) r1))"

definition channel_of :: "string \<Rightarrow> registry \<Rightarrow> response_channel" where
  "channel_of command_id r =
     (case map_of (rg_pending_multi r) command_id of None \<Rightarrow> [] | Some ch \<Rightarrow> ch)"

text \<open>
  A whole call. \<open>meanwhile\<close> is what the rest of the gateway does to the registry until the
  deadline: in particular the routing tasks deliver messages. \<open>now\<close> is the moment of the call, \<open>later\<close>
  the moment it ends.
\<close>

definition collect_responses ::
    "instant \<Rightarrow> instant \<Rightarrow> (registry \<Rightarrow> registry) \<Rightarrow> string \<Rightarrow> gateway_command \<Rightarrow> registry \<Rightarrow>
     (registry_error, worker_message list) result \<times> registry" where
  "collect_responses now later meanwhile sandbox_id command r =
     (case collect_start now sandbox_id command r of
        (Inl e, r1) \<Rightarrow> (Err e, r1)
      | (Inr a, r1) \<Rightarrow>
          let r2 = meanwhile r1
          in collect_finish later a (gc_command_id command)
               (collect_loop [] (channel_of (gc_command_id command) r2)) r2)"

subsection \<open>The command router\<close>

definition command_for :: "string \<Rightarrow> gateway_payload \<Rightarrow> gateway_command" where
  "command_for uuid payload =
     \<lparr>gc_command_id = uuid, gc_session_token = [], gc_payload = Some payload\<rparr>"

definition map_err ::
    "(registry_error, 'a) result \<Rightarrow> (domain_error, 'a) result" where
  "map_err x = (case x of Inl e \<Rightarrow> Err (Internal (registry_error_display e)) | Inr y \<Rightarrow> Ok y)"

definition run_request ::
    "string \<Rightarrow> string list \<Rightarrow> string \<Rightarrow> (string \<times> string) list \<Rightarrow> 64 word \<Rightarrow> gateway_payload" where
  "run_request command args working_dir env timeout_ms =
     Run \<lparr>rc_command = command, rc_args = args, rc_working_dir = working_dir, rc_env = env,
          rc_timeout_ms = timeout_ms, rc_persistent = False, rc_session_id = []\<rparr>"

fun aggregate_run ::
    "command_result \<Rightarrow> worker_message list \<Rightarrow> (domain_error, command_result) result" where
  "aggregate_run acc [] = Ok acc"
| "aggregate_run acc (msg # rest) =
     (case wm_payload msg of
        Some (StdoutData d _) \<Rightarrow> aggregate_run (acc\<lparr>res_stdout := res_stdout acc @ d\<rparr>) rest
      | Some (StderrData d _) \<Rightarrow> aggregate_run (acc\<lparr>res_stderr := res_stderr acc @ d\<rparr>) rest
      | Some (ExitResult code ms out _) \<Rightarrow>
          aggregate_run
            (acc\<lparr>res_exit_code := code, res_duration_ms := ms, res_timed_out := out\<rparr>) rest
      | Some (ErrorResult e _ _) \<Rightarrow> Err (Internal e)
      | _ \<Rightarrow> aggregate_run acc rest)"

definition no_result :: command_result where
  "no_result =
     \<lparr>res_exit_code = -1, res_stdout = [], res_stderr = [], res_duration_ms = 0,
      res_timed_out = False\<rparr>"

definition route_run_command ::
    "instant \<Rightarrow> instant \<Rightarrow> (registry \<Rightarrow> registry) \<Rightarrow> string \<Rightarrow>
     string \<Rightarrow> string \<Rightarrow> string list \<Rightarrow> string \<Rightarrow> (string \<times> string) list \<Rightarrow> 64 word \<Rightarrow>
     registry \<Rightarrow> (domain_error, command_result) result \<times> registry" where
  "route_run_command now later meanwhile uuid sandbox_id command args working_dir env timeout_ms r =
     (case collect_responses now later meanwhile sandbox_id
             (command_for uuid (run_request command args working_dir env timeout_ms)) r of
        (x, r1) \<Rightarrow> (try_bind (map_err x) (aggregate_run no_result), r1))"

text \<open>
  The streaming variant. \<open>room\<close> is the number of chunks the client takes before it drops the stream.
  The forwarding task is over (\<open>True\<close>) at an exit, an error or a dropped stream; otherwise it waits.
\<close>

fun forward_loop ::
    "nat \<Rightarrow> response_channel \<Rightarrow> (domain_error, command_chunk) result list \<times> bool" where
  "forward_loop room [] = ([], False)"
| "forward_loop room (Inl e # rest) = (take room [Err (Internal e)], True)"
| "forward_loop room (Inr msg # rest) =
     (case wm_payload msg of
        Some (StdoutData d _) \<Rightarrow>
          (case room of
             0 \<Rightarrow> ([], True)
           | Suc n \<Rightarrow> apfst ((#) (Ok \<lparr>chunk_kind = StdoutChunk, chunk_data = d, chunk_final = False\<rparr>))
                       (forward_loop n rest))
      | Some (StderrData d _) \<Rightarrow>
          (case room of
             0 \<Rightarrow> ([], True)
           | Suc n \<Rightarrow> apfst ((#) (Ok \<lparr>chunk_kind = StderrChunk, chunk_data = d, chunk_final = False\<rparr>))
                       (forward_loop n rest))
      | Some (ExitResult code _ _ _) \<Rightarrow>
          (take room
             [Ok \<lparr>chunk_kind = ExitCodeChunk, chunk_data = le_bytes 4 code, chunk_final = True\<rparr>],
           True)
      | Some (ErrorResult e _ _) \<Rightarrow> (take room [Err (Internal e)], True)
      | _ \<Rightarrow> forward_loop room rest)"

definition stream_start ::
    "instant \<Rightarrow> string \<Rightarrow> gateway_command \<Rightarrow> registry \<Rightarrow> (domain_error, unit) result \<times> registry"
  where
  "stream_start now sandbox_id cmd r =
     (case map_of (rg_workers r) sandbox_id of
        None \<Rightarrow> (Err (Internal (''Worker not found: '' @ sandbox_id)), r)
      | Some a \<Rightarrow>
          if is_circuit_open now (rg_handles r ! a)
          then (Err (Internal (''Circuit breaker open for '' @ sandbox_id)), r)
          else
            (case rate_check now sandbox_id r of
               (False, r1) \<Rightarrow> (Err (Internal (''Rate limited for '' @ sandbox_id)), r1)
             | (True, r1) \<Rightarrow>
                 (case send_command now sandbox_id a cmd r1 of
                    (Inl _, r2) \<Rightarrow> (Err (Internal (''Worker disconnected: '' @ sandbox_id)), r2)
                  | (Inr _, r2) \<Rightarrow> (Ok (), r2))))"

definition route_run_command_stream ::
    "instant \<Rightarrow> (registry \<Rightarrow> registry) \<Rightarrow> nat \<Rightarrow> string \<Rightarrow>
     string \<Rightarrow> string \<Rightarrow> string list \<Rightarrow> string \<Rightarrow> (string \<times> string) list \<Rightarrow> 64 word \<Rightarrow>
     registry \<Rightarrow> (domain_error, command_stream) result \<times> registry" where
  "route_run_command_stream now meanwhile room uuid sandbox_id command args working_dir env timeout_ms r =
     (case stream_start now sandbox_id
             (command_for uuid (run_request command args working_dir env timeout_ms)) r of
        (Inl e, r1) \<Rightarrow> (Err e, r1)
      | (Inr _, r1) \<Rightarrow>
          let r2 = meanwhile r1
          in (case forward_loop room (channel_of uuid r2) of
                (chunks, over) \<Rightarrow> (Ok chunks, if over then remove_pending uuid r2 else r2)))"

definition mode_0o644 :: "32 word" where
  "mode_0o644 = 420"

fun first_error :: "worker_message list \<Rightarrow> string option" where
  "first_error [] = None"
| "first_error (msg # rest) =
     (case wm_payload msg of Some (ErrorResult e _ _) \<Rightarrow> Some e | _ \<Rightarrow> first_error rest)"

definition route_write_file ::
    "instant \<Rightarrow> instant \<Rightarrow> (registry \<Rightarrow> registry) \<Rightarrow> string \<Rightarrow>
     string \<Rightarrow> string \<Rightarrow> bytes \<Rightarrow> registry \<Rightarrow> (domain_error, unit) result \<times> registry" where
  "route_write_file now later meanwhile uuid sandbox_id path content r =
     (case collect_responses now later meanwhile sandbox_id
             (command_for uuid
               (WriteFile \<lparr>wf_path = path, wf_mode = mode_0o644,
                          wf_total_size = of_nat (length content), wf_chunk_index = 0,
                          wf_total_chunks = 1, wf_content = content\<rparr>)) r of
        (x, r1) \<Rightarrow>
          (try_bind (map_err x)
             (\<lambda>responses. case first_error responses of
                Some e \<Rightarrow> Err (Internal e) | None \<Rightarrow> Ok ()), r1))"

fun aggregate_file :: "bytes \<Rightarrow> worker_message list \<Rightarrow> (domain_error, bytes) result" where
  "aggregate_file content [] = Ok content"
| "aggregate_file content (msg # rest) =
     (case wm_payload msg of
        Some (FileChunk d _ _ _ _) \<Rightarrow> aggregate_file (content @ d) rest
      | Some (ErrorResult e _ _) \<Rightarrow> Err (Internal e)
      | _ \<Rightarrow> aggregate_file content rest)"

definition route_read_file ::
    "instant \<Rightarrow> instant \<Rightarrow> (registry \<Rightarrow> registry) \<Rightarrow> string \<Rightarrow>
     string \<Rightarrow> string \<Rightarrow> registry \<Rightarrow> (domain_error, bytes) result \<times> registry" where
  "route_read_file now later meanwhile uuid sandbox_id path r =
     (case collect_responses now later meanwhile sandbox_id
             (command_for uuid (ReadFile \<lparr>rf_path = path, rf_offset = 0, rf_length = -1\<rparr>)) r of
        (x, r1) \<Rightarrow> (try_bind (map_err x) (aggregate_file []), r1))"

text \<open>\<open>from_millis\<close> is \<open>chrono::DateTime::from_timestamp_millis\<close>.\<close>

definition to_file_entry ::
    "(int \<Rightarrow> timestamp option) \<Rightarrow> wire_file_entry \<Rightarrow> file_entry" where
  "to_file_entry from_millis e =
     \<lparr>fe_path = we_path e, fe_is_directory = we_is_directory e, fe_size_bytes = we_size_bytes e,
      fe_modified_at =
        (if 0 < sint (we_modified_epoch_ms e) then from_millis (sint (we_modified_epoch_ms e))
         else None),
      fe_permissions = we_permissions e\<rparr>"

fun extract_list ::
    "(int \<Rightarrow> timestamp option) \<Rightarrow> worker_message list \<Rightarrow> (domain_error, file_entry list) result"
  where
  "extract_list from_millis [] = Ok []"
| "extract_list from_millis (msg # rest) =
     (case wm_payload msg of
        Some (FileList entries) \<Rightarrow> Ok (map (to_file_entry from_millis) entries)
      | Some (ErrorResult e _ _) \<Rightarrow> Err (Internal e)
      | _ \<Rightarrow> extract_list from_millis rest)"

definition route_list_files ::
    "(int \<Rightarrow> timestamp option) \<Rightarrow> instant \<Rightarrow> instant \<Rightarrow> (registry \<Rightarrow> registry) \<Rightarrow> string \<Rightarrow>
     string \<Rightarrow> string \<Rightarrow> registry \<Rightarrow> (domain_error, file_entry list) result \<times> registry" where
  "route_list_files from_millis now later meanwhile uuid sandbox_id directory r =
     (case collect_responses now later meanwhile sandbox_id
             (command_for uuid
               (ListFiles \<lparr>lf_directory = directory, lf_recursive = False, lf_max_depth = 1\<rparr>)) r of
        (x, r1) \<Rightarrow> (try_bind (map_err x) (extract_list from_millis), r1))"

subsection \<open>Pipelines\<close>

definition send_only :: "string \<Rightarrow> string \<Rightarrow> gateway_command \<Rightarrow> registry \<Rightarrow>
    (domain_error, unit) result \<times> registry" where
  "send_only failure sandbox_id cmd r =
     (case map_of (rg_workers r) sandbox_id of
        None \<Rightarrow> (Err (Internal (''Worker not found for sandbox '' @ sandbox_id)), r)
      | Some a \<Rightarrow>
          if wh_closed (rg_handles r ! a) then (Err (Internal (failure @ ''channel closed'')), r)
          else (Ok (), update_handle a (\<lambda>h. h\<lparr>wh_sent := wh_sent h @ [cmd]\<rparr>) r))"

definition run_pipeline ::
    "string \<Rightarrow> string \<Rightarrow> string \<Rightarrow> (string \<times> string) list \<Rightarrow> 64 word \<Rightarrow> (string \<times> string) list \<Rightarrow>
     registry \<Rightarrow> (domain_error, string) result \<times> registry" where
  "run_pipeline uuid sandbox_id pipeline_file env timeout_ms parameters r =
     (case send_only ''Failed to send pipeline command: '' sandbox_id
             (command_for uuid
               (RunPipeline \<lparr>rp_pipeline_file = pipeline_file, rp_env = env,
                            rp_timeout_ms = timeout_ms, rp_pipeline_run_id = uuid,
                            rp_parameters = parameters\<rparr>)) r of
        (x, r1) \<Rightarrow> (try_bind x (\<lambda>_. Ok uuid), r1))"

definition cancel_pipeline ::
    "string \<Rightarrow> string \<Rightarrow> string \<Rightarrow> string \<Rightarrow> registry \<Rightarrow> (domain_error, unit) result \<times> registry"
  where
  "cancel_pipeline uuid sandbox_id pipeline_run_id reason r =
     send_only ''Failed to send cancel command: '' sandbox_id
       (command_for uuid (CancelPipeline pipeline_run_id reason)) r"

subsection \<open>Registration: who is accepted\<close>

lemma response_status [simp]: "rs_status (response s n t) = s"
  by (simp add: response_def)

lemma response_nonce [simp]: "rs_gateway_nonce (response s n t) = n"
  by (simp add: response_def)

lemma response_token [simp]: "rs_session_token (response s n t) = t"
  by (simp add: response_def)

lemma verify_against_keys_iff:
  "verify_hmac_proof_against_keys hmac keys wn gn p \<longleftrightarrow>
     (\<exists>key \<in> set keys. hmac (as_bytes key) (wn @ gn) = p)"
  by (simp add: verify_hmac_proof_against_keys_def verify_hmac_proof_def list_ex_iff)

lemma hmac_valid_iff:
  "hmac_valid hmac i pending p r \<longleftrightarrow>
     (\<exists>key. hmac (as_bytes key) (pc_worker_nonce pending @ pc_gateway_nonce pending) = p \<and>
        (if ac_pre_shared_key_enabled (rg_auth_config r)
         then key \<in> set (ac_pre_shared_keys (rg_auth_config r))
         else get_secret i r = Some key))"
  by (auto simp: hmac_valid_def verify_against_keys_iff verify_hmac_proof_def split: option.splits)

lemma get_secret_challenge_update [simp]:
  "get_secret i (r\<lparr>rg_pending_challenges := c\<rparr>) = get_secret i r"
  by (simp add: get_secret_def)

lemma hmac_valid_challenge_update [simp]:
  "hmac_valid hmac i pending p (r\<lparr>rg_pending_challenges := c\<rparr>) = hmac_valid hmac i pending p r"
  by (simp add: hmac_valid_def)

text \<open>
  C17: A challenge response is accepted exactly when a challenge is pending for the sandbox and the proof is the
  HMAC of the two nonces of that challenge under a configured pre-shared key (when pre-shared keys are
  enabled) or under the secret of the sandbox (otherwise); in every other case it is rejected. Whatever
  the answer, the challenge is used up: the next response for the same sandbox is rejected.
\<close>

theorem challenge_accepted_iff:
  "(rs_status (fst (challenge_response hmac uuid req r)) =
     (if (\<exists>pending key.
            map_of (rg_pending_challenges r) (cp_sandbox_id req) = Some pending
            \<and> hmac (as_bytes key) (pc_worker_nonce pending @ pc_gateway_nonce pending) = cp_proof req
            \<and> (if ac_pre_shared_key_enabled (rg_auth_config r)
               then key \<in> set (ac_pre_shared_keys (rg_auth_config r))
               else get_secret (cp_sandbox_id req) r = Some key))
      then Accepted else Rejected))
   \<and> rs_status (fst (challenge_response hmac uuid2
        \<lparr>cp_sandbox_id = cp_sandbox_id req, cp_proof = proof2\<rparr>
        (snd (challenge_response hmac uuid req r)))) = Rejected"
proof
  show "rs_status (fst (challenge_response hmac uuid req r)) =
     (if (\<exists>pending key.
            map_of (rg_pending_challenges r) (cp_sandbox_id req) = Some pending
            \<and> hmac (as_bytes key) (pc_worker_nonce pending @ pc_gateway_nonce pending) = cp_proof req
            \<and> (if ac_pre_shared_key_enabled (rg_auth_config r)
               then key \<in> set (ac_pre_shared_keys (rg_auth_config r))
               else get_secret (cp_sandbox_id req) r = Some key))
      then Accepted else Rejected)"
    by (auto simp: challenge_response_def Let_def hmac_valid_iff split: option.splits)
next
  have "map_of (rg_pending_challenges (snd (challenge_response hmac uuid req r)))
          (cp_sandbox_id req) = None"
    by (auto simp: challenge_response_def Let_def delete_conv' split: option.splits)
  then show "rs_status (fst (challenge_response hmac uuid2
        \<lparr>cp_sandbox_id = cp_sandbox_id req, cp_proof = proof2\<rparr>
        (snd (challenge_response hmac uuid req r)))) = Rejected"
    by (simp add: challenge_response_def [of hmac uuid2])
qed

subsection \<open>The circuit breaker\<close>

text \<open>
  The calls of one worker, as they end: the moment, and whether the call succeeded.
\<close>

definition record_call :: "instant \<times> bool \<Rightarrow> worker_handle \<Rightarrow> worker_handle" where
  "record_call c h = (if snd c then record_success h else record_failure (fst c) h)"

lemma record_call_simps [simp]:
  "record_call (t, True) h = record_success h"
  "record_call (t, False) h = record_failure t h"
  by (simp_all add: record_call_def)

definition failures_in_a_row :: "(instant \<times> bool) list \<Rightarrow> instant list" where
  "failures_in_a_row calls = map fst (takeWhile (\<lambda>c. \<not> snd c) (rev calls))"

lemma failures_in_a_row_simps [simp]:
  "failures_in_a_row [] = []"
  "failures_in_a_row (calls @ [(t, True)]) = []"
  "failures_in_a_row (calls @ [(t, False)]) = t # failures_in_a_row calls"
  by (simp_all add: failures_in_a_row_def)

lemma failures_in_a_row_length: "length (failures_in_a_row calls) \<le> length calls"
  unfolding failures_in_a_row_def by (metis length_map length_rev length_takeWhile_le)

text \<open>What the breaker knows after a run of calls: the number of failures in a row.\<close>

definition breaker_inv :: "(instant \<times> bool) list \<Rightarrow> worker_handle \<Rightarrow> bool" where
  "breaker_inv calls h \<longleftrightarrow>
     wh_consecutive_failures h = of_nat (length (failures_in_a_row calls))
     \<and> (wh_circuit_open_until h = None \<longleftrightarrow> length (failures_in_a_row calls) < 3)
     \<and> (case wh_circuit_open_until h of
          None \<Rightarrow> True
        | Some u \<Rightarrow> u \<in> (\<lambda>t. t + open_period) ` set (failures_in_a_row calls))"

lemma three_le_of_nat:
  assumes "n < 2 ^ 32"
  shows "(3 :: 32 word) \<le> of_nat n \<longleftrightarrow> 3 \<le> n"
  using assms by (simp add: word_le_nat_alt unat_of_nat take_bit_nat_eq_self)

lemma record_failure_inv:
  assumes inv: "breaker_inv calls h" and small: "length calls + 1 < 2 ^ 32"
  shows "breaker_inv (calls @ [(t, False)]) (record_failure t h)"
proof -
  let ?n = "length (failures_in_a_row calls)"
  have "Suc ?n < 2 ^ 32"
    using failures_in_a_row_length [of calls] small by simp
  then have thr: "(3 :: 32 word) \<le> of_nat (Suc ?n) \<longleftrightarrow> 3 \<le> Suc ?n"
    by (rule three_le_of_nat)
  have cnt: "wh_consecutive_failures h + 1 = of_nat (Suc ?n)"
    using inv by (simp add: breaker_inv_def)
  show ?thesis
  proof (cases "wh_circuit_open_until h")
    case None
    then have "?n < 3" using inv by (simp add: breaker_inv_def)
    then show ?thesis
      using None cnt thr
      by (auto simp: breaker_inv_def record_failure_def get_circuit_state_def Let_def
               simp del: of_nat_Suc)
  next
    case (Some u)
    then have "3 \<le> ?n" "u \<in> (\<lambda>t. t + open_period) ` set (failures_in_a_row calls)"
      using inv by (auto simp: breaker_inv_def not_less)
    then show ?thesis
      using Some cnt thr
      by (auto simp: breaker_inv_def record_failure_def get_circuit_state_def Let_def
               simp del: of_nat_Suc)
  qed
qed

lemma breaker_inv_run:
  assumes "wh_consecutive_failures h = 0" "wh_circuit_open_until h = None"
    and "length calls < 2 ^ 32"
  shows "breaker_inv calls (fold record_call calls h)"
  using assms(3)
proof (induction calls rule: rev_induct)
  case Nil
  then show ?case using assms by (simp add: breaker_inv_def)
next
  case (snoc c calls)
  then have inv: "breaker_inv calls (fold record_call calls h)" by simp
  obtain t ok where c: "c = (t, ok)" by (cases c)
  show ?case
  proof (cases ok)
    case True
    then show ?thesis by (simp add: c breaker_inv_def record_success_def)
  next
    case False
    then show ?thesis
      using record_failure_inv [OF inv, of t] snoc.prems False by (simp add: c)
  qed
qed

text \<open>
  C19: The circuit breaker counts failures in a row. After any run of calls on a newly connected worker the
  circuit is closed exactly when fewer than three calls have failed since the last success; and when it
  refuses calls, one of those failures happened less than thirty seconds ago, so that thirty seconds
  after the last failure calls are let through again.
\<close>

theorem breaker_counts_failures:
  assumes "wh_consecutive_failures h = 0" "wh_circuit_open_until h = None"
    and "length calls < 2 ^ 32"
  shows "(get_circuit_state now (fold record_call calls h) = Closed
          \<longleftrightarrow> length (failures_in_a_row calls) < 3)
       \<and> (is_circuit_open now (fold record_call calls h)
          \<longrightarrow> (\<exists>t \<in> set (failures_in_a_row calls). now < t + 30 * 1000000000))"
proof -
  have inv: "breaker_inv calls (fold record_call calls h)"
    using assms by (rule breaker_inv_run)
  show ?thesis
    using inv
    by (auto simp: breaker_inv_def get_circuit_state_def is_circuit_open_def open_period_def
             split: option.splits if_splits)
qed

text \<open>The premises hold of a new handle; after three failures it refuses, thirty seconds later not.\<close>

definition new_handle :: worker_handle where
  "new_handle =
     \<lparr>wh_sent = [], wh_closed = False, wh_session_token = ''token-a'',
      wh_consecutive_failures = 0, wh_circuit_open_until = None\<rparr>"

theorem breaker_counts_failures_witness:
  "get_circuit_state 9 (fold record_call [(1, False), (2, True), (3, False), (4, False)] new_handle)
     = Closed
   \<and> get_circuit_state 9 (fold record_call [(3, False), (4, False), (5, False)] new_handle) = Open"
proof -
  have fresh: "wh_consecutive_failures new_handle = 0" "wh_circuit_open_until new_handle = None"
    by (simp_all add: new_handle_def)
  have "failures_in_a_row [(1, False), (2, True), (3, False), (4, False)] = [4, 3]"
    by (simp add: failures_in_a_row_def)
  then have "get_circuit_state 9
      (fold record_call [(1, False), (2, True), (3, False), (4, False)] new_handle) = Closed"
    using breaker_counts_failures
      [OF fresh, of "[(1, False), (2, True), (3, False), (4, False)]" 9] by simp
  moreover have "get_circuit_state 9
      (fold record_call [(3, False), (4, False), (5, False)] new_handle) = Open"
    by (simp add: record_failure_def get_circuit_state_def new_handle_def open_period_def Let_def)
  ultimately show ?thesis by blast
qed

subsection \<open>The rate limiter\<close>

text \<open>How many of the requests at the given moments a bucket lets through.\<close>

fun consume_times :: "instant list \<Rightarrow> token_bucket \<Rightarrow> nat \<times> token_bucket" where
  "consume_times [] b = (0, b)"
| "consume_times (t # ts) b =
     (case try_consume t b of
        (ok, b1) \<Rightarrow> apfst (\<lambda>n. (if ok then 1 else 0) + n) (consume_times ts b1))"

definition bucket_ok :: "token_bucket \<Rightarrow> bool" where
  "bucket_ok b \<longleftrightarrow> 0 \<le> tb_tokens b \<and> tb_tokens b \<le> tb_max_tokens b \<and> 0 \<le> tb_refill_rate b"

lemma as_secs_nonneg [simp]: "0 \<le> as_secs n"
  by (simp add: as_secs_def)

lemma as_secs_split: "s \<le> t \<Longrightarrow> t \<le> e \<Longrightarrow> as_secs (e - s) = as_secs (t - s) + as_secs (e - t)"
  by (simp add: as_secs_def add_divide_distrib [symmetric] of_nat_diff)

lemma as_secs_mono: "m \<le> n \<Longrightarrow> as_secs m \<le> as_secs n"
  by (simp add: as_secs_def divide_right_mono)

lemma try_consume_ok:
  assumes "bucket_ok b" "try_consume t b = (ok, b1)"
  shows "bucket_ok b1 \<and> tb_max_tokens b1 = tb_max_tokens b \<and> tb_refill_rate b1 = tb_refill_rate b
       \<and> tb_last_refill b1 = t
       \<and> (if ok then 1 else 0) + tb_tokens b1
           \<le> tb_tokens b + as_secs (t - tb_last_refill b) * tb_refill_rate b
       \<and> (if ok then 1 else 0) + tb_tokens b1 \<le> tb_max_tokens b"
  using assms by (auto simp: try_consume_def bucket_ok_def Let_def split: if_splits)

lemma consume_times_ok:
  "bucket_ok b \<Longrightarrow> bucket_ok (snd (consume_times ts b))
     \<and> tb_max_tokens (snd (consume_times ts b)) = tb_max_tokens b
     \<and> tb_refill_rate (snd (consume_times ts b)) = tb_refill_rate b"
proof (induction ts arbitrary: b)
  case (Cons t ts)
  obtain ok b1 where b1: "try_consume t b = (ok, b1)" by force
  show ?case using try_consume_ok [OF Cons.prems b1] Cons.IH [of b1] by (simp add: b1)
qed simp

lemma consume_times_bound:
  "bucket_ok b \<Longrightarrow> sorted (tb_last_refill b # ts) \<Longrightarrow> \<forall>t \<in> set ts. t \<le> e \<Longrightarrow>
   tb_last_refill b \<le> e \<Longrightarrow>
   of_nat (fst (consume_times ts b))
     \<le> tb_tokens b + as_secs (e - tb_last_refill b) * tb_refill_rate b"
proof (induction ts arbitrary: b)
  case Nil
  then show ?case by (simp add: bucket_ok_def)
next
  case (Cons t ts)
  obtain ok b1 where b1: "try_consume t b = (ok, b1)" by force
  note facts = try_consume_ok [OF Cons.prems(1) b1]
  have "of_nat (fst (consume_times ts b1))
          \<le> tb_tokens b1 + as_secs (e - tb_last_refill b1) * tb_refill_rate b1"
    using Cons.prems facts by (intro Cons.IH) auto
  then have "(if ok then 1 else 0) + of_nat (fst (consume_times ts b1))
      \<le> tb_tokens b + as_secs (t - tb_last_refill b) * tb_refill_rate b
        + as_secs (e - t) * tb_refill_rate b"
    using facts by auto
  also have "\<dots> = tb_tokens b + as_secs (e - tb_last_refill b) * tb_refill_rate b"
    using as_secs_split [of "tb_last_refill b" t e] Cons.prems by (simp add: algebra_simps)
  finally show ?case by (auto simp: b1)
qed

lemma consume_window:
  assumes "bucket_ok b" "sorted ts" "\<forall>t \<in> set ts. s \<le> t \<and> t \<le> e"
  shows "of_nat (fst (consume_times ts b))
           \<le> tb_max_tokens b + as_secs (e - s) * tb_refill_rate b"
proof (cases ts)
  case Nil
  then show ?thesis using assms(1) by (auto simp: bucket_ok_def)
next
  case (Cons t ts')
  obtain ok b1 where b1: "try_consume t b = (ok, b1)" by force
  note facts = try_consume_ok [OF assms(1) b1]
  have "of_nat (fst (consume_times ts' b1))
          \<le> tb_tokens b1 + as_secs (e - tb_last_refill b1) * tb_refill_rate b1"
    using assms facts Cons by (intro consume_times_bound) auto
  then have "(if ok then 1 else 0) + of_nat (fst (consume_times ts' b1))
      \<le> tb_max_tokens b + as_secs (e - t) * tb_refill_rate b"
    using facts by auto
  also have "\<dots> \<le> tb_max_tokens b + as_secs (e - s) * tb_refill_rate b"
    using assms Cons by (auto simp: bucket_ok_def intro!: mult_right_mono as_secs_mono)
  finally show ?thesis by (auto simp: Cons b1)
qed



subsection \<open>Calls in flight\<close>

text \<open>
  Many calls of \<open>collect_responses\<close> run at the same time, and the routing tasks of the workers deliver
  messages between their steps. A state is the registry, the calls that are past their
  \<open>send\<close> (the handle they hold, their deadline, the messages they have collected), and the results of the
  calls that returned. A step is one event: a call starts, a message arrives from a worker, the loop of a call
  takes one message off its channel, the timer of a call fires, or one of the other operations of the registry
  runs.
\<close>

record call =
  cl_handle :: nat
  cl_deadline :: instant
  cl_messages :: "worker_message list"

record gateway =
  gw_registry :: registry
  gw_calls :: "(string \<times> call) list"
  gw_results :: "(string \<times> (registry_error, worker_message list) result) list"

datatype registry_op =
    OpRegister "128 word" register_request
  | OpChallengeResponse string challenge_proof
  | OpCommandStream instant "(string, worker_message) result option"
  | OpStreamEnded string
  | OpChannelClosed nat
  | OpWatchdog
  | OpUnregister string
  | OpSetSecret string string
  | OpSetHeartbeatBridge "(string \<times> worker_resources) list"
  | OpHeartbeat string "64 word" nat
  | OpRunPipeline string string string "(string \<times> string) list" "64 word" "(string \<times> string) list"
  | OpCancelPipeline string string string string

fun apply_registry_op :: "hmac_fun \<Rightarrow> registry_op \<Rightarrow> registry \<Rightarrow> registry" where
  "apply_registry_op hmac (OpRegister ts req) r = snd (register ts req r)"
| "apply_registry_op hmac (OpChallengeResponse uuid req) r = snd (challenge_response hmac uuid req r)"
| "apply_registry_op hmac (OpCommandStream now first_msg) r = snd (command_stream now first_msg r)"
| "apply_registry_op hmac (OpStreamEnded i) r = stream_ended i r"
| "apply_registry_op hmac (OpChannelClosed a) r = update_handle a (\<lambda>h. h\<lparr>wh_closed := True\<rparr>) r"
| "apply_registry_op hmac OpWatchdog r = watchdog_round r"
| "apply_registry_op hmac (OpUnregister i) r = unregister_worker i r"
| "apply_registry_op hmac (OpSetSecret i secret) r = set_secret i secret r"
| "apply_registry_op hmac (OpSetHeartbeatBridge bridge) r = set_heartbeat_bridge bridge r"
| "apply_registry_op hmac (OpHeartbeat uuid ms a) r = snd (heartbeat uuid ms a r)"
| "apply_registry_op hmac (OpRunPipeline uuid i f env tmo ps) r = snd (run_pipeline uuid i f env tmo ps r)"
| "apply_registry_op hmac (OpCancelPipeline uuid i run why) r = snd (cancel_pipeline uuid i run why r)"

datatype gw_event =
    CallStart instant nat string gateway_command
  | Deliver "64 word" string worker_message
  | Receive instant string
  | Expire instant string
  | Other registry_op

definition set_channel :: "string \<Rightarrow> response_channel \<Rightarrow> registry \<Rightarrow> registry" where
  "set_channel cid ch r = r\<lparr>rg_pending_multi := AList.update cid ch (rg_pending_multi r)\<rparr>"

definition finish_call ::
    "instant \<Rightarrow> string \<Rightarrow> call \<Rightarrow> collected \<Rightarrow> registry \<Rightarrow> gateway \<Rightarrow> gateway" where
  "finish_call now cid c outcome r g =
     (case collect_finish now (cl_handle c) cid outcome r of
        (x, r') \<Rightarrow>
          g\<lparr>gw_registry := r', gw_calls := AList.delete cid (gw_calls g),
            gw_results := AList.update cid x (gw_results g)\<rparr>)"

inductive gw_step :: "hmac_fun \<Rightarrow> gateway \<Rightarrow> gw_event \<Rightarrow> gateway \<Rightarrow> bool" for hmac where
  started: "collect_start now sb cmd (gw_registry g) = (Inr a, r') \<Longrightarrow>
     gw_step hmac g (CallStart now tmo sb cmd)
       (g\<lparr>gw_registry := r',
          gw_calls := AList.update (gc_command_id cmd)
            \<lparr>cl_handle = a, cl_deadline = now + tmo, cl_messages = []\<rparr> (gw_calls g),
          gw_results := AList.delete (gc_command_id cmd) (gw_results g)\<rparr>)"
| refused: "collect_start now sb cmd (gw_registry g) = (Inl e, r') \<Longrightarrow>
     gw_step hmac g (CallStart now tmo sb cmd)
       (g\<lparr>gw_registry := r',
          gw_results := AList.update (gc_command_id cmd) (Inl e) (gw_results g)\<rparr>)"
| delivered: "gw_step hmac g (Deliver epoch sb msg)
       (g\<lparr>gw_registry := route_message epoch sb msg (gw_registry g)\<rparr>)"
| collected: "map_of (gw_calls g) cid = Some c \<Longrightarrow>
     map_of (rg_pending_multi (gw_registry g)) cid = Some (Inr msg # rest) \<Longrightarrow> \<not> is_terminal msg \<Longrightarrow>
     gw_step hmac g (Receive now cid)
       (g\<lparr>gw_registry := set_channel cid rest (gw_registry g),
          gw_calls := AList.update cid (c\<lparr>cl_messages := cl_messages c @ [msg]\<rparr>) (gw_calls g)\<rparr>)"
| completed: "map_of (gw_calls g) cid = Some c \<Longrightarrow>
     map_of (rg_pending_multi (gw_registry g)) cid = Some (Inr msg # rest) \<Longrightarrow> is_terminal msg \<Longrightarrow>
     gw_step hmac g (Receive now cid)
       (finish_call now cid c (Completed (cl_messages c @ [msg]))
          (set_channel cid rest (gw_registry g)) g)"
| broken: "map_of (gw_calls g) cid = Some c \<Longrightarrow>
     map_of (rg_pending_multi (gw_registry g)) cid = Some (Inl e # rest) \<Longrightarrow>
     gw_step hmac g (Receive now cid)
       (finish_call now cid c (Broken e) (set_channel cid rest (gw_registry g)) g)"
| expired: "map_of (gw_calls g) cid = Some c \<Longrightarrow> cl_deadline c \<le> now \<Longrightarrow>
     gw_step hmac g (Expire now cid) (finish_call now cid c Elapsed (gw_registry g) g)"
| other: "gw_step hmac g (Other opn) (g\<lparr>gw_registry := apply_registry_op hmac opn (gw_registry g)\<rparr>)"

inductive_cases CallStartE: "gw_step hmac g (CallStart now tmo sb cmd) g'"
inductive_cases DeliverE: "gw_step hmac g (Deliver epoch sb msg) g'"
inductive_cases ReceiveE: "gw_step hmac g (Receive now cid) g'"
inductive_cases ExpireE: "gw_step hmac g (Expire now cid) g'"
inductive_cases OtherE: "gw_step hmac g (Other opn) g'"

inductive gw_steps :: "hmac_fun \<Rightarrow> gateway \<Rightarrow> gw_event list \<Rightarrow> gateway \<Rightarrow> bool" for hmac where
  steps_none: "gw_steps hmac g [] g"
| steps_snoc: "gw_steps hmac g evs g1 \<Longrightarrow> gw_step hmac g1 ev g2 \<Longrightarrow> gw_steps hmac g (evs @ [ev]) g2"

subsection \<open>Which channel an operation touches\<close>

definition chan :: "string \<Rightarrow> registry \<Rightarrow> response_channel option" where
  "chan cid r = map_of (rg_pending_multi r) cid"

lemma chan_updates [simp]:
  "chan cid (r\<lparr>rg_workers := w\<rparr>) = chan cid r"
  "chan cid (r\<lparr>rg_handles := hs\<rparr>) = chan cid r"
  "chan cid (r\<lparr>rg_secrets := ss\<rparr>) = chan cid r"
  "chan cid (r\<lparr>rg_rate_limiters := rl\<rparr>) = chan cid r"
  "chan cid (r\<lparr>rg_pending_challenges := pcs\<rparr>) = chan cid r"
  "chan cid (r\<lparr>rg_heartbeat_bridge := hb\<rparr>) = chan cid r"
  "chan cid (r\<lparr>rg_pipeline_events := pes\<rparr>) = chan cid r"
  "chan cid (r\<lparr>rg_pending_multi := AList.update cid' ch (rg_pending_multi r')\<rparr>) =
     (if cid = cid' then Some ch else chan cid r')"
  "chan cid (r\<lparr>rg_pending_multi := AList.delete cid' (rg_pending_multi r')\<rparr>) =
     (if cid = cid' then None else chan cid r')"
  by (simp_all add: chan_def update_conv' delete_conv')

lemma chan_update_handle [simp]: "chan cid (update_handle a f r) = chan cid r"
  by (simp add: update_handle_def)

lemma chan_set_channel [simp]:
  "chan cid (set_channel cid' ch r) = (if cid = cid' then Some ch else chan cid r)"
  by (simp add: set_channel_def)

lemma chan_remove_pending [simp]:
  "chan cid (remove_pending cid' r) = (if cid = cid' then None else chan cid r)"
  by (simp add: remove_pending_def)

lemma chan_heartbeat_bridge [simp]:
  "chan cid (update_heartbeat_bridge epoch i h r) = chan cid r"
  "chan cid (remove_heartbeat_bridge i r) = chan cid r"
  by (simp_all add: update_heartbeat_bridge_def remove_heartbeat_bridge_def split: option.splits)

lemma chan_remove_dead [simp]: "chan cid (fold remove_dead is r) = chan cid r"
  by (induction "is" arbitrary: r) (simp_all add: remove_dead_def Let_def)

lemma chan_push_event [simp]: "chan cid (push_event ev r) = chan cid r"
  by (simp add: push_event_def Let_def)

lemma chan_send_multi [simp]:
  "chan cid (send_multi msg r) =
     (if wm_command_id msg = cid \<and> cid \<noteq> [] then map_option (\<lambda>ch. ch @ [Ok msg]) (chan cid r)
      else chan cid r)"
  by (auto simp: send_multi_def chan_def update_conv' split: option.splits)

lemma chan_route_message [simp]: "chan cid (route_message epoch i msg r) = chan cid (send_multi msg r)"
  by (simp add: route_message_def Let_def split: option.splits worker_payload.splits)

lemma chan_send_only [simp]: "chan cid (snd (send_only why i cmd r)) = chan cid r"
  by (simp add: send_only_def split: option.splits)

lemma chan_registry_op [simp]: "chan cid (apply_registry_op hmac opn r) = chan cid r"
  by (cases opn)
    (simp_all add: register_def challenge_response_def command_stream_def register_worker_def
      stream_ended_def watchdog_round_def unregister_worker_def set_secret_def
      set_heartbeat_bridge_def heartbeat_def run_pipeline_def cancel_pipeline_def Let_def
      split_beta split: option.splits sum.splits worker_payload.splits)

lemma chan_rate_check [simp]: "chan cid (snd (rate_check now i r)) = chan cid r"
  by (simp add: rate_check_def split: option.splits prod.splits)

lemma chan_send_command:
  "chan cid (snd (send_command now i a cmd r)) =
     (if cid = gc_command_id cmd
      then (if is_ok (fst (send_command now i a cmd r)) then Some [] else None) else chan cid r)"
  by (simp add: send_command_def Let_def)

lemma rate_check_chan: "rate_check now i r = (ok, r1) \<Longrightarrow> chan cid r1 = chan cid r"
  using chan_rate_check [of cid now i r] by simp

lemma collect_start_chan:
  assumes "collect_start now i cmd r = (x, r')"
  shows "chan cid r' =
     (if cid = gc_command_id cmd \<and> is_ok x then Some []
      else if cid = gc_command_id cmd \<and> (\<exists>s. x = Inl (WorkerDisconnected s)) then None
      else chan cid r)"
  using assms
  by (auto simp: collect_start_def chan_def [symmetric] send_command_def Let_def rate_check_chan
           split: option.splits if_splits prod.splits bool.splits dest!: rate_check_chan [of _ _ _ _ _ cid])

lemma collect_finish_chan:
  "chan cid (snd (collect_finish now a cid' outcome r)) = (if cid = cid' then None else chan cid r)"
  by (simp add: collect_finish_def Let_def split: collected.splits)

subsection \<open>Calls do not mix\<close>

fun upto_terminal :: "worker_message list \<Rightarrow> worker_message list option" where
  "upto_terminal [] = None"
| "upto_terminal (m # ms) = (if is_terminal m then Some [m] else map_option ((#) m) (upto_terminal ms))"

lemma upto_terminal_append:
  "upto_terminal (xs @ ys) =
     (case upto_terminal xs of Some ms \<Rightarrow> Some ms | None \<Rightarrow> map_option ((@) xs) (upto_terminal ys))"
  by (cases "upto_terminal ys"; induction xs) (auto split: option.splits)

lemma upto_terminal_None_iff: "upto_terminal xs = None \<longleftrightarrow> (\<forall>m \<in> set xs. \<not> is_terminal m)"
  by (induction xs) auto

lemma collect_loop_eq:
  "collect_loop acc (map Inr ds) =
     (case upto_terminal ds of None \<Rightarrow> Elapsed | Some ms \<Rightarrow> Completed (acc @ ms))"
  by (induction ds arbitrary: acc) (auto split: option.splits)

definition replies_for :: "string \<Rightarrow> gw_event list \<Rightarrow> worker_message list" where
  "replies_for cid evs =
     concat (map (\<lambda>ev. case ev of Deliver _ _ m \<Rightarrow> if wm_command_id m = cid then [m] else [] | _ \<Rightarrow> [])
       evs)"

lemma replies_for_simps [simp]:
  "replies_for cid [] = []"
  "replies_for cid (evs @ [ev]) = replies_for cid evs @ replies_for cid [ev]"
  by (simp_all add: replies_for_def)

lemma replies_for_single:
  "replies_for cid [Deliver epoch i m] = (if wm_command_id m = cid then [m] else [])"
  "replies_for cid [CallStart t tmo i cmd] = []"
  "replies_for cid [Receive t cid'] = []"
  "replies_for cid [Expire t cid'] = []"
  "replies_for cid [Other opn] = []"
  by (simp_all add: replies_for_def)

fun starts_call :: "string \<Rightarrow> gw_event \<Rightarrow> bool" where
  "starts_call cid (CallStart _ _ _ cmd) = (gc_command_id cmd = cid)"
| "starts_call cid _ = False"

definition in_flight :: "string \<Rightarrow> worker_message list \<Rightarrow> gateway \<Rightarrow> bool" where
  "in_flight cid ds g \<longleftrightarrow>
     (\<exists>c rest. map_of (gw_calls g) cid = Some c \<and> chan cid (gw_registry g) = Some (map Inr rest)
        \<and> ds = cl_messages c @ rest \<and> upto_terminal (cl_messages c) = None)
     \<and> map_of (gw_results g) cid = None"

definition returned :: "string \<Rightarrow> worker_message list \<Rightarrow> gateway \<Rightarrow> bool" where
  "returned cid ds g \<longleftrightarrow>
     map_of (gw_calls g) cid = None
     \<and> (case map_of (gw_results g) cid of
          None \<Rightarrow> False
        | Some (Inl e) \<Rightarrow> e = CommandTimeout cid
        | Some (Inr ms) \<Rightarrow> upto_terminal ds = Some ms)"

lemma returned_more: "returned cid ds g \<Longrightarrow> returned cid (ds @ ds') g"
  by (auto simp: returned_def upto_terminal_append split: option.splits sum.splits)

lemma finish_call_sel [simp]:
  "gw_registry (finish_call now cid c outcome r g) = snd (collect_finish now (cl_handle c) cid outcome r)"
  "gw_calls (finish_call now cid c outcome r g) = AList.delete cid (gw_calls g)"
  "gw_results (finish_call now cid c outcome r g) =
     AList.update cid (fst (collect_finish now (cl_handle c) cid outcome r)) (gw_results g)"
  by (simp_all add: finish_call_def split: prod.splits)

lemma collect_finish_result:
  "fst (collect_finish now a cid outcome r) =
     (case outcome of
        Completed ms \<Rightarrow> Inr ms | Broken e \<Rightarrow> Inl (CommandFailedWith e)
      | Elapsed \<Rightarrow> Inl (CommandTimeout cid))"
  by (simp add: collect_finish_def Let_def split: collected.splits)

lemma same_view:
  assumes "map_of (gw_calls g') cid = map_of (gw_calls g) cid"
    "map_of (gw_results g') cid = map_of (gw_results g) cid"
    "chan cid (gw_registry g') = chan cid (gw_registry g)"
  shows "in_flight cid ds g' = in_flight cid ds g" "returned cid ds g' = returned cid ds g"
  using assms by (simp_all add: in_flight_def returned_def)

text \<open>A step of another call leaves the view of this one alone.\<close>

lemma other_call_view:
  assumes "gw_step hmac g ev g'" "ev = Receive now cid' \<or> ev = Expire now cid'" "cid' \<noteq> cid"
  shows "in_flight cid ds g' = in_flight cid ds g" "returned cid ds g' = returned cid ds g"
proof -
  have "map_of (gw_calls g') cid = map_of (gw_calls g) cid
      \<and> map_of (gw_results g') cid = map_of (gw_results g) cid
      \<and> chan cid (gw_registry g') = chan cid (gw_registry g)"
    using assms(2,3,1) by (auto elim!: ReceiveE ExpireE simp: update_conv' delete_conv' collect_finish_chan)
  then show "in_flight cid ds g' = in_flight cid ds g" "returned cid ds g' = returned cid ds g"
    by (simp_all add: same_view [of g' cid g])
qed

lemma receive_own:
  assumes "gw_step hmac g (Receive now cid) g'" "in_flight cid ds g"
  shows "in_flight cid ds g' \<or> returned cid ds g'"
  using assms(1)
proof (cases rule: ReceiveE [consumes 1, case_names collected completed broken])
  case (collected c msg rest)
  from assms(2) obtain q where "chan cid (gw_registry g) = Some (map Inr q)" "ds = cl_messages c @ q"
      "upto_terminal (cl_messages c) = None" "map_of (gw_results g) cid = None"
    using collected(2) by (auto simp: in_flight_def)
  moreover from this obtain q' where "q = msg # q'" "rest = map Inr q'"
    using collected(3) by (auto simp: chan_def)
  ultimately have "in_flight cid ds g'"
    using collected by (auto simp: in_flight_def update_conv' upto_terminal_append)
  then show ?thesis ..
next
  case (completed c msg rest)
  from assms(2) obtain q where "chan cid (gw_registry g) = Some (map Inr q)" "ds = cl_messages c @ q"
      "upto_terminal (cl_messages c) = None"
    using completed(2) by (auto simp: in_flight_def)
  moreover from this obtain q' where "q = msg # q'" "rest = map Inr q'"
    using completed(3) by (auto simp: chan_def)
  ultimately have "returned cid ds g'"
    using completed
    by (auto simp: returned_def delete_conv' update_conv' collect_finish_result upto_terminal_append)
  then show ?thesis ..
next
  case (broken c e rest)
  then show ?thesis using assms(2) by (auto simp: in_flight_def chan_def)
qed

lemma gw_step_view:
  assumes "gw_step hmac g ev g'" "in_flight cid ds g \<or> returned cid ds g"
    and "\<not> starts_call cid ev" "cid \<noteq> []"
  shows "in_flight cid (ds @ replies_for cid [ev]) g' \<or> returned cid (ds @ replies_for cid [ev]) g'"
proof (cases ev)
  case (CallStart now tmo sb cmd)
  then have other: "gc_command_id cmd \<noteq> cid" using assms(3) by simp
  have step: "gw_step hmac g (CallStart now tmo sb cmd) g'" using assms(1) CallStart by simp
  have "map_of (gw_calls g') cid = map_of (gw_calls g) cid
      \<and> map_of (gw_results g') cid = map_of (gw_results g) cid
      \<and> chan cid (gw_registry g') = chan cid (gw_registry g)"
    using step other
    by (cases rule: CallStartE) (auto simp: update_conv' delete_conv' dest: collect_start_chan [of _ _ _ _ _ _ cid])
  then show ?thesis using assms(2) by (simp add: CallStart replies_for_single same_view [of g' cid g])
next
  case (Deliver epoch sb msg)
  have g': "g' = g\<lparr>gw_registry := route_message epoch sb msg (gw_registry g)\<rparr>"
    using assms(1) Deliver by (auto elim: DeliverE)
  have "in_flight cid ds g \<Longrightarrow> in_flight cid (ds @ replies_for cid [ev]) g'"
    using assms(4) by (auto simp: g' Deliver replies_for_single in_flight_def)
  moreover have "returned cid ds g \<Longrightarrow> returned cid (ds @ replies_for cid [ev]) g'"
    using returned_more [of cid ds g] by (simp add: g' returned_def)
  ultimately show ?thesis using assms(2) by blast
next
  case (Receive now cid')
  then have step: "gw_step hmac g (Receive now cid') g'" using assms(1) by simp
  show ?thesis
  proof (cases "cid' = cid")
    case True
    have "\<not> returned cid ds g" using step True by (auto elim!: ReceiveE simp: returned_def)
    then show ?thesis
      using assms(2) receive_own [of hmac g now cid g' ds] step True by (simp add: Receive replies_for_single)
  next
    case False
    then show ?thesis
      using assms(2) other_call_view [OF step, of now cid' cid] by (simp add: Receive replies_for_single)
  qed
next
  case (Expire now cid')
  then have step: "gw_step hmac g (Expire now cid') g'" using assms(1) by simp
  show ?thesis
  proof (cases "cid' = cid")
    case True
    have "returned cid ds g'"
      using step True
      by (auto elim!: ExpireE simp: returned_def delete_conv' update_conv' collect_finish_result)
    then show ?thesis by (simp add: Expire replies_for_single)
  next
    case False
    then show ?thesis
      using assms(2) other_call_view [OF step, of now cid' cid] by (simp add: Expire replies_for_single)
  qed
next
  case (Other opn)
  have g': "g' = g\<lparr>gw_registry := apply_registry_op hmac opn (gw_registry g)\<rparr>"
    using assms(1) Other by (auto elim: OtherE)
  have "in_flight cid ds g' = in_flight cid ds g" "returned cid ds g' = returned cid ds g"
    by (rule same_view; simp add: g')+
  then show ?thesis using assms(2) by (simp add: Other replies_for_single)
qed

lemma gw_steps_view:
  "gw_steps hmac g evs g' \<Longrightarrow> in_flight cid [] g \<Longrightarrow> list_all (\<lambda>ev. \<not> starts_call cid ev) evs \<Longrightarrow>
   cid \<noteq> [] \<Longrightarrow> in_flight cid (replies_for cid evs) g' \<or> returned cid (replies_for cid evs) g'"
proof (induction rule: gw_steps.induct)
  case (steps_snoc g evs g1 ev g2)
  then show ?case using gw_step_view [of hmac g1 ev g2 cid "replies_for cid evs"] by simp
qed simp

lemma started_in_flight:
  assumes "gw_step hmac g (CallStart now tmo sb cmd) g0"
    and "map_of (gw_results g0) (gc_command_id cmd) = None"
  shows "in_flight (gc_command_id cmd) [] g0"
  using assms(1)
proof (cases rule: CallStartE [consumes 1, case_names started refused])
  case (started a r')
  then show ?thesis
    using collect_start_chan [OF started(2), of "gc_command_id cmd"]
    by (auto simp: in_flight_def update_conv' delete_conv')
next
  case (refused e r')
  then show ?thesis using assms(2) by (simp add: update_conv')
qed

text \<open>
  C16: Calls in flight do not mix. Take a call that was accepted and sent, and any interleaving of further events
  (other calls, messages of any worker, timers, registrations). If the call has
  returned messages, they are exactly the messages delivered for its own command identifier since it
  started, in order, up to and including the first terminal one; if it has returned an error, the error
  is its timeout; and if it has not returned, it has collected a prefix of those messages.
\<close>

theorem calls_do_not_mix:
  assumes "gw_step hmac g (CallStart now tmo sb cmd) g0"
    and "map_of (gw_results g0) (gc_command_id cmd) = None"
    and "gw_steps hmac g0 evs g1"
    and "list_all (\<lambda>ev. \<not> starts_call (gc_command_id cmd) ev) evs"
    and "gc_command_id cmd \<noteq> []"
  shows "(case map_of (gw_results g1) (gc_command_id cmd) of
            Some (Inr ms) \<Rightarrow> upto_terminal (replies_for (gc_command_id cmd) evs) = Some ms
          | Some (Inl e) \<Rightarrow> e = CommandTimeout (gc_command_id cmd)
          | None \<Rightarrow>
              \<exists>c rest. map_of (gw_calls g1) (gc_command_id cmd) = Some c
                \<and> replies_for (gc_command_id cmd) evs = cl_messages c @ rest)"
proof -
  have "in_flight (gc_command_id cmd) [] g0"
    using assms(1,2) by (rule started_in_flight)
  then have "in_flight (gc_command_id cmd) (replies_for (gc_command_id cmd) evs) g1
      \<or> returned (gc_command_id cmd) (replies_for (gc_command_id cmd) evs) g1"
    using gw_steps_view assms(3-5) by blast
  then show ?thesis
    by (auto simp: in_flight_def returned_def split: option.splits sum.splits)
qed

text \<open>A gateway with one worker, two calls, and replies_for that arrive interleaved.\<close>

definition demo_worker :: registry where
  "demo_worker =
     snd (command_stream 0
       (Some (Ok \<lparr>wm_command_id = [], wm_payload = Some (ReadySignal ''a'' ''/workspace'')\<rparr>))
       (registry_new \<lparr>ac_pre_shared_key_enabled = False, ac_pre_shared_keys = []\<rparr>))"

definition demo_gateway :: gateway where
  "demo_gateway = \<lparr>gw_registry = demo_worker, gw_calls = [], gw_results = []\<rparr>"

definition demo_run :: "string \<Rightarrow> gateway_command" where
  "demo_run uuid = command_for uuid (run_request ''ls'' [] ''/workspace'' [] 1000)"

definition demo_exit :: "string \<Rightarrow> worker_message" where
  "demo_exit cid = \<lparr>wm_command_id = cid, wm_payload = Some (ExitResult 0 12 False [])\<rparr>"

lemma demo_worker_eq:
  "demo_worker =
     \<lparr>rg_workers = [(''a'', 0)], rg_handles = [new_handle\<lparr>wh_session_token := ''a''\<rparr>],
      rg_pending_multi = [], rg_secrets = [],
      rg_rate_limiters = [(''a'', token_bucket_new 0 20 10)], rg_pending_challenges = [],
      rg_auth_config = \<lparr>ac_pre_shared_key_enabled = False, ac_pre_shared_keys = []\<rparr>,
      rg_heartbeat_bridge = None, rg_pipeline_events = []\<rparr>"
  by (simp add: demo_worker_def command_stream_def registry_new_def register_worker_def new_handle_def)

lemma demo_start:
  "\<exists>r. collect_start now ''a'' cmd demo_worker = (Inr 0, r)
     \<and> rg_pending_multi r = [(gc_command_id cmd, [])]"
  by (simp add: demo_worker_eq collect_start_def is_circuit_open_def get_circuit_state_def
      new_handle_def rate_check_def try_consume_def token_bucket_new_def as_secs_def Let_def
      send_command_def update_handle_def)

theorem calls_do_not_mix_witness:
  "\<exists>g0 g1. gw_step (\<lambda>k d. k) demo_gateway (CallStart 1 30 ''a'' (demo_run ''c1'')) g0
     \<and> gw_steps (\<lambda>k d. k) g0
          [Deliver 9 ''a'' (demo_exit ''c2''), Deliver 9 ''a'' (demo_exit ''c1''), Receive 5 ''c1''] g1
     \<and> map_of (gw_results g1) ''c1'' = Some (Inr [demo_exit ''c1''])"
proof -
  let ?h = "\<lambda>k d. k" and ?cmd = "demo_run ''c1''"
  let ?evs = "[Deliver 9 ''a'' (demo_exit ''c2''), Deliver 9 ''a'' (demo_exit ''c1''), Receive 5 ''c1'']"
  have cid: "gc_command_id ?cmd = ''c1''" by (simp add: demo_run_def command_for_def)
  obtain r where r: "collect_start 1 ''a'' ?cmd demo_worker = (Inr 0, r)"
      "rg_pending_multi r = [(''c1'', [])]"
    using demo_start [of 1 ?cmd] cid by auto
  define g0 where "g0 = demo_gateway\<lparr>gw_registry := r,
      gw_calls := [(''c1'', \<lparr>cl_handle = 0, cl_deadline = 31, cl_messages = []\<rparr>)]\<rparr>"
  have start: "gw_step ?h demo_gateway (CallStart 1 30 ''a'' ?cmd) g0"
    using started [of 1 "''a''" ?cmd demo_gateway 0 r ?h 30] r cid
    by (simp add: g0_def demo_gateway_def)
  define ga where "ga = g0\<lparr>gw_registry := route_message 9 ''a'' (demo_exit ''c2'') (gw_registry g0)\<rparr>"
  define gb where "gb = ga\<lparr>gw_registry := route_message 9 ''a'' (demo_exit ''c1'') (gw_registry ga)\<rparr>"
  have ch: "map_of (rg_pending_multi (gw_registry gb)) ''c1'' = Some [Inr (demo_exit ''c1'')]"
    by (simp add: gb_def ga_def g0_def route_message_def send_multi_def demo_exit_def r)
  have "gw_steps ?h g0 ([] @ [Deliver 9 ''a'' (demo_exit ''c2'')]) ga"
    unfolding ga_def by (rule steps_snoc [OF steps_none delivered])
  then have "gw_steps ?h g0
      (([] @ [Deliver 9 ''a'' (demo_exit ''c2'')]) @ [Deliver 9 ''a'' (demo_exit ''c1'')]) gb"
    unfolding gb_def by (rule steps_snoc [OF _ delivered])
  moreover obtain g1 where "gw_step ?h gb (Receive 5 ''c1'') g1"
      and res: "\<exists>ms. map_of (gw_results g1) ''c1'' = Some (Inr ms)"
    using completed [of gb "''c1''" _ "demo_exit ''c1''" "[]" ?h 5] ch
    by (fastforce simp: gb_def ga_def g0_def demo_exit_def is_terminal_def update_conv' collect_finish_result)
  ultimately have steps: "gw_steps ?h g0 ?evs g1" by (auto dest: steps_snoc)
  have "map_of (gw_results g1) ''c1'' = Some (Inr [demo_exit ''c1''])"
    using calls_do_not_mix [OF start _ steps] res
    by (auto simp: cid g0_def demo_gateway_def replies_for_def demo_exit_def is_terminal_def
             split: option.splits sum.splits)
  then show ?thesis using start steps by blast
qed

subsection \<open>What a call returns\<close>

lemma chan_deliver_all:
  assumes "cid \<noteq> []"
  shows "chan cid r = Some ch \<Longrightarrow>
    chan cid (fold (route_message epoch i) msgs r) =
      Some (ch @ map Inr (filter (\<lambda>m. wm_command_id m = cid) msgs))"
  using assms by (induction msgs arbitrary: r ch) auto

text \<open>
  A call that could be sent and during which the worker's messages \<open>msgs\<close> were routed: the result is
  decided by the messages of its own command up to the first terminal one.
\<close>

lemma collect_responses_result:
  assumes "is_ok (fst (collect_start now sb cmd r))" "gc_command_id cmd \<noteq> []"
  shows "fst (collect_responses now later (fold (route_message epoch i) msgs) sb cmd r) =
    (case upto_terminal (filter (\<lambda>m. wm_command_id m = gc_command_id cmd) msgs) of
       Some ms \<Rightarrow> Inr ms | None \<Rightarrow> Inl (CommandTimeout (gc_command_id cmd)))"
proof -
  obtain a r1 where start: "collect_start now sb cmd r = (Inr a, r1)"
    using assms(1) by (cases "collect_start now sb cmd r") (auto simp: is_ok_iff)
  have "chan (gc_command_id cmd) r1 = Some []"
    using collect_start_chan [OF start, of "gc_command_id cmd"] by simp
  then have "channel_of (gc_command_id cmd) (fold (route_message epoch i) msgs r1) =
      map Inr (filter (\<lambda>m. wm_command_id m = gc_command_id cmd) msgs)"
    using chan_deliver_all [OF assms(2), of r1 "[]" epoch i msgs]
    by (simp add: channel_of_def chan_def)
  then show ?thesis
    by (simp add: collect_responses_def start collect_finish_result collect_loop_eq Let_def
        split: option.splits)
qed

lemma stream_start_chan:
  assumes "stream_start now i cmd r = (Inr u, r')"
  shows "chan (gc_command_id cmd) r' = Some []"
  using assms
  by (auto simp: stream_start_def send_command_def Let_def
           split: option.splits if_splits prod.splits bool.splits sum.splits)

lemma collect_start_stream_start:
  "is_ok (fst (collect_start now i cmd r)) = is_ok (fst (stream_start now i cmd r))"
  by (auto simp: collect_start_def stream_start_def split: option.splits prod.splits bool.splits sum.splits)

lemma collect_start_any_command:
  "is_ok (fst (collect_start now i cmd r)) = is_ok (fst (collect_start now i cmd' r))"
  by (auto simp: collect_start_def send_command_def Let_def split: option.splits prod.splits bool.splits)

lemma command_for_id [simp]: "gc_command_id (command_for uuid p) = uuid"
  by (simp add: command_for_def)

end
