(* ===== verification/Bastion_Worker.thy ===== *)
theory Bastion_Worker
  imports Worker_Registry
begin

text \<open>
  The worker that runs inside a sandbox (\<open>crates/bastion-worker/src/main.rs\<close>): reconnection with
  backoff, the authentication handshake with the gateway, path validation, and the handlers of its command
  loop (run, read, write, list, ping, cancel, shutdown).

  The operating system is a parameter: a record \<open>'w\<close> \<open>os\<close> of the system calls the worker makes,
  over a world of type \<open>'w\<close> and child processes of type \<open>'c\<close>. Nothing is assumed of it. A handler gives
  back the messages it puts on the channel to the gateway, in order, with the state it leaves.
  Reading a file is the list of results of the successive \<open>read\<close> calls, as far as they have returned.
\<close>

subsection \<open>The operating system\<close>

record io_error =
  io_message :: string
  io_errno :: "32 word option"

record dir_entry =
  de_file_name :: string
  de_is_dir :: bool
  de_len :: "64 word"
  de_mode :: "32 word"
  de_modified_ms :: "nat option"

record ('c, 'w) os =
  os_canonicalize :: "string \<Rightarrow> 'w \<Rightarrow> (io_error, string) result"
  os_metadata_len :: "string \<Rightarrow> 'w \<Rightarrow> (io_error, 64 word) result"
  os_open_read :: "string \<Rightarrow> 'w \<Rightarrow> (io_error, (io_error, bytes) result list) result"
  os_write :: "string \<Rightarrow> bytes \<Rightarrow> 'w \<Rightarrow> (io_error, unit) result \<times> 'w"
  os_create_dir_all :: "string \<Rightarrow> 'w \<Rightarrow> (io_error, unit) result \<times> 'w"
  os_open_append :: "string \<Rightarrow> 'w \<Rightarrow> (io_error, unit) result \<times> 'w"
  os_append :: "string \<Rightarrow> bytes \<Rightarrow> 'w \<Rightarrow> (io_error, unit) result \<times> 'w"
  os_set_permissions :: "string \<Rightarrow> 32 word \<Rightarrow> 'w \<Rightarrow> 'w"
  os_read_dir :: "string \<Rightarrow> 'w \<Rightarrow> (io_error, (io_error, dir_entry) result list) result"
  os_spawn :: "string \<Rightarrow> string option \<Rightarrow> (string \<times> string) list \<Rightarrow> 'w \<Rightarrow> (io_error, 'c) result \<times> 'w"
  os_wait :: "'c \<Rightarrow> 'w \<Rightarrow> (io_error, bytes \<times> bytes \<times> 32 word option) result \<times> 'w"
  os_kill :: "'c \<Rightarrow> 'w \<Rightarrow> (io_error, unit) result \<times> 'w"

subsection \<open>Reconnecting\<close>

text \<open>Durations in milliseconds; \<open>nanos\<close> is the wall clock the jitter is taken from.\<close>

definition saturating_pow2 :: "nat \<Rightarrow> nat" where
  "saturating_pow2 n = min (2 ^ n) (2 ^ 64 - 1)"

definition next_backoff :: "32 word \<Rightarrow> nat \<Rightarrow> nat \<Rightarrow> 64 word \<Rightarrow> nat" where
  "next_backoff attempt base_ms max_ms nanos =
     (let exp_ms = (of_nat base_ms :: 64 word) * of_nat (saturating_pow2 (min (unat attempt) 6));
          jitter = nanos mod 500
      in min (unat (exp_ms + jitter)) max_ms)"

datatype exit_reason = ShutdownExit | StreamEnded

text \<open>
  The main loop over the outcomes of its sessions: the delays it sleeps, and whether it has returned.
  \<open>clock\<close> gives the jitter of each delay.
\<close>

fun main_loop ::
    "(nat \<Rightarrow> 64 word) \<Rightarrow> 32 word \<Rightarrow> (string, exit_reason) result list \<Rightarrow> nat list \<times> bool" where
  "main_loop clock attempt [] = ([], False)"
| "main_loop clock attempt (Inr ShutdownExit # rest) = ([], True)"
| "main_loop clock attempt (Inr StreamEnded # rest) = main_loop clock 0 rest"
| "main_loop clock attempt (Inl e # rest) =
     (let delay = next_backoff attempt 1000 60000 (clock (length rest))
      in apfst ((#) delay) (main_loop clock (attempt + 1) rest))"

subsection \<open>The handshake\<close>

record worker_args =
  wa_sandbox_id :: string
  wa_secret :: string
  wa_workdir :: string

definition compute_hmac_proof :: "hmac_fun \<Rightarrow> string \<Rightarrow> bytes \<Rightarrow> bytes \<Rightarrow> bytes" where
  "compute_hmac_proof hmac secret worker_nonce gateway_nonce =
     hmac (as_bytes secret) (worker_nonce @ gateway_nonce)"

definition worker_nonce :: "128 word \<Rightarrow> bytes \<Rightarrow> bytes" where
  "worker_nonce ts rand_bytes = le_bytes 16 ts @ rand_bytes"

text \<open>\<open>os\<close> and \<open>arch\<close> are what \<open>std::env::consts\<close> gives.\<close>

definition register_request_for :: "string \<Rightarrow> string \<Rightarrow> worker_args \<Rightarrow> bytes \<Rightarrow> register_request" where
  "register_request_for os_name arch args nonce =
     \<lparr>rr_sandbox_id = wa_sandbox_id args,
      rr_protocol_version = Some (2, 0, 0),
      rr_capabilities =
        Some \<lparr>wc_supported_operations =
                [''run_command'', ''read_file'', ''write_file'', ''list_files''],
              wc_max_concurrent_commands = 4,
              wc_max_output_bytes = 10 * 1024 * 1024,
              wc_max_file_size_bytes = 100 * 1024 * 1024,
              wc_supports_streaming = True, wc_supports_compression = True,
              wc_os = os_name, wc_arch = arch\<rparr>,
      rr_worker_nonce = nonce,
      rr_worker_version = ''0.1.0''\<rparr>"

fun status_debug_name :: "register_status \<Rightarrow> string" where
  "status_debug_name Accepted = ''Accepted''"
| "status_debug_name Challenge = ''Challenge''"
| "status_debug_name Rejected = ''Rejected''"
| "status_debug_name VersionMismatch = ''VersionMismatch''"

text \<open>
  The authentication part of \<open>run_worker_session\<close> over the two remote calls, which act on
  a gateway of type \<open>'g\<close>: the session token, or why the session failed.
\<close>

definition authenticate ::
    "hmac_fun \<Rightarrow> (register_request \<Rightarrow> 'g \<Rightarrow> register_response \<times> 'g) \<Rightarrow>
     (challenge_proof \<Rightarrow> 'g \<Rightarrow> register_response \<times> 'g) \<Rightarrow>
     worker_args \<Rightarrow> register_request \<Rightarrow> 'g \<Rightarrow> (string, string) result \<times> 'g" where
  "authenticate hmac rpc_register rpc_challenge_response args req g =
     (case rpc_register req g of
        (reg_response, g1) \<Rightarrow>
          (case rs_status reg_response of
             Accepted \<Rightarrow> (Ok (rs_session_token reg_response), g1)
           | Challenge \<Rightarrow>
               (let proof_bytes = compute_hmac_proof hmac (wa_secret args) (rr_worker_nonce req)
                                    (rs_gateway_nonce reg_response)
                in case rpc_challenge_response
                          \<lparr>cp_sandbox_id = wa_sandbox_id args, cp_proof = proof_bytes\<rparr> g1 of
                     (challenge_resp, g2) \<Rightarrow>
                       if rs_status challenge_resp \<noteq> Accepted
                       then (Err (''Challenge response rejected: '' @
                                  status_debug_name (rs_status challenge_resp)), g2)
                       else (Ok (rs_session_token challenge_resp), g2))
           | Rejected \<Rightarrow> (Err ''Registration rejected by gateway'', g1)
           | VersionMismatch \<Rightarrow> (Err ''Protocol version mismatch'', g1)))"

definition ready_message :: "string \<Rightarrow> worker_args \<Rightarrow> worker_message" where
  "ready_message session_token args =
     \<lparr>wm_command_id = [], wm_payload = Some (ReadySignal session_token (wa_workdir args))\<rparr>"

subsection \<open>Paths\<close>

definition ALLOWED_PREFIXES :: "string list" where
  "ALLOWED_PREFIXES = [''/workspace'', ''/tmp'', ''/home'', ''/opt'', ''/var/tmp'']"

definition validate_path :: "('c, 'w) os \<Rightarrow> string \<Rightarrow> 'w \<Rightarrow> (string, string) result" where
  "validate_path os path w =
     (if \<not> starts_with ''/'' path
      then Err (''Relative paths not allowed: '' @ [CHR 0x27] @ path @ [CHR 0x27])
      else case os_canonicalize os path w of
             Inl e \<Rightarrow>
               Err (''Failed to canonicalize path '' @ [CHR 0x27] @ path @ [CHR 0x27] @ '': '' @ io_message e)
           | Inr canonical \<Rightarrow>
               if \<not> list_ex (\<lambda>prefix. starts_with prefix canonical) ALLOWED_PREFIXES
               then Err (''Path '' @ [CHR 0x27] @ path @ [CHR 0x27] @ '' (canonical: '' @ [CHR 0x27] @
                         canonical @ [CHR 0x27] @ '') is outside allowed directories'')
               else Ok canonical)"

subsection \<open>Reading, writing and listing files\<close>

definition reply :: "string \<Rightarrow> worker_payload \<Rightarrow> worker_message" where
  "reply command_id payload = \<lparr>wm_command_id = command_id, wm_payload = Some payload\<rparr>"

definition raw_os_error :: "io_error \<Rightarrow> 32 word" where
  "raw_os_error e = (case io_errno e of None \<Rightarrow> 0 | Some n \<Rightarrow> n)"

definition io_failure :: "string \<Rightarrow> io_error \<Rightarrow> string \<Rightarrow> worker_message" where
  "io_failure command_id e kind = reply command_id (ErrorResult (io_message e) kind (raw_os_error e))"

definition path_failure :: "string \<Rightarrow> string \<Rightarrow> worker_message" where
  "path_failure command_id e = reply command_id (ErrorResult e ''permission'' 0)"

definition chunk_size :: nat where
  "chunk_size = 4 * 1024 * 1024"

definition div_ceil :: "nat \<Rightarrow> nat \<Rightarrow> nat" where
  "div_ceil n m = n div m + (if n mod m = 0 then 0 else 1)"

fun read_loop ::
    "string \<Rightarrow> 64 word \<Rightarrow> 32 word \<Rightarrow> 64 word \<Rightarrow> 32 word \<Rightarrow> (io_error, bytes) result list \<Rightarrow>
     worker_message list" where
  "read_loop command_id file_size total_chunks offset chunk_index [] = []"
| "read_loop command_id file_size total_chunks offset chunk_index (Inr d # rest) =
     (if d = [] then []
      else
        let next_offset = offset + of_nat (length d);
            is_last = (sint file_size \<le> sint next_offset)
        in reply command_id (FileChunk d offset is_last chunk_index total_chunks)
           # read_loop command_id file_size total_chunks next_offset (chunk_index + 1) rest)"
| "read_loop command_id file_size total_chunks offset chunk_index (Inl e # rest) =
     [io_failure command_id e ''internal'']"

definition handle_read ::
    "('c, 'w) os \<Rightarrow> read_file_request \<Rightarrow> string \<Rightarrow> 'w \<Rightarrow> worker_message list" where
  "handle_read os req command_id w =
     (case validate_path os (rf_path req) w of
        Inl e \<Rightarrow> [path_failure command_id e]
      | Inr safe_path \<Rightarrow>
          (case os_metadata_len os safe_path w of
             Inl e \<Rightarrow> [io_failure command_id e ''not_found'']
           | Inr file_size \<Rightarrow>
               (let total_chunks = of_nat (div_ceil (unat file_size) chunk_size)
                in case os_open_read os safe_path w of
                     Inl e \<Rightarrow> [io_failure command_id e ''not_found'']
                   | Inr reads \<Rightarrow> read_loop command_id file_size total_chunks 0 0 reads)))"

definition apply_file_mode :: "('c, 'w) os \<Rightarrow> string \<Rightarrow> 32 word \<Rightarrow> 'w \<Rightarrow> 'w" where
  "apply_file_mode os path mode w = (if mode \<noteq> 0 then os_set_permissions os path mode w else w)"

text \<open>\<open>Path::parent\<close> on a canonical absolute path.\<close>

definition path_parent :: "string \<Rightarrow> string option" where
  "path_parent path =
     (let up = rev (drop 1 (dropWhile (\<lambda>c. c \<noteq> CHR ''/'') (rev path)))
      in if path = ''/'' then None else Some (if up = [] then ''/'' else up))"

type_synonym pending_writes = "(string \<times> bytes) list"

definition write_whole ::
    "('c, 'w) os \<Rightarrow> string \<Rightarrow> string \<Rightarrow> 32 word \<Rightarrow> bytes \<Rightarrow> 'w \<Rightarrow> worker_message list \<times> 'w" where
  "write_whole os command_id safe_path mode content w =
     (case os_write os safe_path content w of
        (Inr _, w1) \<Rightarrow>
          ([reply command_id (CommandAck Received)], apply_file_mode os safe_path mode w1)
      | (Inl e, w1) \<Rightarrow> ([io_failure command_id e ''permission''], w1))"

definition write_streaming ::
    "('c, 'w) os \<Rightarrow> string \<Rightarrow> string \<Rightarrow> 32 word \<Rightarrow> bytes \<Rightarrow> 'w \<Rightarrow> worker_message list \<times> 'w" where
  "write_streaming os command_id safe_path mode content w =
     (case (case path_parent safe_path of
              None \<Rightarrow> (Inr (), w) | Some parent \<Rightarrow> os_create_dir_all os parent w) of
        (Inl _, w1) \<Rightarrow>
          ([reply command_id
              (ErrorResult ''Failed to create parent directory'' ''permission'' 0)], w1)
      | (Inr _, w1) \<Rightarrow>
          (case os_open_append os safe_path w1 of
             (Inl e, w2) \<Rightarrow> ([io_failure command_id e ''permission''], w2)
           | (Inr _, w2) \<Rightarrow>
               (case os_append os safe_path content w2 of
                  (Inl e, w3) \<Rightarrow> ([io_failure command_id e ''internal''], w3)
                | (Inr _, w3) \<Rightarrow>
                    ([reply command_id (CommandAck Received)],
                     apply_file_mode os safe_path mode w3))))"

definition handle_write ::
    "('c, 'w) os \<Rightarrow> write_file_request \<Rightarrow> string \<Rightarrow> pending_writes \<Rightarrow> 'w \<Rightarrow>
     worker_message list \<times> pending_writes \<times> 'w" where
  "handle_write os req command_id pending w =
     (case validate_path os (wf_path req) w of
        Inl e \<Rightarrow> ([path_failure command_id e], pending, w)
      | Inr safe_path \<Rightarrow>
          if wf_total_chunks req = 1 then
            (case write_whole os command_id safe_path (wf_mode req) (wf_content req) w of
               (ms, w1) \<Rightarrow> (ms, pending, w1))
          else if 1 < sint (wf_total_chunks req) then
            (let sofar = (case map_of pending command_id of None \<Rightarrow> [] | Some d \<Rightarrow> d);
                 all_data = sofar @ wf_content req
             in if wf_chunk_index req + 1 = wf_total_chunks req then
                  (case write_whole os command_id safe_path (wf_mode req) all_data w of
                     (ms, w1) \<Rightarrow> (ms, AList.delete command_id pending, w1))
                else
                  ([reply command_id (CommandAck Received)],
                   AList.update command_id all_data pending, w))
          else
            (case write_streaming os command_id safe_path (wf_mode req) (wf_content req) w of
               (ms, w1) \<Rightarrow> (ms, pending, w1)))"

fun octal_string :: "nat \<Rightarrow> string" where
  "octal_string n =
     (if n < 8 then [digit_char n] else octal_string (n div 8) @ [digit_char (n mod 8)])"

declare octal_string.simps [simp del]

definition entry_of :: "dir_entry \<Rightarrow> wire_file_entry" where
  "entry_of d =
     \<lparr>we_path = de_file_name d, we_is_directory = de_is_dir d, we_size_bytes = de_len d,
      we_permissions = octal_string (unat (and (de_mode d) 511)),
      we_modified_epoch_ms = (case de_modified_ms d of None \<Rightarrow> 0 | Some ms \<Rightarrow> of_nat ms),
      we_file_type = (if de_is_dir d then ''dir'' else ''file'')\<rparr>"

fun list_entries ::
    "(io_error, dir_entry) result list \<Rightarrow> (string, wire_file_entry list) result" where
  "list_entries [] = Ok []"
| "list_entries (Inl e # rest) = Err (io_message e)"
| "list_entries (Inr d # rest) = try_bind (list_entries rest) (\<lambda>es. Ok (entry_of d # es))"

definition list_directory ::
    "('c, 'w) os \<Rightarrow> string \<Rightarrow> 'w \<Rightarrow> (string, wire_file_entry list) result" where
  "list_directory os dir w =
     (case os_read_dir os dir w of
        Inl e \<Rightarrow> Err (''Cannot read dir: '' @ io_message e)
      | Inr entries \<Rightarrow> list_entries entries)"

definition handle_list ::
    "('c, 'w) os \<Rightarrow> list_files_request \<Rightarrow> string \<Rightarrow> 'w \<Rightarrow> worker_message list" where
  "handle_list os req command_id w =
     (case validate_path os (lf_directory req) w of
        Inl e \<Rightarrow> [path_failure command_id e]
      | Inr safe_dir \<Rightarrow>
          (case list_directory os safe_dir w of
             Inl e \<Rightarrow> [reply command_id (ErrorResult e ''not_found'' 0)]
           | Inr entries \<Rightarrow> [reply command_id (FileList entries)]))"

subsection \<open>Running and cancelling commands\<close>

text \<open>
  The process-wide state: the counter of active commands, the accumulated multi-chunk writes, the map of
  running processes from command identifiers to shared cells, and those cells: a cell holds the child
  process until somebody takes it.
\<close>

record ('c, 'w) worker =
  wk_active :: "32 word"
  wk_pending_writes :: pending_writes
  wk_running :: "(string \<times> nat) list"
  wk_cells :: "'c option list"
  wk_world :: 'w

definition MAX_CONCURRENT_COMMANDS :: nat where
  "MAX_CONCURRENT_COMMANDS = 4"

text \<open>
  \<open>execute_command\<close> in the three parts between which other tasks can run: spawn the
  shell and publish it, take it back and unpublish it, wait for its output.
\<close>

definition exec_spawn ::
    "('c, 'w) os \<Rightarrow> run_command_request \<Rightarrow> string \<Rightarrow> ('c, 'w) worker \<Rightarrow>
     (string, nat) result \<times> ('c, 'w) worker" where
  "exec_spawn os req command_id wk =
     (case os_spawn os (rc_command req)
             (if rc_working_dir req \<noteq> [] then Some (rc_working_dir req) else None)
             (rc_env req) (wk_world wk) of
        (Inl e, w) \<Rightarrow> (Err (''Failed to spawn: '' @ io_message e), wk\<lparr>wk_world := w\<rparr>)
      | (Inr child, w) \<Rightarrow>
          (Ok (length (wk_cells wk)),
           wk\<lparr>wk_world := w, wk_cells := wk_cells wk @ [Some child],
              wk_running := AList.update command_id (length (wk_cells wk)) (wk_running wk)\<rparr>))"

definition exec_take ::
    "nat \<Rightarrow> string \<Rightarrow> ('c, 'w) worker \<Rightarrow> (string, 'c) result \<times> ('c, 'w) worker" where
  "exec_take a command_id wk =
     (case wk_cells wk ! a of
        None \<Rightarrow> (Err ''Process state corrupted'', wk)
      | Some child \<Rightarrow>
          (Ok child,
           wk\<lparr>wk_cells := (wk_cells wk)[a := None],
              wk_running := AList.delete command_id (wk_running wk)\<rparr>))"

definition exec_wait ::
    "('c, 'w) os \<Rightarrow> 'c \<Rightarrow> ('c, 'w) worker \<Rightarrow>
     (string, bytes \<times> bytes \<times> 32 word) result \<times> ('c, 'w) worker" where
  "exec_wait os child wk =
     (case os_wait os child (wk_world wk) of
        (Inl e, w) \<Rightarrow> (Err (''Failed to execute: '' @ io_message e), wk\<lparr>wk_world := w\<rparr>)
      | (Inr (out, err, code), w) \<Rightarrow>
          (Ok (out, err, case code of None \<Rightarrow> -1 | Some n \<Rightarrow> n), wk\<lparr>wk_world := w\<rparr>))"

definition execute_command ::
    "('c, 'w) os \<Rightarrow> run_command_request \<Rightarrow> string \<Rightarrow> ('c, 'w) worker \<Rightarrow>
     (string, bytes \<times> bytes \<times> 32 word) result \<times> ('c, 'w) worker" where
  "execute_command os req command_id =
     and_then (exec_spawn os req command_id)
       (\<lambda>a. and_then (exec_take a command_id) (exec_wait os))"

definition run_replies ::
    "string \<Rightarrow> 64 word \<Rightarrow> (string, bytes \<times> bytes \<times> 32 word) result \<Rightarrow> worker_message list" where
  "run_replies command_id duration_ms output =
     (case output of
        Inr (stdout, stderr, exit_code) \<Rightarrow>
          (if stdout \<noteq> [] then [reply command_id (StdoutData stdout 0)] else [])
          @ (if stderr \<noteq> [] then [reply command_id (StderrData stderr 0)] else [])
          @ [reply command_id (ExitResult exit_code duration_ms False [])]
      | Inl e \<Rightarrow> [reply command_id (ErrorResult e ''internal'' 0)])"

text \<open>The task of a run command once it has its permit.\<close>

definition handle_run ::
    "('c, 'w) os \<Rightarrow> 64 word \<Rightarrow> run_command_request \<Rightarrow> string \<Rightarrow> ('c, 'w) worker \<Rightarrow>
     worker_message list \<times> ('c, 'w) worker" where
  "handle_run os duration_ms req command_id wk =
     (case execute_command os req command_id (wk\<lparr>wk_active := wk_active wk + 1\<rparr>) of
        (output, wk1) \<Rightarrow>
          (reply command_id (CommandAck Executing) # run_replies command_id duration_ms output,
           wk1\<lparr>wk_active := wk_active wk1 - 1\<rparr>))"

definition cancel_running_process ::
    "('c, 'w) os \<Rightarrow> string \<Rightarrow> ('c, 'w) worker \<Rightarrow> worker_payload \<times> ('c, 'w) worker" where
  "cancel_running_process os target wk =
     (case map_of (wk_running wk) target of
        None \<Rightarrow> (CancelAck False ''Process not found'', wk)
      | Some a \<Rightarrow>
          (let wk1 = wk\<lparr>wk_running := AList.delete target (wk_running wk)\<rparr>
           in case wk_cells wk1 ! a of
                None \<Rightarrow> (CancelAck False ''Process not found'', wk1)
              | Some child \<Rightarrow>
                  (case os_kill os child (wk_world wk1) of
                     (Inr _, w) \<Rightarrow>
                       (CancelAck True [],
                        wk1\<lparr>wk_cells := (wk_cells wk1)[a := None],
                            wk_world := snd (os_wait os child w)\<rparr>)
                   | (Inl e, w) \<Rightarrow>
                       (CancelAck False (''kill failed: '' @ io_message e),
                        wk1\<lparr>wk_cells := (wk_cells wk1)[a := None], wk_world := w\<rparr>))))"

subsection \<open>The command loop and its tasks\<close>

text \<open>
  A task is spawned for every run, read, write and list command; it waits for one of
  the four permits. The phases of a run task are the points at which other tasks can run: it has its permit, its
  child is published, it waits for its child. The other tasks do their work in one step.
\<close>

datatype 'c phase =
    WaitingPermit gateway_payload
  | Acquired run_command_request
  | Published nat
  | Awaiting 'c
  | Done

record 'c task =
  tk_command_id :: string
  tk_phase :: "'c phase"

datatype loop_state = Looping | Returned exit_reason | ProcessExit

record ('c, 'w) session =
  ss_worker :: "('c, 'w) worker"
  ss_permits :: nat
  ss_tasks :: "'c task list"
  ss_out :: "worker_message list"
  ss_loop :: loop_state

definition session_new :: "('c, 'w) worker \<Rightarrow> ('c, 'w) session" where
  "session_new wk =
     \<lparr>ss_worker = wk, ss_permits = MAX_CONCURRENT_COMMANDS, ss_tasks = [], ss_out = [],
      ss_loop = Looping\<rparr>"

definition send_out :: "worker_message list \<Rightarrow> ('c, 'w) session \<Rightarrow> ('c, 'w) session" where
  "send_out ms s = s\<lparr>ss_out := ss_out s @ ms\<rparr>"

definition spawn_task ::
    "string \<Rightarrow> gateway_payload \<Rightarrow> ('c, 'w) session \<Rightarrow> ('c, 'w) session" where
  "spawn_task command_id payload s =
     s\<lparr>ss_tasks := ss_tasks s @ [\<lparr>tk_command_id = command_id, tk_phase = WaitingPermit payload\<rparr>]\<rparr>"

definition shutdown_reply :: "('c, 'w) session \<Rightarrow> string \<Rightarrow> bool \<Rightarrow> worker_message" where
  "shutdown_reply s command_id will_drain =
     reply command_id (ShutdownAck (wk_active (ss_worker s)) will_drain)"

text \<open>
  One round of \<open>run_command_loop\<close>. \<open>health\<close> is what the files under \<open>/proc\<close> say and \<open>millis\<close> the wall clock.
  The two pipeline commands have no branch: the schema the worker is built from does not have them, so
  they arrive as a command without payload.
\<close>

definition dispatch ::
    "('c, 'w) os \<Rightarrow> health_report \<Rightarrow> 64 word \<Rightarrow> gateway_command \<Rightarrow> ('c, 'w) session \<Rightarrow>
     ('c, 'w) session" where
  "dispatch os health millis cmd s =
     (let command_id = gc_command_id cmd
      in case gc_payload cmd of
           Some (Run req) \<Rightarrow> spawn_task command_id (Run req) s
         | Some (ReadFile req) \<Rightarrow> spawn_task command_id (ReadFile req) s
         | Some (WriteFile req) \<Rightarrow> spawn_task command_id (WriteFile req) s
         | Some (ListFiles req) \<Rightarrow> spawn_task command_id (ListFiles req) s
         | Some (Ping timestamp) \<Rightarrow>
             send_out [reply command_id (Pong timestamp millis
               (Some (health\<lparr>hr_active_commands := wk_active (ss_worker s)\<rparr>)))] s
         | Some (Shutdown level _ _) \<Rightarrow>
             (case level of
                Graceful \<Rightarrow>
                  (send_out [shutdown_reply s command_id True] s)\<lparr>ss_loop := Returned ShutdownExit\<rparr>
              | Draining \<Rightarrow>
                  (send_out [shutdown_reply s command_id True] s)\<lparr>ss_loop := Returned ShutdownExit\<rparr>
              | Forceful \<Rightarrow>
                  (send_out [shutdown_reply s command_id False] s)\<lparr>ss_loop := ProcessExit\<rparr>)
         | Some (Cancel target _) \<Rightarrow>
             (case cancel_running_process os target (ss_worker s) of
                (ack, wk) \<Rightarrow> send_out [reply command_id ack] (s\<lparr>ss_worker := wk\<rparr>))
         | Some (RunPipeline _) \<Rightarrow> s
         | Some (CancelPipeline _ _) \<Rightarrow> s
         | None \<Rightarrow> s)"

definition set_phase :: "nat \<Rightarrow> 'c phase \<Rightarrow> ('c, 'w) session \<Rightarrow> ('c, 'w) session" where
  "set_phase i p s = s\<lparr>ss_tasks := (ss_tasks s)[i := (ss_tasks s ! i)\<lparr>tk_phase := p\<rparr>]\<rparr>"

text \<open>The end of a run task: it leaves the count, replies, and gives its permit back.\<close>

definition finish_run ::
    "nat \<Rightarrow> 64 word \<Rightarrow> (string, bytes \<times> bytes \<times> 32 word) result \<Rightarrow> ('c, 'w) worker \<Rightarrow>
     ('c, 'w) session \<Rightarrow> ('c, 'w) session" where
  "finish_run i duration_ms output wk s =
     (send_out (run_replies (tk_command_id (ss_tasks s ! i)) duration_ms output) (set_phase i Done s))
       \<lparr>ss_worker := wk\<lparr>wk_active := wk_active wk - 1\<rparr>, ss_permits := ss_permits s + 1\<rparr>"

definition file_task ::
    "('c, 'w) os \<Rightarrow> gateway_payload \<Rightarrow> string \<Rightarrow> ('c, 'w) worker \<Rightarrow>
     worker_message list \<times> ('c, 'w) worker" where
  "file_task os payload command_id wk =
     (case payload of
        ReadFile req \<Rightarrow> (handle_read os req command_id (wk_world wk), wk)
      | ListFiles req \<Rightarrow> (handle_list os req command_id (wk_world wk), wk)
      | WriteFile req \<Rightarrow>
          (case handle_write os req command_id (wk_pending_writes wk) (wk_world wk) of
             (ms, pending, w) \<Rightarrow> (ms, wk\<lparr>wk_pending_writes := pending, wk_world := w\<rparr>))
      | _ \<Rightarrow> ([], wk))"

inductive session_step :: "('c, 'w) os \<Rightarrow> ('c, 'w) session \<Rightarrow> ('c, 'w) session \<Rightarrow> bool" for os where
  command: "ss_loop s = Looping \<Longrightarrow> session_step os s (dispatch os health millis cmd s)"
| stream_end: "ss_loop s = Looping \<Longrightarrow> session_step os s (s\<lparr>ss_loop := Returned StreamEnded\<rparr>)"
| acquire_run: "i < length (ss_tasks s) \<Longrightarrow> tk_phase (ss_tasks s ! i) = WaitingPermit (Run req) \<Longrightarrow>
     0 < ss_permits s \<Longrightarrow> wk = ss_worker s \<Longrightarrow>
     session_step os s
       ((send_out [reply (tk_command_id (ss_tasks s ! i)) (CommandAck Executing)]
           (set_phase i (Acquired req) s))
          \<lparr>ss_worker := wk\<lparr>wk_active := wk_active wk + 1\<rparr>, ss_permits := ss_permits s - 1\<rparr>)"
| file_op: "i < length (ss_tasks s) \<Longrightarrow> tk_phase (ss_tasks s ! i) = WaitingPermit payload \<Longrightarrow>
     \<not> (\<exists>req. payload = Run req) \<Longrightarrow> 0 < ss_permits s \<Longrightarrow>
     file_task os payload (tk_command_id (ss_tasks s ! i)) (ss_worker s) = (ms, wk') \<Longrightarrow>
     session_step os s ((send_out ms (set_phase i Done s))\<lparr>ss_worker := wk'\<rparr>)"
| spawned: "i < length (ss_tasks s) \<Longrightarrow> tk_phase (ss_tasks s ! i) = Acquired req \<Longrightarrow>
     exec_spawn os req (tk_command_id (ss_tasks s ! i)) (ss_worker s) = (Inr a, wk') \<Longrightarrow>
     session_step os s ((set_phase i (Published a) s)\<lparr>ss_worker := wk'\<rparr>)"
| spawn_failed: "i < length (ss_tasks s) \<Longrightarrow> tk_phase (ss_tasks s ! i) = Acquired req \<Longrightarrow>
     exec_spawn os req (tk_command_id (ss_tasks s ! i)) (ss_worker s) = (Inl e, wk') \<Longrightarrow>
     session_step os s (finish_run i d (Inl e) wk' s)"
| taken: "i < length (ss_tasks s) \<Longrightarrow> tk_phase (ss_tasks s ! i) = Published a \<Longrightarrow>
     exec_take a (tk_command_id (ss_tasks s ! i)) (ss_worker s) = (Inr c, wk') \<Longrightarrow>
     session_step os s ((set_phase i (Awaiting c) s)\<lparr>ss_worker := wk'\<rparr>)"
| take_failed: "i < length (ss_tasks s) \<Longrightarrow> tk_phase (ss_tasks s ! i) = Published a \<Longrightarrow>
     exec_take a (tk_command_id (ss_tasks s ! i)) (ss_worker s) = (Inl e, wk') \<Longrightarrow>
     session_step os s (finish_run i d (Inl e) wk' s)"
| waited: "i < length (ss_tasks s) \<Longrightarrow> tk_phase (ss_tasks s ! i) = Awaiting c \<Longrightarrow>
     exec_wait os c (ss_worker s) = (output, wk') \<Longrightarrow>
     session_step os s (finish_run i d output wk' s)"

inductive session_reachable :: "('c, 'w) os \<Rightarrow> ('c, 'w) session \<Rightarrow> bool" for os where
  start: "wk_active wk = 0 \<Longrightarrow> wk_running wk = [] \<Longrightarrow> session_reachable os (session_new wk)"
| step: "session_reachable os s \<Longrightarrow> session_step os s s' \<Longrightarrow> session_reachable os s'"

subsection \<open>What the tasks keep\<close>

definition executing :: "'c task \<Rightarrow> bool" where
  "executing t =
     (case tk_phase t of
        Acquired _ \<Rightarrow> True | Published _ \<Rightarrow> True | Awaiting _ \<Rightarrow> True | _ \<Rightarrow> False)"

definition phase_at :: "('c, 'w) session \<Rightarrow> nat \<Rightarrow> 'c phase \<Rightarrow> bool" where
  "phase_at s i p \<longleftrightarrow> i < length (ss_tasks s) \<and> tk_phase (ss_tasks s ! i) = p"

definition counts_inv :: "('c, 'w) session \<Rightarrow> bool" where
  "counts_inv s \<longleftrightarrow>
     ss_permits s + length (filter executing (ss_tasks s)) = MAX_CONCURRENT_COMMANDS
     \<and> wk_active (ss_worker s) = of_nat (length (filter executing (ss_tasks s)))"

text \<open>
  A published command is the only one at its address, and every entry of the map of running processes is
  a published command whose child is still in its cell.
\<close>

definition addresses_inv :: "('c, 'w) session \<Rightarrow> bool" where
  "addresses_inv s \<longleftrightarrow>
     (\<forall>i j a. phase_at s i (Published a) \<longrightarrow> phase_at s j (Published a) \<longrightarrow>
        i = j \<and> a < length (wk_cells (ss_worker s)))"

definition running_inv :: "('c, 'w) session \<Rightarrow> bool" where
  "running_inv s \<longleftrightarrow>
     (\<forall>cid a. map_of (wk_running (ss_worker s)) cid = Some a \<longrightarrow>
        wk_cells (ss_worker s) ! a \<noteq> None
        \<and> (\<exists>i. phase_at s i (Published a) \<and> tk_command_id (ss_tasks s ! i) = cid))"

lemma filter_list_update:
  "i < length xs \<Longrightarrow>
   length (filter P (xs[i := y])) + (if P (xs ! i) then 1 else 0) =
   length (filter P xs) + (if P y then 1 else 0)"
proof (induction xs arbitrary: i)
  case (Cons x xs)
  then show ?case by (cases i) auto
qed simp

lemmas session_defs = send_out_def spawn_task_def set_phase_def finish_run_def

lemma executing_phase [simp]:
  "executing (t\<lparr>tk_phase := Done\<rparr>) = False"
  "executing (t\<lparr>tk_phase := Acquired req\<rparr>) = True"
  "executing (t\<lparr>tk_phase := Published a\<rparr>) = True"
  "executing (t\<lparr>tk_phase := Awaiting c\<rparr>) = True"
  "executing \<lparr>tk_command_id = cid, tk_phase = WaitingPermit p\<rparr> = False"
  "tk_phase t = WaitingPermit p \<Longrightarrow> executing t = False"
  "tk_phase t = Acquired req \<Longrightarrow> executing t = True"
  "tk_phase t = Published a \<Longrightarrow> executing t = True"
  "tk_phase t = Awaiting c \<Longrightarrow> executing t = True"
  by (simp_all add: executing_def)

lemma exec_spawn_shape:
  "exec_spawn os req cid wk = (Inr b, wk') \<Longrightarrow>
     \<exists>w c. b = length (wk_cells wk)
       \<and> wk' = wk\<lparr>wk_world := w, wk_cells := wk_cells wk @ [Some c],
                  wk_running := AList.update cid b (wk_running wk)\<rparr>"
  "exec_spawn os req cid wk = (Inl e, wk') \<Longrightarrow> \<exists>w. wk' = wk\<lparr>wk_world := w\<rparr>"
  unfolding exec_spawn_def
  by (cases "os_spawn os (rc_command req)
        (if rc_working_dir req \<noteq> [] then Some (rc_working_dir req) else None) (rc_env req) (wk_world wk)",
      auto split: sum.splits)+

lemma exec_take_shape:
  "exec_take a cid wk = (Inr c, wk') \<Longrightarrow>
     wk_cells wk ! a = Some c
     \<and> wk' = wk\<lparr>wk_cells := (wk_cells wk)[a := None], wk_running := AList.delete cid (wk_running wk)\<rparr>"
  "exec_take a cid wk = (Inl e, wk') \<Longrightarrow> wk_cells wk ! a = None \<and> wk' = wk"
  by (auto simp: exec_take_def split: option.splits)

lemma exec_wait_shape: "exec_wait os c wk = (x, wk') \<Longrightarrow> \<exists>w. wk' = wk\<lparr>wk_world := w\<rparr>"
  unfolding exec_wait_def by (cases "os_wait os c (wk_world wk)") (auto split: sum.splits prod.splits)

lemma exec_active:
  "exec_spawn os req cid wk = (x, wk') \<Longrightarrow> wk_active wk' = wk_active wk"
  "exec_take a cid wk = (y, wk') \<Longrightarrow> wk_active wk' = wk_active wk"
  "exec_wait os c wk = (z, wk') \<Longrightarrow> wk_active wk' = wk_active wk"
proof -
  show "exec_spawn os req cid wk = (x, wk') \<Longrightarrow> wk_active wk' = wk_active wk"
    by (cases x) (auto dest: exec_spawn_shape)
  show "exec_take a cid wk = (y, wk') \<Longrightarrow> wk_active wk' = wk_active wk"
    by (cases y) (auto dest: exec_take_shape)
  show "exec_wait os c wk = (z, wk') \<Longrightarrow> wk_active wk' = wk_active wk"
    by (auto dest: exec_wait_shape)
qed

lemma cancel_active [simp]: "wk_active (snd (cancel_running_process os target wk)) = wk_active wk"
  by (auto simp: cancel_running_process_def Let_def split: option.splits prod.splits sum.splits)

lemma file_task_keeps:
  "file_task os payload cid wk = (ms, wk') \<Longrightarrow>
   wk_active wk' = wk_active wk \<and> wk_running wk' = wk_running wk \<and> wk_cells wk' = wk_cells wk"
  by (auto simp: file_task_def split: gateway_payload.splits prod.splits)

lemma counts_set_phase:
  assumes "counts_inv s" "i < length (ss_tasks s)"
  shows "length (filter executing (ss_tasks (set_phase i p s))) + (if executing (ss_tasks s ! i) then 1 else 0) =
         length (filter executing (ss_tasks s)) + (if executing ((ss_tasks s ! i)\<lparr>tk_phase := p\<rparr>) then 1 else 0)"
  using filter_list_update [OF assms(2)] by (simp add: set_phase_def)

lemma finish_run_counts:
  assumes "counts_inv s" "i < length (ss_tasks s)" "executing (ss_tasks s ! i)"
    "wk_active wk = wk_active (ss_worker s)"
  shows "counts_inv (finish_run i d output wk s)"
proof -
  let ?n = "length (filter executing (ss_tasks (set_phase i Done s)))"
  have "length (filter executing (ss_tasks s)) = Suc ?n"
    using counts_set_phase [OF assms(1,2), of Done] assms(3) by simp
  then show ?thesis
    using assms by (simp add: counts_inv_def finish_run_def send_out_def set_phase_def)
qed

lemma dispatch_counts: "counts_inv s \<Longrightarrow> counts_inv (dispatch os health millis cmd s)"
  by (auto simp: counts_inv_def dispatch_def session_defs Let_def split_beta
           split: option.splits gateway_payload.splits grace_level.splits)

lemma counts_step: "session_step os s s' \<Longrightarrow> counts_inv s \<Longrightarrow> counts_inv s'"
proof (induction rule: session_step.induct)
  case (command s health millis cmd)
  then show ?case by (simp add: dispatch_counts)
next
  case (acquire_run i s req wk)
  then show ?case
    using counts_set_phase [OF acquire_run.prems acquire_run.hyps(1), of "Acquired req"]
    by (simp add: counts_inv_def send_out_def set_phase_def)
next
  case (file_op i s payload ms wk')
  then show ?case
    using counts_set_phase [OF file_op.prems file_op.hyps(1), of Done] file_task_keeps [OF file_op.hyps(5)]
    by (simp add: counts_inv_def send_out_def set_phase_def)
next
  case (spawned i s req a wk')
  then show ?case
    using counts_set_phase [OF spawned.prems spawned.hyps(1), of "Published a"]
    by (simp add: counts_inv_def set_phase_def exec_active)
next
  case (spawn_failed i s req e wk' d)
  then show ?case by (simp add: finish_run_counts exec_active)
next
  case (taken i s a c wk')
  then show ?case
    using counts_set_phase [OF taken.prems taken.hyps(1), of "Awaiting c"]
    by (simp add: counts_inv_def set_phase_def exec_active)
next
  case (take_failed i s a e wk' d)
  then show ?case by (simp add: finish_run_counts exec_active)
next
  case (waited i s c x wk' d)
  then show ?case by (simp add: finish_run_counts exec_active)
qed (simp add: counts_inv_def)

lemma phase_set_phase [simp]:
  "phase_at (set_phase i p s) j q \<longleftrightarrow>
     (if j = i then i < length (ss_tasks s) \<and> q = p else phase_at s j q)"
  by (auto simp: phase_at_def set_phase_def)

lemma phase_at_updates [simp]:
  "phase_at (s\<lparr>ss_worker := wk\<rparr>) j q = phase_at s j q"
  "phase_at (s\<lparr>ss_permits := n\<rparr>) j q = phase_at s j q"
  "phase_at (s\<lparr>ss_loop := l\<rparr>) j q = phase_at s j q"
  "phase_at (send_out ms s) j q = phase_at s j q"
  by (simp_all add: phase_at_def send_out_def)

lemma phase_spawn_task [simp]:
  "phase_at (spawn_task cid payload s) j (Published a) = phase_at s j (Published a)"
  by (auto simp: phase_at_def spawn_task_def nth_append)

lemma phase_finish_run [simp]:
  "phase_at (finish_run i d output wk s) j (Published a) \<longleftrightarrow> j \<noteq> i \<and> phase_at s j (Published a)"
  by (simp add: finish_run_def)

lemma task_id_keeps [simp]:
  "tk_command_id (ss_tasks (set_phase i p s) ! j) = tk_command_id (ss_tasks s ! j)"
  "tk_command_id (ss_tasks (send_out ms s) ! j) = tk_command_id (ss_tasks s ! j)"
  "tk_command_id (ss_tasks (finish_run i d output wk s) ! j) = tk_command_id (ss_tasks s ! j)"
  "phase_at s j q \<Longrightarrow>
     tk_command_id (ss_tasks (spawn_task cid payload s) ! j) = tk_command_id (ss_tasks s ! j)"
  by (auto simp: set_phase_def send_out_def finish_run_def spawn_task_def phase_at_def nth_append
        nth_list_update split: if_splits)
     (metis list_update_beyond not_less nth_list_update_eq nth_list_update_neq task.ext_inject
        task.surjective task.update_convs(2))+

lemma worker_of_session [simp]:
  "ss_worker (set_phase i p s) = ss_worker s"
  "ss_worker (send_out ms s) = ss_worker s"
  "ss_worker (spawn_task cid payload s) = ss_worker s"
  "ss_worker (finish_run i d output wk s) = wk\<lparr>wk_active := wk_active wk - 1\<rparr>"
  by (simp_all add: set_phase_def send_out_def spawn_task_def finish_run_def)

lemma running_invD:
  "running_inv s \<Longrightarrow> map_of (wk_running (ss_worker s)) cid = Some a \<Longrightarrow>
   wk_cells (ss_worker s) ! a \<noteq> None
   \<and> (\<exists>i. phase_at s i (Published a) \<and> tk_command_id (ss_tasks s ! i) = cid)"
  by (simp add: running_inv_def)

lemma addresses_invD:
  "addresses_inv s \<Longrightarrow> phase_at s i (Published a) \<Longrightarrow> a < length (wk_cells (ss_worker s))"
  "addresses_inv s \<Longrightarrow> phase_at s i (Published a) \<Longrightarrow> phase_at s j (Published a) \<Longrightarrow> i = j"
  by (auto simp: addresses_inv_def)

lemma inv_same_worker:
  assumes "addresses_inv s \<and> running_inv s"
    "wk_running (ss_worker s') = wk_running (ss_worker s)"
    "wk_cells (ss_worker s') = wk_cells (ss_worker s)"
    "\<And>j a. phase_at s' j (Published a) = phase_at s j (Published a)"
    "\<And>j a. phase_at s j (Published a) \<Longrightarrow>
       tk_command_id (ss_tasks s' ! j) = tk_command_id (ss_tasks s ! j)"
  shows "addresses_inv s' \<and> running_inv s'"
proof
  show "addresses_inv s'" using assms(1,3,4) by (simp add: addresses_inv_def)
  show "running_inv s'"
    using assms unfolding running_inv_def by metis
qed

lemma cancel_shape:
  assumes "cancel_running_process os target wk = (ack, wk')"
  shows "length (wk_cells wk') = length (wk_cells wk)
    \<and> wk_running wk' = AList.delete target (wk_running wk)
    \<and> (\<forall>a. wk_cells wk' ! a \<noteq> wk_cells wk ! a \<longrightarrow> map_of (wk_running wk) target = Some a)"
proof -
  have "map_of (wk_running wk) target = None \<Longrightarrow> AList.delete target (wk_running wk) = wk_running wk"
    by (simp add: AList.delete_eq map_of_eq_None_iff filter_id_conv) force
  then show ?thesis
    using assms
    by (auto simp: cancel_running_process_def Let_def nth_list_update
             split: option.splits prod.splits sum.splits if_splits)
       (metis nth_list_update_neq)+
qed

lemma cancel_inv:
  assumes inv: "addresses_inv s \<and> running_inv s"
    and c: "cancel_running_process os target (ss_worker s) = (ack, wk')"
  shows "addresses_inv (s\<lparr>ss_worker := wk'\<rparr>) \<and> running_inv (s\<lparr>ss_worker := wk'\<rparr>)"
proof
  note shape = cancel_shape [OF c]
  show "addresses_inv (s\<lparr>ss_worker := wk'\<rparr>)"
    using inv shape by (simp add: addresses_inv_def)
  show "running_inv (s\<lparr>ss_worker := wk'\<rparr>)"
    unfolding running_inv_def
  proof (intro allI impI)
    fix cid a
    assume "map_of (wk_running (ss_worker (s\<lparr>ss_worker := wk'\<rparr>))) cid = Some a"
    then have cid: "cid \<noteq> target" "map_of (wk_running (ss_worker s)) cid = Some a"
      using shape by (auto simp: delete_conv' split: if_splits)
    then obtain i where i: "wk_cells (ss_worker s) ! a \<noteq> None" "phase_at s i (Published a)"
        "tk_command_id (ss_tasks s ! i) = cid"
      using running_invD inv by blast
    have "map_of (wk_running (ss_worker s)) target \<noteq> Some a"
      using running_invD [of s target a] addresses_invD(2) [of s i a] inv i cid(1) by blast
    then have "wk_cells wk' ! a = wk_cells (ss_worker s) ! a" using shape by blast
    then show "wk_cells (ss_worker (s\<lparr>ss_worker := wk'\<rparr>)) ! a \<noteq> None
        \<and> (\<exists>i. phase_at (s\<lparr>ss_worker := wk'\<rparr>) i (Published a)
             \<and> tk_command_id (ss_tasks (s\<lparr>ss_worker := wk'\<rparr>) ! i) = cid)"
      using i by auto
  qed
qed

lemma dispatch_inv:
  assumes inv: "addresses_inv s \<and> running_inv s"
  shows "addresses_inv (dispatch os health millis cmd s) \<and> running_inv (dispatch os health millis cmd s)"
proof -
  have spawn: "addresses_inv (spawn_task cid p s) \<and> running_inv (spawn_task cid p s)" for cid p
    by (rule inv_same_worker [OF inv]) auto
  have out: "addresses_inv (send_out ms u) \<and> running_inv (send_out ms u)"
    if "addresses_inv u \<and> running_inv u" for ms and u :: "('a, 'b) session"
    by (rule inv_same_worker [OF that]) auto
  have ended: "addresses_inv (u\<lparr>ss_loop := l\<rparr>) \<and> running_inv (u\<lparr>ss_loop := l\<rparr>)"
    if "addresses_inv u \<and> running_inv u" for l and u :: "('a, 'b) session"
    by (rule inv_same_worker [OF that]) auto
  show ?thesis
    using inv spawn out [OF inv] ended [OF out [OF inv]] out [OF cancel_inv [OF inv]]
    by (auto simp: dispatch_def Let_def split: option.splits gateway_payload.splits grace_level.splits
             prod.splits)
qed

lemma spawned_inv:
  assumes inv: "addresses_inv s \<and> running_inv s" and i: "i < length (ss_tasks s)"
    and acq: "tk_phase (ss_tasks s ! i) = Acquired req"
    and sp: "exec_spawn os req (tk_command_id (ss_tasks s ! i)) (ss_worker s) = (Inr b, wk')"
  shows "addresses_inv ((set_phase i (Published b) s)\<lparr>ss_worker := wk'\<rparr>)
       \<and> running_inv ((set_phase i (Published b) s)\<lparr>ss_worker := wk'\<rparr>)"
proof
  let ?wk = "ss_worker s" and ?cid = "tk_command_id (ss_tasks s ! i)"
  have b: "b = length (wk_cells ?wk)" and run: "wk_running wk' = AList.update ?cid b (wk_running ?wk)"
    and cells: "\<exists>c. wk_cells wk' = wk_cells ?wk @ [Some c]"
    using exec_spawn_shape(1) [OF sp] by auto
  have old: "\<not> phase_at s j (Published b)" for j
    using addresses_invD(1) [of s j b] inv b by auto
  have noti: "\<not> phase_at s i (Published a)" for a
    using acq by (simp add: phase_at_def)
  show "addresses_inv ((set_phase i (Published b) s)\<lparr>ss_worker := wk'\<rparr>)"
    using inv old cells b by (auto simp: addresses_inv_def less_Suc_eq)
  show "running_inv ((set_phase i (Published b) s)\<lparr>ss_worker := wk'\<rparr>)"
    unfolding running_inv_def
  proof (intro allI impI)
    fix cid a
    assume run_a: "map_of (wk_running (ss_worker ((set_phase i (Published b) s)\<lparr>ss_worker := wk'\<rparr>))) cid
        = Some a"
    show "wk_cells (ss_worker ((set_phase i (Published b) s)\<lparr>ss_worker := wk'\<rparr>)) ! a \<noteq> None
        \<and> (\<exists>j. phase_at ((set_phase i (Published b) s)\<lparr>ss_worker := wk'\<rparr>) j (Published a)
             \<and> tk_command_id (ss_tasks ((set_phase i (Published b) s)\<lparr>ss_worker := wk'\<rparr>) ! j) = cid)"
    proof (cases "cid = ?cid")
      case True
      then show ?thesis using run_a run cells i b by (auto simp: update_conv')
    next
      case False
      then have "map_of (wk_running ?wk) cid = Some a" using run_a run by (simp add: update_conv')
      then obtain j where "wk_cells ?wk ! a \<noteq> None" "phase_at s j (Published a)"
          "tk_command_id (ss_tasks s ! j) = cid" "a < length (wk_cells ?wk)"
        using running_invD addresses_invD(1) inv by blast
      moreover from this have "j \<noteq> i" using noti by blast
      ultimately show ?thesis using cells by (auto simp: nth_append)
    qed
  qed
qed

text \<open>A published command that stops being published without touching the cell of another.\<close>

lemma unpublish_inv:
  assumes inv: "addresses_inv s \<and> running_inv s"
    and here: "phase_at s i (Published a)"
    and same_ids: "\<And>j. tk_command_id (ss_tasks s' ! j) = tk_command_id (ss_tasks s ! j)"
    and phases: "\<And>j b. phase_at s' j (Published b) \<longleftrightarrow> j \<noteq> i \<and> phase_at s j (Published b)"
    and cells: "length (wk_cells (ss_worker s')) = length (wk_cells (ss_worker s))"
      "\<And>b. b \<noteq> a \<Longrightarrow> wk_cells (ss_worker s') ! b = wk_cells (ss_worker s) ! b"
    and run: "\<And>cid b. map_of (wk_running (ss_worker s')) cid = Some b \<Longrightarrow>
       map_of (wk_running (ss_worker s)) cid = Some b \<and> b \<noteq> a"
  shows "addresses_inv s' \<and> running_inv s'"
proof
  show "addresses_inv s'" using inv phases cells(1) by (auto simp: addresses_inv_def)
  show "running_inv s'"
    unfolding running_inv_def
  proof (intro allI impI)
    fix cid b
    assume "map_of (wk_running (ss_worker s')) cid = Some b"
    then have b: "map_of (wk_running (ss_worker s)) cid = Some b" "b \<noteq> a" using run by auto
    then obtain j where j: "wk_cells (ss_worker s) ! b \<noteq> None" "phase_at s j (Published b)"
        "tk_command_id (ss_tasks s ! j) = cid"
      using running_invD inv by blast
    then have "j \<noteq> i" using here b(2) by (auto simp: phase_at_def)
    then show "wk_cells (ss_worker s') ! b \<noteq> None
        \<and> (\<exists>j. phase_at s' j (Published b) \<and> tk_command_id (ss_tasks s' ! j) = cid)"
      using j b(2) phases cells(2) same_ids by auto
  qed
qed

text \<open>Only the key of its own command leads to the cell of a published command.\<close>

lemma running_key:
  assumes "addresses_inv s \<and> running_inv s" "phase_at s i (Published a)"
    and "map_of (wk_running (ss_worker s)) cid = Some a"
  shows "cid = tk_command_id (ss_tasks s ! i)"
  using running_invD addresses_invD(2) assms by metis

lemma not_published:
  "tk_phase (ss_tasks s ! i) = WaitingPermit p \<Longrightarrow> \<not> phase_at s i (Published a)"
  "tk_phase (ss_tasks s ! i) = Acquired req \<Longrightarrow> \<not> phase_at s i (Published a)"
  "tk_phase (ss_tasks s ! i) = Awaiting c \<Longrightarrow> \<not> phase_at s i (Published a)"
  by (simp_all add: phase_at_def)

lemma inv_step:
  "session_step os s s' \<Longrightarrow> addresses_inv s \<and> running_inv s \<Longrightarrow> addresses_inv s' \<and> running_inv s'"
proof (induction rule: session_step.induct)
  case (command s health millis cmd)
  then show ?case by (simp add: dispatch_inv)
next
  case (stream_end s)
  then show ?case by (intro inv_same_worker [OF stream_end.prems]) auto
next
  case (acquire_run i s req wk)
  then show ?case
    by (intro inv_same_worker [OF acquire_run.prems]) (auto simp: not_published)
next
  case (file_op i s payload ms wk')
  then show ?case
    using file_task_keeps [OF file_op.hyps(5)]
    by (intro inv_same_worker [OF file_op.prems]) (auto simp: not_published)
next
  case (spawned i s req a wk')
  then show ?case by (simp add: spawned_inv)
next
  case (spawn_failed i s req e wk' d)
  then show ?case
    using exec_spawn_shape(2) [OF spawn_failed.hyps(3)]
    by (intro inv_same_worker [OF spawn_failed.prems]) (auto simp: not_published)
next
  case (taken i s a c wk')
  have here: "phase_at s i (Published a)" using taken.hyps by (simp add: phase_at_def)
  show ?case
  proof (rule unpublish_inv [OF taken.prems here])
    fix cid b
    assume "map_of (wk_running (ss_worker ((set_phase i (Awaiting c) s)\<lparr>ss_worker := wk'\<rparr>))) cid = Some b"
    then show "map_of (wk_running (ss_worker s)) cid = Some b \<and> b \<noteq> a"
      using exec_take_shape(1) [OF taken.hyps(3)] running_key [OF taken.prems here, of cid]
      by (auto simp: delete_conv' split: if_splits)
  qed (use exec_take_shape(1) [OF taken.hyps(3)] in auto)
next
  case (take_failed i s a e wk' d)
  have here: "phase_at s i (Published a)" using take_failed.hyps by (simp add: phase_at_def)
  have same: "wk' = ss_worker s" "wk_cells (ss_worker s) ! a = None"
    using exec_take_shape(2) [OF take_failed.hyps(3)] by auto
  show ?case
  proof (rule unpublish_inv [OF take_failed.prems here])
    fix cid b
    assume "map_of (wk_running (ss_worker (finish_run i d (Inl e) wk' s))) cid = Some b"
    then show "map_of (wk_running (ss_worker s)) cid = Some b \<and> b \<noteq> a"
      using running_invD [of s cid b] take_failed.prems same by auto
  qed (use same in auto)
next
  case (waited i s c x wk' d)
  then show ?case
    using exec_wait_shape [OF waited.hyps(3)]
    by (intro inv_same_worker [OF waited.prems]) (auto simp: not_published)
qed

lemma reachable_inv:
  "session_reachable os s \<Longrightarrow> counts_inv s \<and> addresses_inv s \<and> running_inv s"
proof (induction rule: session_reachable.induct)
  case (start wk)
  then show ?case
    by (simp add: session_new_def counts_inv_def addresses_inv_def running_inv_def phase_at_def)
next
  case (step s s')
  then show ?case using counts_step inv_step by blast
qed


text \<open>
  Cancelling. In every reachable state, a cancel request for a command that is not in the short window between
  publishing its child and taking it back (in particular for a command whose child is running and waited
  for) is answered with \<open>Process not found\<close>, and changes nothing: the child is not killed.
\<close>

theorem cancel_only_while_published:
  assumes "session_reachable os s"
    and "\<And>t a. t \<in> set (ss_tasks s) \<Longrightarrow> tk_command_id t = cid \<Longrightarrow> tk_phase t \<noteq> Published a"
  shows "cancel_running_process os cid (ss_worker s) =
           (CancelAck False ''Process not found'', ss_worker s)"
proof -
  have "map_of (wk_running (ss_worker s)) cid = None"
  proof (rule ccontr)
    assume "map_of (wk_running (ss_worker s)) cid \<noteq> None"
    then obtain a i where "phase_at s i (Published a)" "tk_command_id (ss_tasks s ! i) = cid"
      using reachable_inv [OF assms(1)] running_invD by blast
    then show False using assms(2) by (auto simp: phase_at_def)
  qed
  then show ?thesis by (simp add: cancel_running_process_def)
qed

subsection \<open>A small operating system\<close>

text \<open>
  An instance of the parameter for the witnesses: files are an association list from paths to
  contents, every path is canonical, a file is read in one piece, and a command prints itself.
\<close>

definition no_such_file :: io_error where
  "no_such_file = \<lparr>io_message = ''No such file or directory (os error 2)'', io_errno = Some 2\<rparr>"

definition mem_os :: "(string, (string \<times> bytes) list) os" where
  "mem_os =
     \<lparr>os_canonicalize = (\<lambda>p w. Ok p),
      os_metadata_len = (\<lambda>p w. case map_of w p of None \<Rightarrow> Err no_such_file
                                           | Some d \<Rightarrow> Ok (of_nat (length d))),
      os_open_read = (\<lambda>p w. case map_of w p of None \<Rightarrow> Err no_such_file
                                        | Some d \<Rightarrow> Ok [Ok d, Ok []]),
      os_write = (\<lambda>p d w. (Ok (), AList.update p d w)),
      os_create_dir_all = (\<lambda>p w. (Ok (), w)),
      os_open_append = (\<lambda>p w. (Ok (), w)),
      os_append = (\<lambda>p d w. (Ok (), AList.update p ((case map_of w p of None \<Rightarrow> [] | Some e \<Rightarrow> e) @ d) w)),
      os_set_permissions = (\<lambda>p m w. w),
      os_read_dir = (\<lambda>p w. Ok []),
      os_spawn = (\<lambda>c d e w. (Ok c, w)),
      os_wait = (\<lambda>c w. (Ok (as_bytes c, [], Some 0), w)),
      os_kill = (\<lambda>c w. (Ok (), w))\<rparr>"

lemma mem_os_simps [simp]:
  "os_canonicalize mem_os p w = Ok p"
  "os_metadata_len mem_os p w =
     (case map_of w p of None \<Rightarrow> Err no_such_file | Some d \<Rightarrow> Ok (of_nat (length d)))"
  "os_open_read mem_os p w =
     (case map_of w p of None \<Rightarrow> Err no_such_file | Some d \<Rightarrow> Ok [Ok d, Ok []])"
  "os_write mem_os p d w = (Ok (), AList.update p d w)"
  "os_set_permissions mem_os p m w = w"
  "os_spawn mem_os c dir env w = (Ok c, w)"
  "os_wait mem_os c w = (Ok (as_bytes c, [], Some 0), w)"
  by (simp_all add: mem_os_def)

definition idle_worker :: "(string, (string \<times> bytes) list) worker" where
  "idle_worker =
     \<lparr>wk_active = 0, wk_pending_writes = [], wk_running = [], wk_cells = [], wk_world = []\<rparr>"

definition sleep_request :: run_command_request where
  "sleep_request =
     \<lparr>rc_command = ''sleep 60'', rc_args = [], rc_working_dir = [], rc_env = [],
      rc_timeout_ms = 1000, rc_persistent = False, rc_session_id = []\<rparr>"

text \<open>A command that is being waited for, reached by four steps.\<close>

definition waiting_session :: "(string, (string \<times> bytes) list) session" where
  "waiting_session =
     \<lparr>ss_worker = \<lparr>wk_active = 1, wk_pending_writes = [], wk_running = [], wk_cells = [None], wk_world = []\<rparr>,
      ss_permits = 3,
      ss_tasks = [\<lparr>tk_command_id = ''c1'', tk_phase = Awaiting ''sleep 60''\<rparr>],
      ss_out = [reply ''c1'' (CommandAck Executing)], ss_loop = Looping\<rparr>"

lemma waiting_session_reachable: "session_reachable mem_os waiting_session"
proof -
  define s1 where "s1 = dispatch mem_os undefined 0
    \<lparr>gc_command_id = ''c1'', gc_session_token = [], gc_payload = Some (Run sleep_request)\<rparr>
    (session_new idle_worker)"
  have s1: "s1 = \<lparr>ss_worker = idle_worker, ss_permits = 4,
      ss_tasks = [\<lparr>tk_command_id = ''c1'', tk_phase = WaitingPermit (Run sleep_request)\<rparr>],
      ss_out = [], ss_loop = Looping\<rparr>"
    by (simp add: s1_def dispatch_def session_new_def spawn_task_def MAX_CONCURRENT_COMMANDS_def)
  have r1: "session_reachable mem_os s1"
    unfolding s1_def
    by (rule session_reachable.step [OF session_reachable.start session_step.command])
       (simp_all add: idle_worker_def session_new_def)
  define s2 where "s2 = s1\<lparr>ss_worker := idle_worker\<lparr>wk_active := 1\<rparr>, ss_permits := 3,
      ss_tasks := [\<lparr>tk_command_id = ''c1'', tk_phase = Acquired sleep_request\<rparr>],
      ss_out := [reply ''c1'' (CommandAck Executing)]\<rparr>"
  have "session_step mem_os s1 s2"
    using acquire_run [of 0 s1 sleep_request "ss_worker s1" mem_os]
    by (simp add: s1 s2_def send_out_def set_phase_def idle_worker_def)
  then have r2: "session_reachable mem_os s2" using r1 session_reachable.step by blast
  define s3 where "s3 = s2\<lparr>ss_worker := idle_worker\<lparr>wk_active := 1, wk_running := [(''c1'', 0)],
      wk_cells := [Some ''sleep 60'']\<rparr>,
      ss_tasks := [\<lparr>tk_command_id = ''c1'', tk_phase = Published 0\<rparr>]\<rparr>"
  have "session_step mem_os s2 s3"
    using spawned [of 0 s2 sleep_request mem_os 0 "ss_worker s3"]
    by (simp add: s1 s2_def s3_def set_phase_def idle_worker_def exec_spawn_def
        sleep_request_def)
  then have r3: "session_reachable mem_os s3" using r2 session_reachable.step by blast
  have "session_step mem_os s3 waiting_session"
    using taken [of 0 s3 0 "''sleep 60''" "ss_worker waiting_session" mem_os]
    by (simp add: s1 s2_def s3_def set_phase_def idle_worker_def exec_take_def waiting_session_def)
  then show ?thesis using r3 session_reachable.step by blast
qed


theorem cancel_only_while_published_witness:
  "tk_phase (ss_tasks waiting_session ! 0) = Awaiting ''sleep 60''
   \<and> cancel_running_process mem_os ''c1'' (ss_worker waiting_session) =
       (CancelAck False ''Process not found'', ss_worker waiting_session)"
  using cancel_only_while_published [OF waiting_session_reachable, of "''c1''"]
  by (simp add: waiting_session_def)

subsection \<open>The handshake against any gateway that challenges\<close>

text \<open>
  What the worker relies on when it authenticates: the gateway lets a sandbox in at once or sends a
  challenge, and it answers the response to that challenge by whether the proof is \<open>valid\<close>.
\<close>

locale registration_service =
  fixes rpc_register :: "register_request \<Rightarrow> 'g \<Rightarrow> register_response \<times> 'g"
    and rpc_challenge_response :: "challenge_proof \<Rightarrow> 'g \<Rightarrow> register_response \<times> 'g"
    and open_to :: "string \<Rightarrow> 'g \<Rightarrow> bool"
    and valid :: "string \<Rightarrow> bytes \<Rightarrow> bytes \<Rightarrow> bytes \<Rightarrow> 'g \<Rightarrow> bool"
  assumes register_status:
      "rs_status (fst (rpc_register req g)) = (if open_to (rr_sandbox_id req) g then Accepted else Challenge)"
    and challenge_status:
      "\<not> open_to (rr_sandbox_id req) g \<Longrightarrow> cp_sandbox_id p = rr_sandbox_id req \<Longrightarrow>
       rs_status (fst (rpc_challenge_response p (snd (rpc_register req g)))) =
         (if valid (rr_sandbox_id req) (rr_worker_nonce req)
               (rs_gateway_nonce (fst (rpc_register req g))) (cp_proof p) g
          then Accepted else Rejected)"
begin

lemma authenticate_ok_iff:
  assumes "rr_sandbox_id req = wa_sandbox_id args"
  shows "is_ok (fst (authenticate hmac rpc_register rpc_challenge_response args req g)) \<longleftrightarrow>
    open_to (wa_sandbox_id args) g
    \<or> valid (wa_sandbox_id args) (rr_worker_nonce req) (rs_gateway_nonce (fst (rpc_register req g)))
        (compute_hmac_proof hmac (wa_secret args) (rr_worker_nonce req)
           (rs_gateway_nonce (fst (rpc_register req g)))) g"
proof (cases "open_to (wa_sandbox_id args) g")
  case True
  then show ?thesis
    using register_status [of req g] assms by (simp add: authenticate_def split_beta)
next
  case False
  then show ?thesis
    using register_status [of req g] assms
      challenge_status [of req g "\<lparr>cp_sandbox_id = wa_sandbox_id args,
         cp_proof = compute_hmac_proof hmac (wa_secret args) (rr_worker_nonce req)
           (rs_gateway_nonce (fst (rpc_register req g)))\<rparr>"]
    by (auto simp: authenticate_def split_beta Let_def)
qed

lemma authenticate_rejected:
  assumes "rr_sandbox_id req = wa_sandbox_id args"
    and "fst (authenticate hmac rpc_register rpc_challenge_response args req g) = Inl e"
  shows "e = ''Challenge response rejected: Rejected''"
proof -
  have "\<not> open_to (wa_sandbox_id args) g"
    using authenticate_ok_iff [OF assms(1), of hmac g] assms(2) by auto
  then show ?thesis
    using register_status [of req g] assms
      challenge_status [of req g "\<lparr>cp_sandbox_id = wa_sandbox_id args,
         cp_proof = compute_hmac_proof hmac (wa_secret args) (rr_worker_nonce req)
           (rs_gateway_nonce (fst (rpc_register req g)))\<rparr>"]
    by (auto simp: authenticate_def split_beta Let_def split: if_splits)
qed

end

definition no_secret :: "string \<Rightarrow> registry \<Rightarrow> bool" where
  "no_secret i r \<longleftrightarrow> get_secret i r = None \<or> get_secret i r = Some []"

definition proof_valid :: "hmac_fun \<Rightarrow> string \<Rightarrow> bytes \<Rightarrow> bytes \<Rightarrow> bytes \<Rightarrow> registry \<Rightarrow> bool" where
  "proof_valid hmac i wn gn p r \<longleftrightarrow>
     hmac_valid hmac i \<lparr>pc_worker_nonce = wn, pc_gateway_nonce = gn\<rparr> p r"

interpretation gw: registration_service
  "register ts" "challenge_response hmac uuid" no_secret "proof_valid hmac"
proof
  fix req :: register_request and g
  show "rs_status (fst (register ts req g)) =
      (if no_secret (rr_sandbox_id req) g then Accepted else Challenge)"
    by (auto simp: register_def no_secret_def Let_def split: option.splits)
next
  fix req :: register_request and g and p :: challenge_proof
  assume "\<not> no_secret (rr_sandbox_id req) g" "cp_sandbox_id p = rr_sandbox_id req"
  then show "rs_status (fst (challenge_response hmac uuid p (snd (register ts req g)))) =
      (if proof_valid hmac (rr_sandbox_id req) (rr_worker_nonce req)
            (rs_gateway_nonce (fst (register ts req g))) (cp_proof p) g
       then Accepted else Rejected)"
    by (auto simp: register_def no_secret_def challenge_response_def proof_valid_def update_conv' Let_def
             split: option.splits)
qed

lemma request_for_simps [simp]:
  "rr_sandbox_id (register_request_for o_s arch args nonce) = wa_sandbox_id args"
  "rr_worker_nonce (register_request_for o_s arch args nonce) = nonce"
  by (simp_all add: register_request_for_def)

text \<open>
  C18: Who gets a session. A worker's handshake with the gateway succeeds exactly when the gateway has no secret for its sandbox, or
  when the HMAC of the two nonces under the worker's secret is the one under an accepted key: one of
  the pre-shared keys when they are enabled, and the secret of the sandbox otherwise. So a worker that holds
  an accepted key always succeeds; and without a secret for the sandbox no key is needed, also when
  pre-shared keys are enabled.
\<close>

theorem handshake_accepts_iff:
  "is_ok (fst (authenticate hmac (register ts) (challenge_response hmac uuid) args
                 (register_request_for o_s arch args nonce) r)) \<longleftrightarrow>
     get_secret (wa_sandbox_id args) r = None \<or> get_secret (wa_sandbox_id args) r = Some []
     \<or> (\<exists>key. hmac (as_bytes key) (nonce @ generate_nonce ts) =
                hmac (as_bytes (wa_secret args)) (nonce @ generate_nonce ts)
          \<and> (if ac_pre_shared_key_enabled (rg_auth_config r)
             then key \<in> set (ac_pre_shared_keys (rg_auth_config r))
             else get_secret (wa_sandbox_id args) r = Some key))"
proof (cases "no_secret (wa_sandbox_id args) r")
  case True
  then show ?thesis
    by (auto simp: gw.authenticate_ok_iff no_secret_def)
next
  case False
  then have "rs_gateway_nonce (fst (register ts (register_request_for o_s arch args nonce) r))
      = generate_nonce ts"
    by (auto simp: register_def no_secret_def Let_def split: option.splits)
  then show ?thesis
    using False
    by (simp add: gw.authenticate_ok_iff proof_valid_def hmac_valid_iff compute_hmac_proof_def
        no_secret_def)
qed

lemma session_token_given:
  assumes "fst (authenticate hmac (register ts) (challenge_response hmac uuid) args
                  (register_request_for o_s arch args nonce) r) = Inr token"
  shows "token = (if no_secret (wa_sandbox_id args) r then ''token-'' @ wa_sandbox_id args else uuid)"
  using assms
  by (auto simp: authenticate_def register_def challenge_response_def no_secret_def update_conv' Let_def
           split: option.splits if_splits prod.splits)

lemma authenticate_keeps_workers:
  "rg_workers (snd (authenticate hmac (register ts) (challenge_response hmac uuid) args req r)) =
   rg_workers r"
  by (auto simp: authenticate_def register_def challenge_response_def Let_def split_beta
           split: option.splits register_status.splits)

lemma command_stream_connects:
  "is_worker_connected i (snd (command_stream now (Some (Ok (ready_message token args))) r)) \<longleftrightarrow>
     i = token \<or> is_worker_connected i r"
  by (auto simp: command_stream_def ready_message_def register_worker_def is_worker_connected_def
      update_conv')

text \<open>
  Under which name a worker is listed. The command stream accepts every ready signal, whatever token it
  carries, and lists the worker under that token. So after a successful handshake and the ready signal the
  connected names are those from before and the session token: the sandbox itself is connected only if
  it was before, or if the random token happens to be its identifier.
\<close>

theorem worker_listed_under_token:
  "fst (command_stream now (Some (Ok (ready_message any_token args))) r) = Ok any_token
   \<and> (case authenticate hmac (register ts) (challenge_response hmac uuid) args
             (register_request_for o_s arch args nonce) r of
        (Inl e, r1) \<Rightarrow> True
      | (Inr token, r1) \<Rightarrow>
          (\<forall>i. is_worker_connected i (snd (command_stream now (Some (Ok (ready_message token args))) r1))
             \<longleftrightarrow> i = token \<or> is_worker_connected i r)
          \<and> (is_worker_connected (wa_sandbox_id args)
               (snd (command_stream now (Some (Ok (ready_message token args))) r1))
             \<longleftrightarrow> is_worker_connected (wa_sandbox_id args) r
               \<or> (get_secret (wa_sandbox_id args) r \<notin> {None, Some []} \<and> uuid = wa_sandbox_id args)))"
proof (intro conjI)
  show "fst (command_stream now (Some (Ok (ready_message any_token args))) r) = Ok any_token"
    by (simp add: command_stream_def ready_message_def Let_def)
  obtain x r1 where auth: "authenticate hmac (register ts) (challenge_response hmac uuid) args
      (register_request_for o_s arch args nonce) r = (x, r1)" by force
  have same: "is_worker_connected i r1 = is_worker_connected i r" for i
    using authenticate_keeps_workers [of hmac ts uuid args "register_request_for o_s arch args nonce" r]
      auth by (simp add: is_worker_connected_def)
  have tok: "wa_sandbox_id args = token \<longleftrightarrow>
      get_secret (wa_sandbox_id args) r \<notin> {None, Some []} \<and> uuid = wa_sandbox_id args"
    if "x = Inr token" for token
  proof -
    have "token = (if no_secret (wa_sandbox_id args) r then ''token-'' @ wa_sandbox_id args else uuid)"
      using session_token_given [of hmac ts uuid args o_s arch nonce r token] auth that by simp
    moreover have "length (''token-'' @ wa_sandbox_id args) \<noteq> length (wa_sandbox_id args)" by simp
    ultimately show ?thesis by (auto simp: no_secret_def)
  qed
  show "case authenticate hmac (register ts) (challenge_response hmac uuid) args
             (register_request_for o_s arch args nonce) r of
        (Inl e, r1) \<Rightarrow> True
      | (Inr token, r1) \<Rightarrow>
          (\<forall>i. is_worker_connected i (snd (command_stream now (Some (Ok (ready_message token args))) r1))
             \<longleftrightarrow> i = token \<or> is_worker_connected i r)
          \<and> (is_worker_connected (wa_sandbox_id args)
               (snd (command_stream now (Some (Ok (ready_message token args))) r1))
             \<longleftrightarrow> is_worker_connected (wa_sandbox_id args) r
               \<or> (get_secret (wa_sandbox_id args) r \<notin> {None, Some []} \<and> uuid = wa_sandbox_id args))"
    unfolding auth using tok same by (cases x) (simp_all add: command_stream_connects disj_commute)
qed

subsection \<open>Reconnecting\<close>

lemma next_backoff_eq:
  "next_backoff attempt 1000 60000 nanos = min (1000 * 2 ^ min (unat attempt) 6 + unat (nanos mod 500)) 60000"
proof -
  define k where "k = min (unat attempt) 6"
  define m where "m = 1000 * (2 :: nat) ^ k"
  have k: "(2 :: nat) ^ k \<le> 64"
    using power_increasing [of k 6 "2 :: nat"] by (simp add: k_def)
  then have m: "m \<le> 64000" by (simp add: m_def)
  have jit: "unat (nanos mod 500) < 500" by (simp add: unat_mod)
  have sat: "saturating_pow2 k = 2 ^ k"
    using k by (simp add: saturating_pow2_def min_def)
  have um: "unat (of_nat m :: 64 word) = m"
    using m by (simp add: unat_of_nat take_bit_nat_eq_self)
  have "unat (of_nat m + nanos mod 500) = m + unat (nanos mod 500)"
    using m jit um by (subst unat_add_lem [THEN iffD1]) auto
  moreover have "(of_nat 1000 :: 64 word) * of_nat (2 ^ k) = of_nat m"
    unfolding m_def by (simp only: of_nat_mult)
  ultimately show ?thesis
    unfolding next_backoff_def k_def [symmetric] sat Let_def m_def [symmetric] by (simp only:)
qed

fun failures_until_shutdown :: "(string, exit_reason) result list \<Rightarrow> nat" where
  "failures_until_shutdown [] = 0"
| "failures_until_shutdown (Inr ShutdownExit # rest) = 0"
| "failures_until_shutdown (Inr StreamEnded # rest) = failures_until_shutdown rest"
| "failures_until_shutdown (Inl e # rest) = Suc (failures_until_shutdown rest)"

text \<open>
  Reconnecting. The worker sleeps once for every session that fails before a shutdown, each
  time between one second and one minute, the first time less than one and a half seconds, and it
  returns exactly when a session ends with a shutdown.
\<close>

theorem reconnect_delays:
  "length (fst (main_loop clock attempt outcomes)) = failures_until_shutdown outcomes
   \<and> set (fst (main_loop clock attempt outcomes)) \<subseteq> {1000..60000}
   \<and> (case fst (main_loop clock 0 outcomes) of d # _ \<Rightarrow> d < 1500 | [] \<Rightarrow> True)
   \<and> (snd (main_loop clock attempt outcomes) \<longleftrightarrow> Inr ShutdownExit \<in> set outcomes)"
proof (intro conjI)
  show "length (fst (main_loop clock attempt outcomes)) = failures_until_shutdown outcomes"
    by (induction clock attempt outcomes rule: main_loop.induct) (simp_all add: Let_def)
  have one: "1000 \<le> 1000 * (2 :: nat) ^ n" for n by simp
  have "next_backoff a 1000 60000 nanos \<in> {1000..60000}" for a nanos
    using trans_le_add1 [OF one [of "min (unat a) 6"], of "unat (nanos mod 500)"]
    by (simp add: next_backoff_eq)
  then show "set (fst (main_loop clock attempt outcomes)) \<subseteq> {1000..60000}"
    by (induction clock attempt outcomes rule: main_loop.induct) (simp_all add: Let_def)
  have "next_backoff 0 1000 60000 nanos < 1500" for nanos
    by (simp add: next_backoff_eq unat_mod)
  then show "case fst (main_loop clock 0 outcomes) of d # _ \<Rightarrow> d < 1500 | [] \<Rightarrow> True"
    by (induction clock "0 :: 32 word" outcomes rule: main_loop.induct) (simp_all add: Let_def)
  show "snd (main_loop clock attempt outcomes) \<longleftrightarrow> Inr ShutdownExit \<in> set outcomes"
    by (induction clock attempt outcomes rule: main_loop.induct) (simp_all add: Let_def)
qed

subsection \<open>Files\<close>

lemma validate_path_Ok_iff:
  "validate_path os path w = Inr c \<longleftrightarrow>
     (\<exists>rest. path = ''/'' @ rest) \<and> os_canonicalize os path w = Inr c
     \<and> (\<exists>p \<in> set ALLOWED_PREFIXES. \<exists>rest. c = p @ rest)"
  by (auto simp: validate_path_def list_ex_iff starts_with_iff split: sum.splits)

text \<open>
  C22: Paths. A path is accepted exactly when it is absolute, exists as far as \<open>canonicalize\<close> is concerned, and its
  canonical form begins with the characters of one of the allowed prefixes. For every other path reading,
  writing and listing answer with one permission error, and nothing is read, written or kept.
\<close>

theorem paths_confined:
  "(validate_path os path w = Inr c \<longleftrightarrow>
      (\<exists>rest. path = ''/'' @ rest) \<and> os_canonicalize os path w = Inr c
      \<and> (\<exists>p \<in> {''/workspace'', ''/tmp'', ''/home'', ''/opt'', ''/var/tmp''}. \<exists>rest. c = p @ rest))
   \<and> (case validate_path os path w of
        Inr safe_path \<Rightarrow> True
      | Inl e \<Rightarrow>
          handle_read os (rreq\<lparr>rf_path := path\<rparr>) cid w = [reply cid (ErrorResult e ''permission'' 0)]
          \<and> handle_list os (lreq\<lparr>lf_directory := path\<rparr>) cid w = [reply cid (ErrorResult e ''permission'' 0)]
          \<and> handle_write os (wreq\<lparr>wf_path := path\<rparr>) cid pending w =
              ([reply cid (ErrorResult e ''permission'' 0)], pending, w))"
  unfolding validate_path_Ok_iff
  by (simp add: ALLOWED_PREFIXES_def handle_read_def handle_list_def handle_write_def path_failure_def
      split: sum.splits)

definition chunk_request :: "string \<Rightarrow> 32 word \<Rightarrow> nat \<Rightarrow> nat \<Rightarrow> bytes \<Rightarrow> write_file_request" where
  "chunk_request path mode n_chunks i d =
     \<lparr>wf_path = path, wf_mode = mode, wf_total_size = 0, wf_chunk_index = of_nat i,
      wf_total_chunks = of_nat n_chunks, wf_content = d\<rparr>"

text \<open>The chunks of a file, sent one after another under one command identifier.\<close>

fun write_chunks ::
    "('c, 'w) os \<Rightarrow> string \<Rightarrow> string \<Rightarrow> 32 word \<Rightarrow> nat \<Rightarrow> nat \<Rightarrow> bytes list \<Rightarrow> pending_writes \<Rightarrow> 'w \<Rightarrow>
     worker_message list \<times> pending_writes \<times> 'w" where
  "write_chunks os cid path mode n_chunks i [] pending w = ([], pending, w)"
| "write_chunks os cid path mode n_chunks i (d # ds) pending w =
     (case handle_write os (chunk_request path mode n_chunks i d) cid pending w of
        (ms, pending1, w1) \<Rightarrow>
          apfst (append ms) (write_chunks os cid path mode n_chunks (Suc i) ds pending1 w1))"

lemma sint_of_small: "n < 2 ^ 31 \<Longrightarrow> sint (of_nat n :: 32 word) = int n"
  by (simp add: sint_of_nat_small)

lemma of_nat_inj32:
  "m < 2 ^ 31 \<Longrightarrow> n < 2 ^ 31 \<Longrightarrow> (of_nat m :: 32 word) = of_nat n \<longleftrightarrow> m = n"
  by (metis of_nat_eq_iff sint_of_small)

lemma write_chunk_step:
  assumes "validate_path os path w = Inr safe" "2 \<le> n_chunks" "n_chunks < 2 ^ 31" "i < n_chunks"
  shows "handle_write os (chunk_request path mode n_chunks i d) cid pending w =
    (let all_data = (case map_of pending cid of None \<Rightarrow> [] | Some acc \<Rightarrow> acc) @ d
     in if Suc i = n_chunks
        then (case write_whole os cid safe mode all_data w of
                (ms, w1) \<Rightarrow> (ms, AList.delete cid pending, w1))
        else ([reply cid (CommandAck Received)], AList.update cid all_data pending, w))"
proof -
  have "(of_nat n_chunks :: 32 word) \<noteq> 1" using of_nat_inj32 [of n_chunks 1] assms by simp
  moreover have "(1 :: int) < sint (of_nat n_chunks :: 32 word)" using sint_of_small assms by simp
  moreover have "(of_nat i + 1 :: 32 word) = of_nat n_chunks \<longleftrightarrow> Suc i = n_chunks"
    using of_nat_inj32 [of "Suc i" n_chunks] assms by (simp add: add.commute)
  ultimately show ?thesis
    using assms(1) by (simp add: handle_write_def chunk_request_def Let_def)
qed

lemma write_chunks_from:
  assumes v: "validate_path os path w = Inr safe" and t: "2 \<le> n_chunks" "n_chunks < 2 ^ 31"
  shows "ds \<noteq> [] \<Longrightarrow> i + length ds = n_chunks \<Longrightarrow>
    write_chunks os cid path mode n_chunks i ds pending w =
      (let all_data = (case map_of pending cid of None \<Rightarrow> [] | Some acc \<Rightarrow> acc) @ concat ds;
           (ms, w1) = write_whole os cid safe mode all_data w
       in (replicate (length ds - 1) (reply cid (CommandAck Received)) @ ms,
           AList.delete cid pending, w1))"
proof (induction ds arbitrary: i pending)
  case (Cons d ds)
  show ?case
  proof (cases "ds = []")
    case True
    then show ?thesis
      using Cons.prems write_chunk_step [OF v t, of i mode d cid pending]
      by (simp add: Let_def split: prod.splits)
  next
    case False
    then have "replicate (length ds) (reply cid (CommandAck Received)) =
        reply cid (CommandAck Received) # replicate (length ds - 1) (reply cid (CommandAck Received))"
      by (cases ds) auto
    moreover have "AList.delete cid (AList.update cid xs pending) = AList.delete cid pending" for xs
      by (rule delete_update_same)
    moreover have "Suc i \<noteq> n_chunks" using False Cons.prems by (cases ds) auto
    ultimately show ?thesis
      using False Cons.prems write_chunk_step [OF v t, of i mode d cid pending]
      by (simp add: Cons.IH Let_def update_conv' split: prod.splits)
  qed
qed simp

text \<open>
  Writing in chunks. Sending a file in two or more chunks, in order and under one command identifier,
  writes the concatenation of the chunks to the file in one write after the last chunk: every chunk before
  it is acknowledged and kept, the last is answered by the outcome of the write, and nothing is kept
  afterwards.
\<close>

theorem chunked_write_assembles:
  assumes "validate_path os path w = Inr safe" "map_of pending cid = None"
    and "2 \<le> length chunks" "length chunks < 2 ^ 31"
  shows "write_chunks os cid path mode (length chunks) 0 chunks pending w =
    (replicate (length chunks - 1) (reply cid (CommandAck Received))
       @ fst (write_whole os cid safe mode (concat chunks) w),
     pending, snd (write_whole os cid safe mode (concat chunks) w))"
proof -
  have "AList.delete cid pending = pending"
    using assms(2) by (simp add: map_of_eq_None_iff delete_id)
  then show ?thesis
    using write_chunks_from [OF assms(1,3,4), of chunks 0 cid mode pending] assms
    by (cases chunks) (simp_all add: Let_def split_beta)
qed

theorem chunked_write_assembles_witness:
  "write_chunks mem_os ''c1'' ''/tmp/f'' 420 2 0 [[1, 2], [3]] [] [] =
     ([reply ''c1'' (CommandAck Received), reply ''c1'' (CommandAck Received)], [],
      [(''/tmp/f'', [1, 2, 3])])"
proof -
  have v: "validate_path mem_os ''/tmp/f'' [] = Inr ''/tmp/f''"
    by (simp add: validate_path_def ALLOWED_PREFIXES_def)
  have w: "write_whole mem_os ''c1'' ''/tmp/f'' 420 [1, 2, 3] [] =
      ([reply ''c1'' (CommandAck Received)], [(''/tmp/f'', [1, 2, 3])])"
    by (simp add: write_whole_def apply_file_mode_def)
  show ?thesis
    using chunked_write_assembles [OF v, of "[]" "''c1''" "[[1, 2], [3]]" 420]
    by (simp add: w del: write_chunks.simps) (simp add: numeral_2_eq_2 del: write_chunks.simps)
qed

text \<open>What the reads of a file become.\<close>

lemma read_loop_pieces:
  assumes "int off + int (length (concat pieces)) < 2 ^ 63" "list_all (\<lambda>d. d \<noteq> []) pieces"
    and "file_size = of_nat (off + length (concat pieces))"
  shows "\<exists>ms. read_loop cid file_size n_chunks (of_nat off) idx (map Inr pieces @ [Inr []]) = ms
    \<and> list_all (\<lambda>m. wm_command_id m = cid) ms
    \<and> upto_terminal ms = (if pieces = [] then None else Some ms)
    \<and> aggregate_file acc ms = Ok (acc @ concat pieces)"
  using assms
proof (induction pieces arbitrary: off idx acc)
  case (Cons d ds)
  let ?off = "off + length d"
  have size: "sint (of_nat n :: 64 word) = int n" if "int n < 2 ^ 63" for n
    using that by (simp add: sint_of_nat_small)
  have last: "sint file_size \<le> sint (of_nat off + of_nat (length d) :: 64 word) \<longleftrightarrow> ds = []"
    using size [of ?off] size [of "off + length (concat (d # ds))"] Cons.prems
    by (cases ds; cases "hd ds") auto
  obtain ms where ms: "read_loop cid file_size n_chunks (of_nat ?off) (idx + 1) (map Inr ds @ [Inr []]) = ms"
      "list_all (\<lambda>m. wm_command_id m = cid) ms"
      "upto_terminal ms = (if ds = [] then None else Some ms)"
      "aggregate_file (acc @ d) ms = Ok ((acc @ d) @ concat ds)"
    using Cons.IH [of ?off "idx + 1" "acc @ d"] Cons.prems by (auto simp: add.assoc)
  have empty: "ms = []" if "ds = []" using ms(1) that by auto
  show ?case
    using Cons.prems ms last empty
    by (auto simp: Let_def reply_def is_terminal_def)
qed (auto)

subsection \<open>The replies to a command\<close>

lemma run_replies_collected:
  "upto_terminal (reply cid (CommandAck Executing) # run_replies cid d x) =
     Some (reply cid (CommandAck Executing) # run_replies cid d x)"
  by (auto simp: run_replies_def reply_def is_terminal_def split: sum.splits)

lemma run_replies_aggregated:
  "aggregate_run no_result (reply cid (CommandAck Executing) # run_replies cid d x) =
     (case x of
        Inr (so, se, code) \<Rightarrow>
          Ok \<lparr>res_exit_code = code, res_stdout = so, res_stderr = se, res_duration_ms = d,
              res_timed_out = False\<rparr>
      | Inl e \<Rightarrow> Err (Internal e))"
  by (auto simp: run_replies_def reply_def no_result_def split: sum.splits)

text \<open>The chunks a streaming client sees when it takes them all.\<close>

definition chunks_of_run ::
    "(string, bytes \<times> bytes \<times> 32 word) result \<Rightarrow> command_stream" where
  "chunks_of_run x =
     (case x of
        Inr (so, se, code) \<Rightarrow>
          (if so \<noteq> [] then [Ok \<lparr>chunk_kind = StdoutChunk, chunk_data = so, chunk_final = False\<rparr>] else [])
          @ (if se \<noteq> [] then [Ok \<lparr>chunk_kind = StderrChunk, chunk_data = se, chunk_final = False\<rparr>] else [])
          @ [Ok \<lparr>chunk_kind = ExitCodeChunk, chunk_data = le_bytes 4 code, chunk_final = True\<rparr>]
      | Inl e \<Rightarrow> [Err (Internal e)])"

lemma run_replies_forwarded:
  assumes "3 \<le> room"
  shows "forward_loop room (map Inr (reply cid (CommandAck Executing) # run_replies cid d x)) =
     (chunks_of_run x, True)"
proof -
  obtain k where k: "room = Suc (Suc (Suc k))" using assms by (metis numeral_3_eq_3 Suc_le_D Suc_le_mono)
  show ?thesis
    by (auto simp: k run_replies_def reply_def chunks_of_run_def split: sum.splits)
qed

lemma handle_run_messages:
  "fst (handle_run os d req cid wk) =
     reply cid (CommandAck Executing)
       # run_replies cid d (fst (execute_command os req cid (wk\<lparr>wk_active := wk_active wk + 1\<rparr>)))"
  by (simp add: handle_run_def split: prod.splits)

text \<open>\<open>execute_command\<close> on its own, without a cancel between its parts.\<close>

lemma execute_command_alone:
  "fst (execute_command os req cid wk) =
     (case os_spawn os (rc_command req)
             (if rc_working_dir req \<noteq> [] then Some (rc_working_dir req) else None)
             (rc_env req) (wk_world wk) of
        (Inl e, w) \<Rightarrow> Inl (''Failed to spawn: '' @ io_message e)
      | (Inr c, w) \<Rightarrow>
          (case fst (os_wait os c w) of
             Inl e \<Rightarrow> Inl (''Failed to execute: '' @ io_message e)
           | Inr (so, se, code) \<Rightarrow> Inr (so, se, case code of None \<Rightarrow> -1 | Some n \<Rightarrow> n)))"
  by (auto simp: execute_command_def and_then_def exec_spawn_def exec_take_def exec_wait_def
           split: prod.splits sum.splits)

end
