(* ===== verification/Catalog_Records.thy ===== *)
theory Catalog_Records
  imports Command_Sanitizer Sandbox_Usecases
begin

text \<open>
  Experience records and assertions: \<open>bastion-domain/src/catalog/experience.rs\<close>, \<open>assertion.rs\<close>, and the use
  cases \<open>record_experience.rs\<close> and \<open>evaluate_assertion.rs\<close> of \<open>bastion-application/src/catalog\<close>. A \<open>char\<close> is a
  byte of UTF-8 text, as in \<open>Command_Sanitizer\<close>; a point of time counts nanoseconds. \<open>debug\<close> is the escape
  that \<open>{:?}\<close> applies to a string, which consults the tables of Unicode.
\<close>

section \<open>Bytes as text\<close>

definition starts :: "(char \<Rightarrow> bool) \<Rightarrow> string \<Rightarrow> bool" where
  "starts p s = (case s of [] \<Rightarrow> False | b # _ \<Rightarrow> p b)"

definition second_of_three :: "char \<Rightarrow> char \<Rightarrow> bool" where
  "second_of_three a b =
     ((in_range 0xE0 0xE0 a \<and> in_range 0xA0 0xBF b) \<or>
      ((in_range 0xE1 0xEC a \<or> in_range 0xEE 0xEF a) \<and> is_continuation b) \<or>
      (in_range 0xED 0xED a \<and> in_range 0x80 0x9F b))"

definition second_of_four :: "char \<Rightarrow> char \<Rightarrow> bool" where
  "second_of_four a b =
     ((in_range 0xF0 0xF0 a \<and> in_range 0x90 0xBF b) \<or>
      (in_range 0xF1 0xF3 a \<and> is_continuation b) \<or>
      (in_range 0xF4 0xF4 a \<and> in_range 0x80 0x8F b))"

text \<open>
  \<open>String::from_utf8_lossy\<close>: the character at the front, or the longest beginning of a character there, by its
  length and whether it is complete. An incomplete one becomes U+FFFD.
\<close>

definition utf8_chunk :: "char \<Rightarrow> string \<Rightarrow> nat \<times> bool" where
  "utf8_chunk a s =
     (if is_ascii a then (1, True)
      else if in_range 0xC2 0xDF a then
        (if starts is_continuation s then (2, True) else (1, False))
      else if in_range 0xE0 0xEF a then
        (if \<not> starts (second_of_three a) s then (1, False)
         else if \<not> starts is_continuation (drop 1 s) then (2, False) else (3, True))
      else if in_range 0xF0 0xF4 a then
        (if \<not> starts (second_of_four a) s then (1, False)
         else if \<not> starts is_continuation (drop 1 s) then (2, False)
         else if \<not> starts is_continuation (drop 2 s) then (3, False) else (4, True))
      else (1, False))"

definition replacement_char :: string where
  "replacement_char = [CHR 0xEF, CHR 0xBF, CHR 0xBD]"

function from_utf8_lossy :: "string \<Rightarrow> string" where
  "from_utf8_lossy [] = []"
| "from_utf8_lossy (a # s) =
     (let (n, valid) = utf8_chunk a s
      in (if valid then take n (a # s) else replacement_char) @ from_utf8_lossy (drop (n - 1) s))"
  by pat_completeness auto
termination by (relation "measure length") (auto simp: le_imp_less_Suc)

declare from_utf8_lossy.simps(2) [simp del]

section \<open>Experience records\<close>

text \<open>A JSON value of \<open>serde_json\<close>; a number is its text.\<close>

datatype json = JNull | JBool bool | JNumber string | JString string | JArray "json list"
  | JObject "(string \<times> json) list"

datatype experience_status = ESuccess | EFailure | ETimeout | ECancelled

fun experience_is_terminal :: "experience_status \<Rightarrow> bool" where
  "experience_is_terminal ESuccess = True"
| "experience_is_terminal EFailure = True"
| "experience_is_terminal _ = False"

record experience_record =
  ex_id :: string
  ex_trace_id :: "string option"
  ex_tool_name :: string
  ex_sandbox_id :: "sandbox_id option"
  ex_started_at :: timestamp
  ex_finished_at :: "timestamp option"
  ex_exit_code :: "32 word option"
  ex_stdout_summary :: string
  ex_stderr_summary :: string
  ex_status :: experience_status
  ex_metadata :: json

text \<open>The fresh identifier and the clock are arguments.\<close>

definition experience_new :: "string \<Rightarrow> timestamp \<Rightarrow> string \<Rightarrow> experience_record" where
  "experience_new uuid now tool =
     \<lparr>ex_id = uuid, ex_trace_id = None, ex_tool_name = tool, ex_sandbox_id = None, ex_started_at = now,
      ex_finished_at = None, ex_exit_code = None, ex_stdout_summary = [], ex_stderr_summary = [],
      ex_status = EFailure, ex_metadata = JObject []\<rparr>"

definition with_trace_id :: "string \<Rightarrow> experience_record \<Rightarrow> experience_record" where
  "with_trace_id t r = r\<lparr>ex_trace_id := Some t\<rparr>"

definition with_sandbox_id :: "sandbox_id \<Rightarrow> experience_record \<Rightarrow> experience_record" where
  "with_sandbox_id i r = r\<lparr>ex_sandbox_id := Some i\<rparr>"

definition completed :: "timestamp \<Rightarrow> 32 word \<Rightarrow> experience_record \<Rightarrow> experience_record" where
  "completed now code r =
     r\<lparr>ex_exit_code := Some code, ex_finished_at := Some now,
       ex_status := (if code = 0 then ESuccess else EFailure)\<rparr>"

definition timed_out :: "timestamp \<Rightarrow> experience_record \<Rightarrow> experience_record" where
  "timed_out now r = r\<lparr>ex_status := ETimeout, ex_finished_at := Some now\<rparr>"

definition cancelled :: "timestamp \<Rightarrow> experience_record \<Rightarrow> experience_record" where
  "cancelled now r = r\<lparr>ex_status := ECancelled, ex_finished_at := Some now\<rparr>"

definition with_metadata :: "json \<Rightarrow> experience_record \<Rightarrow> experience_record" where
  "with_metadata m r = r\<lparr>ex_metadata := m\<rparr>"

text \<open>\<open>num_milliseconds\<close> rounds towards zero; the cast to \<open>u64\<close> wraps.\<close>

definition num_milliseconds :: "int \<Rightarrow> int" where
  "num_milliseconds d = sgn d * (\<bar>d\<bar> div 1000000)"

definition duration_ms :: "experience_record \<Rightarrow> 64 word option" where
  "duration_ms r =
     map_option (\<lambda>finished. word_of_int (num_milliseconds (finished - ex_started_at r))) (ex_finished_at r)"

subsection \<open>Summaries of output\<close>

fun floor_loop :: "string \<Rightarrow> nat \<Rightarrow> nat" where
  "floor_loop s 0 = 0"
| "floor_loop s (Suc n) = (if char_boundary s (Suc n) then Suc n else floor_loop s n)"

definition floor_char_boundary :: "string \<Rightarrow> nat \<Rightarrow> nat" where
  "floor_char_boundary s i = floor_loop s (min i (length s))"

function ceil_loop :: "string \<Rightarrow> nat \<Rightarrow> nat" where
  "ceil_loop s i = (if i < length s \<and> \<not> char_boundary s i then ceil_loop s (i + 1) else i)"
  by pat_completeness auto
termination by (relation "measure (\<lambda>(s, i). length s - i)") auto

declare ceil_loop.simps [simp del]

definition ceil_char_boundary :: "string \<Rightarrow> nat \<Rightarrow> nat" where
  "ceil_char_boundary s i = ceil_loop s (min i (length s))"

definition truncation_marker :: string where
  "truncation_marker = CHR 0x0A # ''... [truncated: showing head and tail] ...'' @ [CHR 0x0A]"

definition max_summary_bytes :: nat where
  "max_summary_bytes = 1024"

definition head_bytes :: nat where
  "head_bytes = 512"

definition tail_bytes :: nat where
  "tail_bytes = 512"

text \<open>A slice that does not begin and end at a boundary panics: \<open>None\<close>.\<close>

definition summarize_output :: "string \<Rightarrow> string option" where
  "summarize_output s =
     (if length s \<le> max_summary_bytes then Some s
      else let head_end = floor_char_boundary s head_bytes;
               tail_start = ceil_char_boundary s (length s - tail_bytes)
           in if char_boundary s head_end \<and> char_boundary s tail_start
              then Some (take head_end s @ truncation_marker @ drop tail_start s)
              else None)"

definition with_stdout :: "string \<Rightarrow> experience_record \<Rightarrow> experience_record option" where
  "with_stdout bytes r =
     map_option (\<lambda>s. r\<lparr>ex_stdout_summary := s\<rparr>) (summarize_output (from_utf8_lossy bytes))"

definition with_stderr :: "string \<Rightarrow> experience_record \<Rightarrow> experience_record option" where
  "with_stderr bytes r =
     map_option (\<lambda>s. r\<lparr>ex_stderr_summary := s\<rparr>) (summarize_output (from_utf8_lossy bytes))"

subsection \<open>The summary is text\<close>

lemmas utf8_second_defs = second_of_three_def second_of_four_def

lemma replacement_utf8: "utf8 replacement_char"
  by code_simp

lemma starts_iff: "starts p s \<longleftrightarrow> (\<exists>b r. s = b # r \<and> p b)"
  by (cases s) (auto simp: starts_def)

lemma utf8_class_iff:
  "utf8_pair a b \<longleftrightarrow> in_range 0xC2 0xDF a \<and> is_continuation b"
  "utf8_triple a b c \<longleftrightarrow> second_of_three a b \<and> is_continuation c"
  "utf8_quad a b c d \<longleftrightarrow> second_of_four a b \<and> is_continuation c \<and> is_continuation d"
  by (auto simp: utf8_pair_def utf8_triple_def utf8_quad_def utf8_second_defs)

lemma utf8_chunk_valid:
  assumes "utf8_chunk a s = (n, True)"
  shows "utf8 (take n (a # s))"
proof -
  consider "is_ascii a" "n = 1"
    | b r where "\<not> is_ascii a" "s = b # r" "n = 2" "utf8_pair a b"
    | b c r where "\<not> is_ascii a" "s = b # c # r" "n = 3" "utf8_triple a b c"
    | b c d r where "\<not> is_ascii a" "s = b # c # d # r" "n = 4" "utf8_quad a b c d"
    using assms unfolding utf8_chunk_def utf8_class_iff
    by (simp split: if_split_asm) (auto simp: starts_iff)
  then show ?thesis
    by cases (simp_all add: utf8_char_intros)
qed

lemma utf8_chunk_pos: "utf8_chunk a s = (n, v) \<Longrightarrow> 0 < n"
  by (auto simp: utf8_chunk_def split: if_splits)

lemma utf8_chunk_complete:
  assumes "utf8 (a # s)"
  obtains n where "utf8_chunk a s = (n, True)" "utf8 (drop n (a # s))"
proof -
  have hi: "\<not> is_ascii a \<longleftrightarrow> 128 \<le> (of_char a :: nat)" by (auto simp: is_ascii_def)
  from assms show thesis
  proof (cases rule: utf8_ConsE)
    case one
    then show thesis using that [of 1] by (simp add: utf8_chunk_def)
  next
    case (two b r1)
    then show thesis using that [of 2] by (auto simp: utf8_chunk_def utf8_pair_def starts_def)
  next
    case (three b c r2)
    then have "in_range 0xE0 0xEF a" "\<not> in_range 0xC2 0xDF a" "second_of_three a b" "is_continuation c"
      by (auto simp: utf8_triple_def in_range_def second_of_three_def)
    then show thesis using three that [of 3] by (simp add: utf8_chunk_def starts_def)
  next
    case (four b c d r3)
    then have "in_range 0xF0 0xF4 a" "\<not> in_range 0xC2 0xDF a" "\<not> in_range 0xE0 0xEF a" "second_of_four a b"
      "is_continuation c" "is_continuation d"
      by (auto simp: utf8_quad_def in_range_def second_of_four_def)
    then show thesis using four that [of 4] by (simp add: utf8_chunk_def starts_def)
  qed
qed

lemma from_utf8_lossy_utf8 [simp]: "utf8 (from_utf8_lossy bytes)"
proof (induction bytes rule: from_utf8_lossy.induct)
  case (2 a s)
  obtain n v where c: "utf8_chunk a s = (n, v)" by fastforce
  show ?case using 2 c utf8_chunk_valid [of a s n]
    by (auto simp: from_utf8_lossy.simps(2) [of a s] replacement_utf8 intro!: utf8_append)
qed simp

lemma from_utf8_lossy_id: "utf8 s \<Longrightarrow> from_utf8_lossy s = s"
proof (induction s rule: from_utf8_lossy.induct)
  case (2 a s)
  obtain n where n: "utf8_chunk a s = (n, True)" "utf8 (drop n (a # s))"
    using utf8_chunk_complete [OF 2(2)] by blast
  obtain m where m: "n = Suc m" using utf8_chunk_pos [OF n(1)] by (cases n) auto
  have "from_utf8_lossy (drop m s) = drop m s" using 2(1) n m by simp
  then show ?case using n(1) m by (simp add: from_utf8_lossy.simps(2) [of a s])
qed simp

text \<open>Between two boundaries of well-formed text there are never more than four bytes.\<close>

lemma utf8_boundary_near:
  assumes "utf8 s" "n < length s"
  obtains u c t where "s = u @ c @ t" "utf8 u" "utf8 c" "utf8 t" "length u \<le> n" "n < length (u @ c)" "length c \<le> 4"
proof -
  have "\<exists>u c t. s = u @ c @ t \<and> utf8 u \<and> utf8 c \<and> utf8 t \<and> length u \<le> n \<and> n < length (u @ c) \<and> length c \<le> 4"
    using assms
  proof (induction "length s" arbitrary: s n rule: less_induct)
    case less
    have "s \<noteq> []" using less.prems(2) by auto
    then obtain c t where c: "s = c @ t" "length c = char_len (hd s)" "c \<noteq> []" "utf8 c" "utf8 t"
      using utf8_first_char [OF less.prems(1)] by metis
    have len: "length c \<le> 4" by (simp add: c(2) char_len_def)
    show ?case
    proof (cases "n < length c")
      case True
      then show ?thesis using c len by (intro exI [of _ "[]"] exI [of _ c] exI [of _ t]) simp
    next
      case False
      then obtain u c' t' where "t = u @ c' @ t'" "utf8 u" "utf8 c'" "utf8 t'" "length u \<le> n - length c"
        "n - length c < length (u @ c')" "length c' \<le> 4"
        using less.hyps [of t "n - length c"] c(1,3,5) less.prems(2) by fastforce
      then show ?thesis using c False
        by (intro exI [of _ "c @ u"] exI [of _ c'] exI [of _ t']) (auto simp: utf8_append)
    qed
  qed
  then show thesis using that by blast
qed

lemma char_boundary_append: "utf8 t \<Longrightarrow> char_boundary (u @ t) (length u)"
  using utf8_hd [of t] by (cases t) (auto simp: char_boundary_def nth_append)

lemma floor_loop_spec:
  "floor_loop s n \<le> n" "k \<le> n \<Longrightarrow> char_boundary s k \<Longrightarrow> k \<le> floor_loop s n"
  "char_boundary s 0 \<Longrightarrow> char_boundary s (floor_loop s n)"
  by (induction n) (auto simp: le_Suc_eq)

lemma ceil_loop_spec:
  "i \<le> ceil_loop s i" "i \<le> k \<Longrightarrow> char_boundary s k \<Longrightarrow> ceil_loop s i \<le> k"
  "i \<le> length s \<Longrightarrow> char_boundary s (ceil_loop s i)"
proof (induction s i rule: ceil_loop.induct)
  case (1 s i)
  note step = ceil_loop.simps [of s i]
  { case 1 then show ?case using "1.IH"(1) step by (auto simp: Suc_le_eq split: if_splits) }
  { case 2 then show ?case using "1.IH"(2) step by (cases "i = k") (auto split: if_splits) }
  { case 3 then show ?case using "1.IH"(3) step by (auto simp: char_boundary_def split: if_splits) }
qed

lemma summarize_short: "length s \<le> max_summary_bytes \<Longrightarrow> summarize_output s = Some s"
  by (simp add: summarize_output_def)

lemma head_cut:
  assumes "utf8 s" "n < length s"
  defines "k \<equiv> floor_char_boundary s n"
  shows "char_boundary s k" "k \<le> n" "n < k + 4" "utf8 (take k s)"
proof -
  obtain u c t where s: "s = u @ c @ t" "utf8 u" "utf8 c" "utf8 t" "length u \<le> n" "n < length (u @ c)" "length c \<le> 4"
    using utf8_boundary_near [OF assms(1,2)] .
  have k: "k = floor_loop s n" using assms(2) by (simp add: k_def floor_char_boundary_def)
  show b: "char_boundary s k" unfolding k using char_boundary_append [of s "[]"] assms(1)
    by (intro floor_loop_spec(3)) simp
  show "k \<le> n" unfolding k by (rule floor_loop_spec(1))
  have "utf8 (c @ t)" by (simp add: utf8_append s(3,4))
  then have "char_boundary s (length u)" using char_boundary_append [of "c @ t" u] s(1) by simp
  then have "length u \<le> k" unfolding k by (rule floor_loop_spec(2) [OF s(5)])
  then show "n < k + 4" using s(6,7) by simp
  have "k < length s" using \<open>k \<le> n\<close> assms(2) by simp
  then have "\<not> is_continuation (hd (drop k s))" using b by (simp add: char_boundary_def hd_drop_conv_nth)
  then show "utf8 (take k s)" using utf8_split [of "take k s" "drop k s"] assms(1) by simp
qed

lemma tail_cut:
  assumes "utf8 s" "n < length s"
  defines "k \<equiv> ceil_char_boundary s n"
  shows "char_boundary s k" "n \<le> k" "k < n + 4" "k \<le> length s" "utf8 (drop k s)"
proof -
  obtain u c t where s: "s = u @ c @ t" "utf8 u" "utf8 c" "utf8 t" "length u \<le> n" "n < length (u @ c)" "length c \<le> 4"
    using utf8_boundary_near [OF assms(1,2)] .
  have k: "k = ceil_loop s n" using assms(2) by (simp add: k_def ceil_char_boundary_def)
  show b: "char_boundary s k" unfolding k using assms(2) by (intro ceil_loop_spec(3)) simp
  show "n \<le> k" unfolding k by (rule ceil_loop_spec(1))
  show "k \<le> length s" using b by (auto simp: char_boundary_def split: if_splits)
  then have "drop k s = [] \<or> \<not> is_continuation (hd (drop k s))"
    using b by (auto simp: char_boundary_def hd_drop_conv_nth split: if_splits)
  then show "utf8 (drop k s)" using utf8_split [of "take k s" "drop k s"] assms(1) by simp
  show "k < n + 4"
  proof (cases "n = length u")
    case True
    have "utf8 (c @ t)" by (simp add: utf8_append s(3,4))
    then have "char_boundary s n" using char_boundary_append [of "c @ t" u] s(1) True by simp
    then show ?thesis unfolding k using ceil_loop_spec(2) [of n n s] by simp
  next
    case False
    have "char_boundary s (length (u @ c))" using char_boundary_append [OF s(4), of "u @ c"] s(1) by simp
    then have "k \<le> length (u @ c)" unfolding k using s(6) by (intro ceil_loop_spec(2)) simp_all
    then show ?thesis using s(5,7) False by simp
  qed
qed

text \<open>
  C28: the summary of a tool's output, \<open>summarize_output\<close> after \<open>String::from_utf8_lossy\<close>. For any bytes the
  summary is computed without a panic (no slice cuts a character) and is well-formed UTF-8. Output of at most
  1024 bytes is kept whole; longer output becomes its beginning, the marker line and its end, each end being
  509 to 512 bytes of the output, so that the summary is never longer than 1024 bytes and the marker.
\<close>

theorem output_summary:
  "case summarize_output (from_utf8_lossy bytes) of
     None \<Rightarrow> False
   | Some r \<Rightarrow> utf8 r \<and> length r \<le> max_summary_bytes + length truncation_marker \<and>
       (let s = from_utf8_lossy bytes in
        if length s \<le> 1024 then r = s
        else \<exists>h m t. s = h @ m @ t \<and> r = h @ truncation_marker @ t \<and>
               509 \<le> length h \<and> length h \<le> 512 \<and> 509 \<le> length t \<and> length t \<le> 512)"
proof -
  define s where "s = from_utf8_lossy bytes"
  have u: "utf8 s" by (simp add: s_def)
  show ?thesis
  proof (cases "length s \<le> 1024")
    case True
    then show ?thesis using u summarize_short [of s]
      by (simp add: s_def [symmetric] max_summary_bytes_def)
  next
    case False
    define h where "h = floor_char_boundary s head_bytes"
    define k where "k = ceil_char_boundary s (length s - tail_bytes)"
    have H: "char_boundary s h" "h \<le> 512" "512 < h + 4" "utf8 (take h s)"
      unfolding h_def using head_cut [OF u, of head_bytes] False by (simp_all add: head_bytes_def)
    have K: "char_boundary s k" "length s - 512 \<le> k" "k < length s - 512 + 4" "k \<le> length s" "utf8 (drop k s)"
      unfolding k_def using tail_cut [OF u, of "length s - tail_bytes"] False by (simp_all add: tail_bytes_def)
    let ?r = "take h s @ truncation_marker @ drop k s"
    have r: "summarize_output s = Some ?r"
      using False H(1) K(1) unfolding h_def k_def by (simp add: summarize_output_def max_summary_bytes_def)
    have "utf8 truncation_marker" by code_simp
    then have "utf8 ?r" using H(4) K(5) by (intro utf8_append)
    moreover have "s = take h s @ take (k - h) (drop h s) @ drop k s"
      using H(2) K(2) False by (simp add: append_assoc [symmetric] take_add [symmetric] del: append_assoc)
    moreover have "509 \<le> length (take h s)" "length (take h s) \<le> 512" "509 \<le> length (drop k s)"
      "length (drop k s) \<le> 512"
      using H(2,3) K(2-4) False by auto
    ultimately have "\<exists>h' m t. s = h' @ m @ t \<and> ?r = h' @ truncation_marker @ t \<and>
        509 \<le> length h' \<and> length h' \<le> 512 \<and> 509 \<le> length t \<and> length t \<le> 512"
      by (intro exI [of _ "take h s"] exI [of _ "take (k - h) (drop h s)"] exI [of _ "drop k s"]) simp
    moreover have "length ?r \<le> 1024 + length truncation_marker" using H(2) K(2) by auto
    ultimately show ?thesis using r False \<open>utf8 ?r\<close> unfolding s_def [symmetric] max_summary_bytes_def
      by (simp add: Let_def)
  qed
qed

section \<open>Assertions\<close>

datatype assertion_check =
    ExitCode "32 word"
  | StdoutContains string
  | StderrContains string
  | StdoutMatches string
  | SandboxAlive
  | CommandDuration "64 word"

record assertion_descriptor =
  as_id :: string
  as_name :: string
  as_description :: string
  as_category :: string
  as_checks :: "assertion_check list"

definition u64_string :: "64 word \<Rightarrow> string" where
  "u64_string w = nat_to_string (unat w)"

definition i32_string :: "32 word \<Rightarrow> string" where
  "i32_string w = int_to_string (sint w)"

fun check_evaluate ::
    "(string \<Rightarrow> string) \<Rightarrow> assertion_check \<Rightarrow> experience_record \<Rightarrow> bool \<times> string option" where
  "check_evaluate debug (ExitCode expected) r =
     (case ex_exit_code r of
        Some code \<Rightarrow>
          if code = expected then (True, None)
          else (False, Some (''expected exit code '' @ i32_string expected @ '', got '' @ i32_string code))
      | None \<Rightarrow> (False, Some (''expected exit code '' @ i32_string expected @ '', got none'')))"
| "check_evaluate debug (StdoutContains substring) r =
     (if str_contains substring (ex_stdout_summary r) then (True, None)
      else (False, Some (''stdout does not contain '' @ debug substring)))"
| "check_evaluate debug (StderrContains substring) r =
     (if str_contains substring (ex_stderr_summary r) then (True, None)
      else (False, Some (''stderr does not contain '' @ debug substring)))"
| "check_evaluate debug (StdoutMatches regex) r = (True, None)"
| "check_evaluate debug SandboxAlive r = (True, None)"
| "check_evaluate debug (CommandDuration max_ms) r =
     (case duration_ms r of
        Some dur \<Rightarrow>
          if dur \<le> max_ms then (True, None)
          else (False, Some (''command took '' @ u64_string dur @ ''ms, expected <= '' @ u64_string max_ms @ ''ms''))
      | None \<Rightarrow> (False, Some ''command still running, duration unknown''))"

text \<open>The derived \<open>Debug\<close> text of a check.\<close>

fun check_debug :: "(string \<Rightarrow> string) \<Rightarrow> assertion_check \<Rightarrow> string" where
  "check_debug debug (ExitCode n) = ''ExitCode { expected: '' @ i32_string n @ '' }''"
| "check_debug debug (StdoutContains s) = ''StdoutContains { substring: '' @ debug s @ '' }''"
| "check_debug debug (StderrContains s) = ''StderrContains { substring: '' @ debug s @ '' }''"
| "check_debug debug (StdoutMatches s) = ''StdoutMatches { regex: '' @ debug s @ '' }''"
| "check_debug debug SandboxAlive = ''SandboxAlive''"
| "check_debug debug (CommandDuration n) = ''CommandDuration { max_ms: '' @ u64_string n @ '' }''"

record check_result =
  cr_check :: string
  cr_passed :: bool
  cr_reason :: "string option"

record assertion_result =
  ar_passed :: bool
  ar_assertion_id :: string
  ar_check_results :: "check_result list"

text \<open>The closure that every evaluation of an assertion maps over its checks.\<close>

definition evaluate_one ::
    "(string \<Rightarrow> string) \<Rightarrow> experience_record \<Rightarrow> assertion_check \<Rightarrow> check_result" where
  "evaluate_one debug r check =
     (let (passed, reason) = check_evaluate debug check r
      in \<lparr>cr_check = check_debug debug check, cr_passed = passed, cr_reason = reason\<rparr>)"

definition evaluate_against ::
    "(string \<Rightarrow> string) \<Rightarrow> assertion_descriptor \<Rightarrow> experience_record \<Rightarrow> assertion_result" where
  "evaluate_against debug assertion r =
     (let results = map (evaluate_one debug r) (as_checks assertion)
      in \<lparr>ar_passed = list_all cr_passed results, ar_assertion_id = as_id assertion,
          ar_check_results = results\<rparr>)"

subsection \<open>The experience store\<close>

record 's experience_store =
  es_save :: "experience_record \<Rightarrow> ('s, unit) port_call"
  es_find_by_id :: "string \<Rightarrow> ('s, experience_record option) port_call"
  es_find_by_trace_id :: "string \<Rightarrow> ('s, experience_record list) port_call"
  es_list_all :: "nat \<Rightarrow> ('s, experience_record list) port_call"

definition record_experience :: "'s experience_store \<Rightarrow> experience_record \<Rightarrow> ('s, unit) port_call" where
  "record_experience S r = es_save S r"

definition evaluate_assertion ::
    "(string \<Rightarrow> string) \<Rightarrow> 's experience_store \<Rightarrow> assertion_descriptor \<Rightarrow> string \<Rightarrow>
     ('s, assertion_result) port_call" where
  "evaluate_assertion debug S assertion experience_id =
     and_then (es_find_by_id S experience_id) (\<lambda>found s.
       (try_bind (ok_or (NotFound (''experience '' @ [CHR 0x27] @ experience_id @ [CHR 0x27])) found) (\<lambda>r.
          let results = map (evaluate_one debug r) (as_checks assertion)
          in Ok \<lparr>ar_passed = list_all cr_passed results, ar_assertion_id = as_id assertion,
                 ar_check_results = results\<rparr>), s))"

text \<open>What a check demands of a record, apart from the wording of the reasons.\<close>

fun check_holds :: "assertion_check \<Rightarrow> experience_record \<Rightarrow> bool" where
  "check_holds (ExitCode n) r = (ex_exit_code r = Some n)"
| "check_holds (StdoutContains s) r = str_contains s (ex_stdout_summary r)"
| "check_holds (StderrContains s) r = str_contains s (ex_stderr_summary r)"
| "check_holds (StdoutMatches s) r = True"
| "check_holds SandboxAlive r = True"
| "check_holds (CommandDuration n) r = (\<exists>d. duration_ms r = Some d \<and> d \<le> n)"

lemma check_evaluate_holds:
  "fst (check_evaluate debug c r) \<longleftrightarrow> check_holds c r"
  "snd (check_evaluate debug c r) = None \<longleftrightarrow> check_holds c r"
  by (cases c; auto split: option.splits)+

lemma evaluate_one_simps [simp]:
  "cr_passed (evaluate_one debug r c) \<longleftrightarrow> check_holds c r"
  "cr_reason (evaluate_one debug r c) = None \<longleftrightarrow> check_holds c r"
  "cr_check (evaluate_one debug r c) = check_debug debug c"
  by (simp_all add: evaluate_one_def split_beta check_evaluate_holds)

lemma evaluate_against_simps [simp]:
  "ar_passed (evaluate_against debug a r) \<longleftrightarrow> list_all (\<lambda>c. check_holds c r) (as_checks a)"
  "ar_assertion_id (evaluate_against debug a r) = as_id a"
  "ar_check_results (evaluate_against debug a r) = map (evaluate_one debug r) (as_checks a)"
  by (simp_all add: evaluate_against_def Let_def list.pred_map comp_def)

end
