(* ===== verification/Catalog_Checks.thy ===== *)
theory Catalog_Checks
  imports Catalog_Records
begin

text \<open>
  Doctors and advice: \<open>bastion-domain/src/catalog/doctor.rs\<close> and \<open>advice.rs\<close>, and the use cases \<open>run_doctor.rs\<close>
  and \<open>suggest_advice.rs\<close> of \<open>bastion-application/src/catalog\<close>. The ports of a doctor run (the sandbox provider,
  the statistics of the pool, the experience store) answer from one outside world \<open>'w\<close>, which a call may
  change. A panic is \<open>None\<close>. The structures of \<open>doctor.rs\<close> that no code under \<open>src\<close> of these use cases fills
  in (\<open>RichCheckResult\<close> and its parts) are left out.
\<close>

section \<open>Text of errors\<close>

definition quote :: "string \<Rightarrow> string" where
  "quote s = [CHR 0x27] @ s @ [CHR 0x27]"

fun domain_error_display :: "domain_error \<Rightarrow> string" where
  "domain_error_display (NotFound s) = ''Sandbox not found: '' @ s"
| "domain_error_display (AlreadyExists s) = ''Sandbox '' @ quote s @ '' already exists''"
| "domain_error_display (Timeout s) = ''Sandbox timeout: '' @ s"
| "domain_error_display (UnsupportedOperation s) = ''Unsupported operation: '' @ s"
| "domain_error_display (ProviderUnavailable s) = ''Provider '' @ quote s @ '' is unavailable''"
| "domain_error_display (ResourceExhausted s) = ''Resource exhausted: '' @ s"
| "domain_error_display (PermissionDenied s) = ''Permission denied: '' @ s"
| "domain_error_display (CommandFailed code err) =
     ''Command failed with exit code '' @ i32_string code @ '': '' @ err"
| "domain_error_display (Config s) = ''Configuration error: '' @ s"
| "domain_error_display (Validation s) = ''Validation error: '' @ s"
| "domain_error_display (Internal s) = ''Internal error: '' @ s"
| "domain_error_display (PoisonedLock s) = ''Rate limiter lock poisoned: '' @ s"
| "domain_error_display (WorkerNotConnected s) =
     ''Worker not connected for sandbox '' @ quote s @
     ''. Sandbox creation may have failed or worker could not connect to registry.''"

text \<open>\<open>join("; ")\<close>.\<close>

fun join_reasons :: "string list \<Rightarrow> string" where
  "join_reasons [] = []"
| "join_reasons [s] = s"
| "join_reasons (s # ss) = s @ ''; '' @ join_reasons ss"

section \<open>Doctors\<close>

datatype severity = Critical | Warning | Info

datatype doctor_status = DoctorPass | DoctorFail | DoctorSkip | DoctorError

text \<open>Fields in the order of the source; \<open>usize\<close> is 64 bits wide.\<close>

datatype doctor_check =
    Aliveness "string option"
  | Resources "64 word option" "64 word option"
  | AssertionDriven string
  | ProviderAlive string
  | BinaryAvailable string "string option"
  | ImageAvailable string "string option"
  | KvmAvailable
  | CapabilitiesMet string "64 word option" "32 word option"
  | ConfigValid string
  | WorkerBinaryValid string

record doctor_descriptor =
  dd_id :: string
  dd_name :: string
  dd_description :: string
  dd_category :: string
  dd_severity :: severity
  dd_checks :: "doctor_check list"

record doctor_result =
  dr_doctor_id :: string
  dr_sandbox_id :: "string option"
  dr_status :: doctor_status
  dr_severity :: severity
  dr_trace_id :: string
  dr_check_results :: "check_result list"
  dr_rationale :: string
  dr_executed_at :: timestamp

definition doctor_result_new ::
    "timestamp \<Rightarrow> string \<Rightarrow> string option \<Rightarrow> string \<Rightarrow> severity \<Rightarrow> doctor_result" where
  "doctor_result_new now doctor_id sandbox trace_id sev =
     \<lparr>dr_doctor_id = doctor_id, dr_sandbox_id = sandbox, dr_status = DoctorPass, dr_severity = sev,
      dr_trace_id = trace_id, dr_check_results = [], dr_rationale = [], dr_executed_at = now\<rparr>"

definition add_check_result :: "check_result \<Rightarrow> doctor_result \<Rightarrow> doctor_result" where
  "add_check_result c r = r\<lparr>dr_check_results := dr_check_results r @ [c]\<rparr>"

definition finalize :: "doctor_result \<Rightarrow> doctor_result" where
  "finalize r =
     r\<lparr>dr_status := (if dr_check_results r = [] then DoctorSkip
                     else if list_all cr_passed (dr_check_results r) then DoctorPass
                     else DoctorFail)\<rparr>"

subsection \<open>Running one check\<close>

record template_idle =
  ti_template :: string
  ti_idle :: "64 word"

record doctor_pool_stats =
  dp_templates :: "template_idle list"
  dp_active :: "64 word"
  dp_idle :: "64 word"
  dp_total :: "64 word"

text \<open>What the use case holds: the three optional ports are absent where they are \<open>None\<close>.\<close>

record 'w doctor_ports =
  po_is_alive :: "sandbox_id \<Rightarrow> ('w, bool) port_call"
  po_pool_stats :: "('w \<Rightarrow> doctor_pool_stats) option"
  po_assertion :: "(string \<Rightarrow> assertion_descriptor option) option"
  po_store :: "'w experience_store option"

definition failed_check :: "string \<Rightarrow> string \<Rightarrow> check_result" where
  "failed_check name reason = \<lparr>cr_check = name, cr_passed = False, cr_reason = Some reason\<rparr>"

definition passed_check :: "string \<Rightarrow> check_result" where
  "passed_check name = \<lparr>cr_check = name, cr_passed = True, cr_reason = None\<rparr>"

definition run_aliveness ::
    "'w doctor_ports \<Rightarrow> sandbox_id \<Rightarrow> 'w \<Rightarrow> check_result \<times> 'w" where
  "run_aliveness P target w =
     (case po_is_alive P target w of
        (Inr True, w') \<Rightarrow> (passed_check ''Aliveness'', w')
      | (Inr False, w') \<Rightarrow> (failed_check ''Aliveness'' (''Sandbox '' @ target @ '' is not alive''), w')
      | (Inl e, w') \<Rightarrow>
          (failed_check ''Aliveness'' (''Aliveness check failed: '' @ domain_error_display e), w'))"

text \<open>The loop over the templates returns at the first that exceeds the limit.\<close>

fun idle_excess :: "64 word \<Rightarrow> template_idle list \<Rightarrow> check_result option" where
  "idle_excess max_idle [] = None"
| "idle_excess max_idle (t # ts) =
     (if ti_idle t > max_idle
      then Some (failed_check ''Resources''
             (''Template '' @ quote (ti_template t) @ '' idle '' @ u64_string (ti_idle t) @
              '' exceeds max '' @ u64_string max_idle))
      else idle_excess max_idle ts)"

definition total_excess :: "64 word \<Rightarrow> doctor_pool_stats \<Rightarrow> check_result option" where
  "total_excess max_total stats =
     (if dp_total stats > max_total
      then Some (failed_check ''Resources''
             (''Total sandboxes '' @ u64_string (dp_total stats) @ '' exceeds max '' @ u64_string max_total))
      else None)"

definition check_resources ::
    "64 word option \<Rightarrow> 64 word option \<Rightarrow> doctor_pool_stats \<Rightarrow> check_result" where
  "check_resources max_total max_idle stats =
     (case Option.bind max_total (\<lambda>m. total_excess m stats) of
        Some excess \<Rightarrow> excess
      | None \<Rightarrow>
          (case Option.bind max_idle (\<lambda>m. idle_excess m (dp_templates stats)) of
             Some excess \<Rightarrow> excess
           | None \<Rightarrow> passed_check ''Resources''))"

definition run_resources ::
    "'w doctor_ports \<Rightarrow> 64 word option \<Rightarrow> 64 word option \<Rightarrow> 'w \<Rightarrow> check_result \<times> 'w" where
  "run_resources P max_total max_idle w =
     (case po_pool_stats P of
        None \<Rightarrow> (failed_check ''Resources'' ''Pool manager not available'', w)
      | Some stats \<Rightarrow> (check_resources max_total max_idle (stats w), w))"

text \<open>The most recent record of a trace: the records sorted by their start, latest first.\<close>

definition latest_record :: "experience_record list \<Rightarrow> experience_record option" where
  "latest_record records =
     (case sort_key (\<lambda>r. - ex_started_at r) records of [] \<Rightarrow> None | r # _ \<Rightarrow> Some r)"

definition find_experience ::
    "'w doctor_ports \<Rightarrow> string option \<Rightarrow> 'w \<Rightarrow> experience_record option \<times> 'w" where
  "find_experience P sandbox w =
     (case (po_store P, sandbox) of
        (Some store, Some target) \<Rightarrow>
          (case es_find_by_trace_id store target w of
             (Inr records, w') \<Rightarrow> (latest_record records, w')
           | (Inl _, w') \<Rightarrow> (None, w'))
      | _ \<Rightarrow> (None, w))"

definition assertion_check_name :: "string \<Rightarrow> string" where
  "assertion_check_name i = ''AssertionDriven('' @ i @ '')''"

definition reason_or_failed :: "check_result \<Rightarrow> string" where
  "reason_or_failed c = (case cr_reason c of Some r \<Rightarrow> r | None \<Rightarrow> ''failed'')"

definition judge_assertion ::
    "(string \<Rightarrow> string) \<Rightarrow> string \<Rightarrow> assertion_descriptor \<Rightarrow> experience_record option \<Rightarrow> check_result" where
  "judge_assertion debug i assertion found =
     (case found of
        None \<Rightarrow> failed_check (assertion_check_name i)
                  (''No experience record found for assertion '' @ quote i)
      | Some r \<Rightarrow>
          (let results = map (evaluate_one debug r) (as_checks assertion);
               all_passed = list_all cr_passed results
           in \<lparr>cr_check = assertion_check_name i, cr_passed = all_passed,
               cr_reason = (if all_passed then None
                            else Some (join_reasons (map reason_or_failed
                                    (filter (\<lambda>c. \<not> cr_passed c) results))))\<rparr>))"

definition run_assertion_driven ::
    "(string \<Rightarrow> string) \<Rightarrow> 'w doctor_ports \<Rightarrow> string \<Rightarrow> string option \<Rightarrow> 'w \<Rightarrow> check_result \<times> 'w" where
  "run_assertion_driven debug P i sandbox w =
     (case Option.bind (po_assertion P) (\<lambda>lookup. lookup i) of
        None \<Rightarrow> (failed_check (assertion_check_name i) (''Assertion '' @ quote i @ '' not found''), w)
      | Some assertion \<Rightarrow>
          (let (found, w') = find_experience P sandbox w in (judge_assertion debug i assertion found, w')))"

text \<open>The checks that need the host; the use case answers each of them with a failure.\<close>

fun infrastructure_name :: "doctor_check \<Rightarrow> string option" where
  "infrastructure_name (ProviderAlive p) = Some ''ProviderAlive''"
| "infrastructure_name (BinaryAvailable n p) = Some ''BinaryAvailable''"
| "infrastructure_name (ImageAvailable p i) = Some ''ImageAvailable''"
| "infrastructure_name KvmAvailable = Some ''KvmAvailable''"
| "infrastructure_name (CapabilitiesMet p m c) = Some ''CapabilitiesMet''"
| "infrastructure_name (ConfigValid p) = Some ''ConfigValid''"
| "infrastructure_name (WorkerBinaryValid p) = Some ''WorkerBinaryValid''"
| "infrastructure_name _ = None"

definition unsupported_check :: "string \<Rightarrow> string \<Rightarrow> check_result" where
  "unsupported_check place name = failed_check name (name @ '' check not supported in '' @ place)"

fun run_check ::
    "(string \<Rightarrow> string) \<Rightarrow> 'w doctor_ports \<Rightarrow> string option \<Rightarrow> doctor_check \<Rightarrow> 'w \<Rightarrow>
     (check_result \<times> 'w) option" where
  "run_check debug P sandbox (Aliveness override) w =
     map_option (\<lambda>target. run_aliveness P target w)
       (case override of Some i \<Rightarrow> Some i | None \<Rightarrow> sandbox)"
| "run_check debug P sandbox (Resources max_total max_idle) w = Some (run_resources P max_total max_idle w)"
| "run_check debug P sandbox (AssertionDriven i) w = Some (run_assertion_driven debug P i sandbox w)"
| "run_check debug P sandbox check w =
     map_option (\<lambda>name. (unsupported_check ''RunDoctor use case'' name, w)) (infrastructure_name check)"

subsection \<open>Running a doctor\<close>

definition rationale_part :: "check_result \<Rightarrow> string" where
  "rationale_part c = cr_check c @ '': '' @ reason_or_failed c"

text \<open>
  The loop over the checks, with the result under construction, whether all passed so far, and the parts of
  the rationale.
\<close>

fun doctor_loop ::
    "('c \<Rightarrow> 'w \<Rightarrow> (check_result \<times> 'w) option) \<Rightarrow> 'c list \<Rightarrow> doctor_result \<times> bool \<times> string list \<Rightarrow>
     'w \<Rightarrow> ((doctor_result \<times> bool \<times> string list) \<times> 'w) option" where
  "doctor_loop run [] acc w = Some (acc, w)"
| "doctor_loop run (check # checks) (res, all_passed, parts) w =
     (case run check w of
        None \<Rightarrow> None
      | Some (c, w') \<Rightarrow>
          doctor_loop run checks
            (add_check_result c res, all_passed \<and> cr_passed c,
             if \<not> cr_passed c then parts @ [rationale_part c] else parts) w')"

definition passed_rationale :: "string \<Rightarrow> nat \<Rightarrow> string \<Rightarrow> string" where
  "passed_rationale name n sandbox =
     ''Doctor '' @ quote name @ '' passed all '' @ nat_to_string n @ '' checks for sandbox '' @ quote sandbox"

definition conclude_doctor ::
    "string \<Rightarrow> string \<Rightarrow> doctor_result \<times> bool \<times> string list \<Rightarrow> doctor_result" where
  "conclude_doctor name sandbox acc =
     (case acc of (res, all_passed, parts) \<Rightarrow>
        finalize (res\<lparr>dr_rationale :=
          (if all_passed then passed_rationale name (length (dr_check_results res)) sandbox
           else join_reasons parts)\<rparr>))"

definition run_doctor ::
    "(string \<Rightarrow> string) \<Rightarrow> timestamp \<Rightarrow> 'w doctor_ports \<Rightarrow> doctor_descriptor \<Rightarrow> string option \<Rightarrow> string \<Rightarrow>
     'w \<Rightarrow> (doctor_result \<times> 'w) option" where
  "run_doctor debug now P d sandbox trace_id w =
     map_option (\<lambda>(acc, w'). (conclude_doctor (dd_name d) (case sandbox of Some s \<Rightarrow> s | None \<Rightarrow> ''(none)'') acc, w'))
       (doctor_loop (run_check debug P sandbox) (dd_checks d)
         (doctor_result_new now (dd_id d) sandbox trace_id (dd_severity d), True, []) w)"

subsection \<open>What a doctor run reports\<close>

text \<open>The results of the checks, run one after the other.\<close>

fun run_all ::
    "('c \<Rightarrow> 'w \<Rightarrow> (check_result \<times> 'w) option) \<Rightarrow> 'c list \<Rightarrow> 'w \<Rightarrow> (check_result list \<times> 'w) option" where
  "run_all run [] w = Some ([], w)"
| "run_all run (check # checks) w =
     Option.bind (run check w) (\<lambda>(c, w'). map_option (\<lambda>(cs, w''). (c # cs, w'')) (run_all run checks w'))"

definition failures :: "check_result list \<Rightarrow> check_result list" where
  "failures cs = filter (\<lambda>c. \<not> cr_passed c) cs"

lemma failures_Nil_iff: "failures cs = [] \<longleftrightarrow> list_all cr_passed cs"
  by (auto simp: failures_def filter_empty_conv list_all_iff)

definition add_results :: "doctor_result \<times> bool \<times> string list \<Rightarrow> check_result list \<Rightarrow> doctor_result \<times> bool \<times> string list" where
  "add_results acc cs =
     (case acc of (res, all_passed, parts) \<Rightarrow>
        (res\<lparr>dr_check_results := dr_check_results res @ cs\<rparr>, all_passed \<and> list_all cr_passed cs,
         parts @ map rationale_part (failures cs)))"

lemma doctor_loop_run_all:
  "doctor_loop run checks acc w =
     map_option (\<lambda>(cs, w'). (add_results acc cs, w')) (run_all run checks w)"
proof (induction run checks acc w rule: doctor_loop.induct)
  case (2 run check checks res all_passed parts w)
  show ?case
  proof (cases "run check w")
    case (Some cw)
    obtain c w' where cw: "cw = (c, w')" by fastforce
    show ?thesis using 2 [OF Some cw [symmetric]] Some cw
      by (auto simp: add_results_def failures_def add_check_result_def option.map_comp comp_def
          split_beta intro!: option.map_cong)
  qed simp
qed (simp add: add_results_def failures_def split: prod.split)

lemma run_all_None_iff:
  assumes "\<And>c w. (run c w = None) = bad c"
  shows "run_all run checks w = None \<longleftrightarrow> list_ex bad checks"
proof (induction checks arbitrary: w)
  case (Cons c checks)
  show ?case using Cons assms [of c w] by (cases "run c w") auto
qed simp

definition lacks_target :: "string option \<Rightarrow> doctor_check \<Rightarrow> bool" where
  "lacks_target sandbox check = (sandbox = None \<and> check = Aliveness None)"

lemma run_check_None_iff: "(run_check debug P sandbox check w = None) = lacks_target sandbox check"
  by (cases check) (auto simp: lacks_target_def split: option.splits)

lemma run_resources_reason:
  "cr_reason (fst (run_resources P t i w)) = None \<longleftrightarrow> cr_passed (fst (run_resources P t i w))"
proof -
  have idle: "idle_excess m ts = Some c \<Longrightarrow> \<not> cr_passed c \<and> cr_reason c \<noteq> None" for m ts c
    by (induction ts) (auto simp: failed_check_def split: if_splits)
  show ?thesis
    by (auto simp: run_resources_def check_resources_def total_excess_def failed_check_def passed_check_def
        bind_eq_Some_conv dest: idle split: option.splits if_splits)
qed

lemma run_aliveness_reason:
  "cr_reason (fst (run_aliveness P i w)) = None \<longleftrightarrow> cr_passed (fst (run_aliveness P i w))"
  by (simp add: run_aliveness_def failed_check_def passed_check_def split: prod.split sum.split bool.split)

lemma run_check_reason:
  assumes "run_check debug P sandbox check w = Some (c, w')"
  shows "cr_reason c = None \<longleftrightarrow> cr_passed c"
proof (cases check)
  case (Aliveness i)
  then obtain target where "run_aliveness P target w = (c, w')" using assms by auto
  then show ?thesis using run_aliveness_reason [of P target w] by simp
next
  case (Resources t i)
  then show ?thesis using assms run_resources_reason [of P t i w] by simp
next
  case (AssertionDriven i)
  then show ?thesis using assms
    by (auto simp: run_assertion_driven_def judge_assertion_def failed_check_def Let_def
        split: prod.splits option.splits if_splits)
qed (use assms in \<open>auto simp: unsupported_check_def failed_check_def\<close>)

lemma run_all_reasons:
  "run_all (run_check debug P sandbox) checks w = Some (cs, w') \<Longrightarrow>
     list_all (\<lambda>c. (cr_reason c = None) = cr_passed c) cs \<and> length cs = length checks"
proof (induction checks arbitrary: w cs)
  case (Cons check checks)
  then show ?case by (auto simp: bind_eq_Some_conv run_check_reason)
qed simp

definition doctor_status_of :: "check_result list \<Rightarrow> doctor_status" where
  "doctor_status_of cs =
     (if cs = [] then DoctorSkip else if failures cs = [] then DoctorPass else DoctorFail)"

lemma conclude_add_results:
  "conclude_doctor name sandbox (add_results (doctor_result_new now i sb tr sev, True, []) cs) =
     \<lparr>dr_doctor_id = i, dr_sandbox_id = sb, dr_status = doctor_status_of cs, dr_severity = sev,
      dr_trace_id = tr, dr_check_results = cs,
      dr_rationale = (if failures cs = [] then passed_rationale name (length cs) sandbox
                      else join_reasons (map rationale_part (failures cs))),
      dr_executed_at = now\<rparr>"
  by (simp add: conclude_doctor_def add_results_def doctor_result_new_def finalize_def doctor_status_of_def
      failures_Nil_iff)

text \<open>
  C29: what a doctor run reports. The run panics exactly when it has no sandbox and a check asks whether \<open>the\<close>
  sandbox is alive. Otherwise it runs every check, in order, whatever the earlier ones gave; the status is
  \<open>Skip\<close> for a doctor without checks, \<open>Pass\<close> when every check passed and \<open>Fail\<close> otherwise; the rationale
  names the checks that failed, with their reasons, and no others. A check comes with a reason if and only if
  it failed.
\<close>

theorem doctor_run_report:
  "case run_doctor debug now P d sandbox trace w of
     None \<Rightarrow> sandbox = None \<and> Aliveness None \<in> set (dd_checks d)
   | Some (r, w') \<Rightarrow>
       \<not> (sandbox = None \<and> Aliveness None \<in> set (dd_checks d)) \<and>
       run_all (run_check debug P sandbox) (dd_checks d) w = Some (dr_check_results r, w') \<and>
       length (dr_check_results r) = length (dd_checks d) \<and>
       (dr_status r = DoctorSkip \<longleftrightarrow> dd_checks d = []) \<and>
       (dr_status r = DoctorPass \<longleftrightarrow> dd_checks d \<noteq> [] \<and> list_all cr_passed (dr_check_results r)) \<and>
       (dr_status r = DoctorFail \<longleftrightarrow> failures (dr_check_results r) \<noteq> []) \<and>
       list_all (\<lambda>c. (cr_reason c = None) = cr_passed c) (dr_check_results r) \<and>
       dr_rationale r =
         (if failures (dr_check_results r) = []
          then passed_rationale (dd_name d) (length (dd_checks d)) (case sandbox of Some s \<Rightarrow> s | None \<Rightarrow> ''(none)'')
          else join_reasons (map rationale_part (failures (dr_check_results r))))"
proof -
  have none: "run_all (run_check debug P sandbox) (dd_checks d) w = None \<longleftrightarrow>
      sandbox = None \<and> Aliveness None \<in> set (dd_checks d)"
    using run_all_None_iff [of "run_check debug P sandbox" "lacks_target sandbox", OF run_check_None_iff]
    by (auto simp: lacks_target_def list_ex_iff)
  show ?thesis
  proof (cases "run_all (run_check debug P sandbox) (dd_checks d) w")
    case None
    then show ?thesis using none by (simp add: run_doctor_def doctor_loop_run_all)
  next
    case (Some csw)
    obtain cs w' where csw: "csw = (cs, w')" by fastforce
    have cs: "list_all (\<lambda>c. (cr_reason c = None) = cr_passed c) cs" "length cs = length (dd_checks d)"
      using run_all_reasons [OF Some [unfolded csw]] by simp_all
    then have "cs = [] \<longleftrightarrow> dd_checks d = []" by auto
    then show ?thesis using none Some cs
      by (auto simp: run_doctor_def doctor_loop_run_all csw conclude_add_results doctor_status_of_def
          failures_Nil_iff)
  qed
qed

section \<open>Advice\<close>

datatype advice_severity = AdviceCritical | AdviceWarning | AdviceHint

fun advice_sort_key :: "advice_severity \<Rightarrow> nat" where
  "advice_sort_key AdviceCritical = 0"
| "advice_sort_key AdviceWarning = 1"
| "advice_sort_key AdviceHint = 2"

datatype advice_trigger =
    AssertionFailed string
  | DoctorFailed string
  | ExperiencePattern string string "32 word"

record advice_descriptor =
  ad_id :: string
  ad_name :: string
  ad_description :: string
  ad_category :: string
  ad_severity :: advice_severity
  ad_triggers :: "advice_trigger list"
  ad_message :: string
  ad_suggested_actions :: "string list"
  ad_hint :: "string option"

record advice_result =
  av_advice_id :: string
  av_triggered_by :: advice_trigger
  av_message :: string
  av_context :: json
  av_suggested_actions :: "string list"
  av_severity :: advice_severity

definition advice_result_new ::
    "string \<Rightarrow> advice_trigger \<Rightarrow> string \<Rightarrow> string list \<Rightarrow> advice_severity \<Rightarrow> advice_result" where
  "advice_result_new i t message actions sev =
     \<lparr>av_advice_id = i, av_triggered_by = t, av_message = message, av_context = JNull,
      av_suggested_actions = actions, av_severity = sev\<rparr>"

record experience_hint =
  eh_tool_name :: string
  eh_status :: string
  eh_count :: "32 word"

record suggest_advice_context =
  sc_assertion_failures :: "string list"
  sc_doctor_failures :: "string list"
  sc_experience_hints :: "experience_hint list"

fun trigger_matches :: "suggest_advice_context \<Rightarrow> advice_trigger \<Rightarrow> bool" where
  "trigger_matches ctx (AssertionFailed i) = (i \<in> set (sc_assertion_failures ctx))"
| "trigger_matches ctx (DoctorFailed i) = (i \<in> set (sc_doctor_failures ctx))"
| "trigger_matches ctx (ExperiencePattern tool status threshold) =
     list_ex (\<lambda>h. eh_tool_name h = tool \<and> eh_status h = status \<and> eh_count h \<ge> threshold)
       (sc_experience_hints ctx)"

fun evaluate_triggers :: "suggest_advice_context \<Rightarrow> advice_trigger list \<Rightarrow> advice_trigger option" where
  "evaluate_triggers ctx [] = None"
| "evaluate_triggers ctx (t # ts) = (if trigger_matches ctx t then Some t else evaluate_triggers ctx ts)"

text \<open>The loop over the descriptors, with the results so far; \<open>sort_by_key\<close> is stable, as \<open>sort_key\<close> is.\<close>

fun suggest_loop ::
    "suggest_advice_context \<Rightarrow> advice_descriptor list \<Rightarrow> advice_result list \<Rightarrow> advice_result list" where
  "suggest_loop ctx [] results = results"
| "suggest_loop ctx (d # ds) results =
     suggest_loop ctx ds
       (case evaluate_triggers ctx (ad_triggers d) of
          None \<Rightarrow> results
        | Some t \<Rightarrow> results @ [advice_result_new (ad_id d) t (ad_message d) (ad_suggested_actions d) (ad_severity d)])"

definition suggest :: "suggest_advice_context \<Rightarrow> advice_descriptor list \<Rightarrow> advice_result list" where
  "suggest ctx all_advice = sort_key (\<lambda>r. advice_sort_key (av_severity r)) (suggest_loop ctx all_advice [])"

subsection \<open>The configuration of advice\<close>

record advice_config =
  ac_enabled :: bool
  ac_disabled :: "string list"

definition is_disabled :: "string \<Rightarrow> advice_config \<Rightarrow> bool" where
  "is_disabled i cfg = (i \<in> set (ac_disabled cfg))"

definition default_enabled :: advice_config where
  "default_enabled = \<lparr>ac_enabled = True, ac_disabled = []\<rparr>"

subsection \<open>What is suggested\<close>

definition advice_for :: "suggest_advice_context \<Rightarrow> advice_descriptor \<Rightarrow> advice_result option" where
  "advice_for ctx d =
     map_option (\<lambda>t. advice_result_new (ad_id d) t (ad_message d) (ad_suggested_actions d) (ad_severity d))
       (find (trigger_matches ctx) (ad_triggers d))"

lemma evaluate_triggers_find: "evaluate_triggers ctx ts = find (trigger_matches ctx) ts"
  by (induction ts) auto

lemma suggest_loop_map_filter: "suggest_loop ctx ds results = results @ List.map_filter (advice_for ctx) ds"
  by (induction ctx ds results rule: suggest_loop.induct)
    (auto simp: evaluate_triggers_find advice_for_def map_filter_simps split: option.splits)

lemma advice_for_severity: "advice_for ctx d = Some r \<Longrightarrow> av_severity r = ad_severity d"
  by (auto simp: advice_for_def advice_result_new_def)

lemma map_filter_filter: "List.map_filter f (filter p xs) = List.map_filter (\<lambda>x. if p x then f x else None) xs"
  by (induction xs) (auto simp: map_filter_simps split: option.splits)

lemma filter_map_filter: "filter q (List.map_filter f xs) = List.map_filter (\<lambda>x. Option.bind (f x) (\<lambda>y. if q y then Some y else None)) xs"
  by (induction xs) (auto simp: map_filter_simps split: option.splits)

lemma suggest_of_severity:
  "filter (\<lambda>r. av_severity r = sev) (suggest ctx ds) =
     List.map_filter (advice_for ctx) (filter (\<lambda>d. ad_severity d = sev) ds)"
proof -
  have key: "av_severity r = sev \<longleftrightarrow> advice_sort_key (av_severity r) = advice_sort_key sev" for r :: advice_result
    by (cases "av_severity r"; cases sev) simp_all
  have "filter (\<lambda>r. av_severity r = sev) (suggest ctx ds) =
      filter (\<lambda>r. av_severity r = sev) (List.map_filter (advice_for ctx) ds)"
    unfolding suggest_def suggest_loop_map_filter key by (simp add: sort_key_stable)
  also have "\<dots> = List.map_filter (advice_for ctx) (filter (\<lambda>d. ad_severity d = sev) ds)"
    unfolding filter_map_filter map_filter_filter
    by (rule arg_cong [of _ _ "\<lambda>f. List.map_filter f ds"])
      (auto simp: fun_eq_iff advice_for_severity split: bind_split)
  finally show ?thesis .
qed

lemma sorted_by_severity:
  "sorted (map (\<lambda>r. advice_sort_key (av_severity r)) xs) \<Longrightarrow>
     filter (\<lambda>r. av_severity r = AdviceCritical) xs @ filter (\<lambda>r. av_severity r = AdviceWarning) xs @
     filter (\<lambda>r. av_severity r = AdviceHint) xs = xs"
proof (induction xs)
  case (Cons x xs)
  have "filter (\<lambda>r. av_severity r = sev) xs = []" if "advice_sort_key sev < advice_sort_key (av_severity x)" for sev
    using Cons.prems that by (auto simp: filter_empty_conv)
  from this [of AdviceCritical] this [of AdviceWarning] Cons show ?case
    by (cases "av_severity x") simp_all
qed simp

text \<open>
  C30: what advice a context calls for. The suggestions are those of the critical advice, then of the warnings,
  then of the hints; within one severity they come in the order of the registry, one for every descriptor
  with a trigger that the context satisfies and naming the first such trigger.
\<close>

theorem suggest_declarative:
  "suggest ctx ds = concat (map (\<lambda>sev. List.map_filter (advice_for ctx) (filter (\<lambda>d. ad_severity d = sev) ds))
     [AdviceCritical, AdviceWarning, AdviceHint])"
proof -
  have "sorted (map (\<lambda>r. advice_sort_key (av_severity r)) (suggest ctx ds))" by (simp add: suggest_def)
  from sorted_by_severity [OF this] show ?thesis by (simp add: suggest_of_severity)
qed

end
