(* ===== verification/Catalog_Files.thy ===== *)
theory Catalog_Files
  imports Catalog_Checks "HOL-Library.AList"
begin

text \<open>
  The catalog on disk: \<open>toml_assertion_parser.rs\<close>, \<open>toml_doctor_parser.rs\<close> and \<open>toml_advice_parser.rs\<close> of
  \<open>bastion-infrastructure/src/catalog\<close>. The file system and the TOML library are arguments; what \<open>serde\<close>
  makes of a file is a value of the structures below. A hash map is an association list in the order in which it
  happens to be iterated. The registries' locks are never poisoned, since nothing panics while one is held.
\<close>

section \<open>Files\<close>

record catalog_fs =
  fs_exists :: "string \<Rightarrow> bool"
  fs_read_dir :: "string \<Rightarrow> (string, (string, string) result list) result"
  fs_read_to_string :: "string \<Rightarrow> (string, string) result"

text \<open>The error types of the three parsers, with the text of the error inside.\<close>

datatype catalog_error = ReadDir string | TomlParse string | TomlSerialize string | EntryNotFound string

definition file_name :: "string \<Rightarrow> string" where
  "file_name path = last (split_on (CHR ''/'') path)"

text \<open>\<open>Path::extension\<close>: what follows the last dot of the name, unless that dot begins the name.\<close>

definition extension :: "string \<Rightarrow> string option" where
  "extension path =
     (let parts = split_on (CHR ''.'') (file_name path)
      in if file_name path = ''..'' \<or> join_with (CHR ''.'') (butlast parts) = [] then None
         else Some (last parts))"

definition is_toml :: "string \<Rightarrow> bool" where
  "is_toml path = (extension path = Some ''toml'')"

section \<open>Assertion files\<close>

datatype toml_check =
    TomlExitCode "32 word"
  | TomlStdoutContains string
  | TomlStderrContains string
  | TomlStdoutMatches string
  | TomlSandboxAlive
  | TomlCommandDuration "64 word"

text \<open>A section \<open>[assertion]\<close>; defaults are filled in by \<open>serde\<close>.\<close>

record toml_assertion =
  ta_id :: string
  ta_name :: string
  ta_description :: string
  ta_category :: string
  ta_check :: "toml_check option"
  ta_checks :: "toml_check list"

text \<open>\<open>s.replace('\', "\\").replace('\'', "\'")\<close>.\<close>

definition escape_cel_string :: "string \<Rightarrow> string" where
  "escape_cel_string s =
     concat (map (\<lambda>c. if c = CHR 0x27 then [CHR 0x5C, CHR 0x27] else [c])
       (concat (map (\<lambda>c. if c = CHR 0x5C then [CHR 0x5C, CHR 0x5C] else [c]) s)))"

fun check_cel_condition :: "toml_check \<Rightarrow> string option" where
  "check_cel_condition (TomlExitCode expected) = Some (''exit_code == '' @ i32_string expected)"
| "check_cel_condition (TomlStdoutContains s) =
     Some (''stdout_contains('' @ quote (escape_cel_string s) @ '')'')"
| "check_cel_condition (TomlStderrContains s) =
     Some (''stderr_contains('' @ quote (escape_cel_string s) @ '')'')"
| "check_cel_condition (TomlStdoutMatches regex) =
     Some (''stdout_matches('' @ quote (escape_cel_string regex) @ '')'')"
| "check_cel_condition TomlSandboxAlive = None"
| "check_cel_condition (TomlCommandDuration max_ms) = Some (''duration_lt('' @ u64_string max_ms @ '')'')"

fun into_assertion_check :: "toml_check \<Rightarrow> assertion_check" where
  "into_assertion_check (TomlExitCode n) = ExitCode n"
| "into_assertion_check (TomlStdoutContains s) = StdoutContains s"
| "into_assertion_check (TomlStderrContains s) = StderrContains s"
| "into_assertion_check (TomlStdoutMatches s) = StdoutMatches s"
| "into_assertion_check TomlSandboxAlive = SandboxAlive"
| "into_assertion_check (TomlCommandDuration n) = CommandDuration n"

fun from_assertion_check :: "assertion_check \<Rightarrow> toml_check" where
  "from_assertion_check (ExitCode n) = TomlExitCode n"
| "from_assertion_check (StdoutContains s) = TomlStdoutContains s"
| "from_assertion_check (StderrContains s) = TomlStderrContains s"
| "from_assertion_check (StdoutMatches s) = TomlStdoutMatches s"
| "from_assertion_check SandboxAlive = TomlSandboxAlive"
| "from_assertion_check (CommandDuration n) = TomlCommandDuration n"

definition into_assertion_descriptor :: "toml_assertion \<Rightarrow> assertion_descriptor" where
  "into_assertion_descriptor a =
     (let all_checks = (case ta_check a of None \<Rightarrow> [] | Some c \<Rightarrow> [into_assertion_check c]) @
                       map into_assertion_check (ta_checks a)
      in \<lparr>as_id = ta_id a, as_name = ta_name a, as_description = ta_description a,
          as_category = ta_category a,
          as_checks = (if all_checks = [] then [ExitCode 0] else all_checks)\<rparr>)"

type_synonym assertion_registry = "(string \<times> assertion_descriptor) list"

definition assertion_load_file ::
    "catalog_fs \<Rightarrow> (string \<Rightarrow> (string, toml_assertion) result) \<Rightarrow> string \<Rightarrow>
     (catalog_error, assertion_descriptor) result" where
  "assertion_load_file fs toml path =
     (case fs_read_to_string fs path of
        Inl e \<Rightarrow> Err (ReadDir e)
      | Inr content \<Rightarrow>
          (case toml content of Inl e \<Rightarrow> Err (TomlParse e) | Inr a \<Rightarrow> Ok (into_assertion_descriptor a)))"

fun assertion_load_loop ::
    "(string \<Rightarrow> (catalog_error, assertion_descriptor) result) \<Rightarrow> (string, string) result list \<Rightarrow> nat \<Rightarrow>
     assertion_registry \<Rightarrow> (catalog_error, nat) result \<times> assertion_registry" where
  "assertion_load_loop load [] loaded reg = (Ok loaded, reg)"
| "assertion_load_loop load (Inl e # entries) loaded reg = (Err (ReadDir e), reg)"
| "assertion_load_loop load (Inr path # entries) loaded reg =
     (if \<not> is_toml path then assertion_load_loop load entries loaded reg
      else case load path of
             Inr a \<Rightarrow> assertion_load_loop load entries (loaded + 1) (AList.update (as_id a) a reg)
           | Inl e \<Rightarrow> assertion_load_loop load entries loaded reg)"

definition assertion_load_from_dir ::
    "catalog_fs \<Rightarrow> (string \<Rightarrow> (string, toml_assertion) result) \<Rightarrow> string \<Rightarrow> assertion_registry \<Rightarrow>
     (catalog_error, nat) result \<times> assertion_registry" where
  "assertion_load_from_dir fs toml dir reg =
     (if \<not> fs_exists fs dir then (Ok 0, reg)
      else case fs_read_dir fs dir of
             Inl e \<Rightarrow> (Err (ReadDir e), reg)
           | Inr entries \<Rightarrow> assertion_load_loop (assertion_load_file fs toml) entries 0 reg)"

definition assertion_get :: "assertion_registry \<Rightarrow> string \<Rightarrow> assertion_descriptor option" where
  "assertion_get reg i = map_of reg i"

definition assertion_list :: "assertion_registry \<Rightarrow> assertion_descriptor list" where
  "assertion_list reg = map snd reg"

section \<open>Doctor files\<close>

datatype toml_doctor_check =
    TomlAliveness "string option"
  | TomlResources "64 word option" "64 word option"
  | TomlAssertionDriven string
  | TomlProviderAlive string
  | TomlBinaryAvailable string "string option"
  | TomlImageAvailable string "string option"
  | TomlKvmAvailable
  | TomlCapabilitiesMet string "64 word option" "32 word option"
  | TomlConfigValid string
  | TomlWorkerBinaryValid string

record toml_doctor =
  td_id :: string
  td_name :: string
  td_description :: string
  td_category :: string
  td_severity :: severity
  td_checks :: "toml_doctor_check list"

fun doctor_cel_condition :: "toml_doctor_check \<Rightarrow> string option" where
  "doctor_cel_condition (TomlAssertionDriven i) =
     Some (''fact('' @ quote (''assertion:'' @ i) @ '') == '' @ quote ''passed'')"
| "doctor_cel_condition _ = None"

fun into_doctor_check :: "toml_doctor_check \<Rightarrow> doctor_check" where
  "into_doctor_check (TomlAliveness s) = Aliveness s"
| "into_doctor_check (TomlResources t i) = Resources t i"
| "into_doctor_check (TomlAssertionDriven i) = AssertionDriven i"
| "into_doctor_check (TomlProviderAlive p) = ProviderAlive p"
| "into_doctor_check (TomlBinaryAvailable n p) = BinaryAvailable n p"
| "into_doctor_check (TomlImageAvailable p i) = ImageAvailable p i"
| "into_doctor_check TomlKvmAvailable = KvmAvailable"
| "into_doctor_check (TomlCapabilitiesMet p m c) = CapabilitiesMet p m c"
| "into_doctor_check (TomlConfigValid p) = ConfigValid p"
| "into_doctor_check (TomlWorkerBinaryValid p) = WorkerBinaryValid p"

definition into_doctor_descriptor :: "toml_doctor \<Rightarrow> doctor_descriptor" where
  "into_doctor_descriptor d =
     \<lparr>dd_id = td_id d, dd_name = td_name d, dd_description = td_description d,
      dd_category = td_category d, dd_severity = td_severity d,
      dd_checks = map into_doctor_check (td_checks d)\<rparr>"

record doctor_registry =
  dg_doctors :: "(string \<times> doctor_descriptor) list"
  dg_sources :: "(string \<times> string) list"

definition doctor_load_file ::
    "catalog_fs \<Rightarrow> (string \<Rightarrow> (string, toml_doctor) result) \<Rightarrow> string \<Rightarrow>
     (catalog_error, doctor_descriptor \<times> string) result" where
  "doctor_load_file fs toml path =
     (case fs_read_to_string fs path of
        Inl e \<Rightarrow> Err (ReadDir e)
      | Inr content \<Rightarrow>
          (case toml content of
             Inl e \<Rightarrow> Err (TomlParse e)
           | Inr d \<Rightarrow> Ok (into_doctor_descriptor d, content)))"

definition doctor_insert :: "doctor_descriptor \<times> string \<Rightarrow> doctor_registry \<Rightarrow> doctor_registry" where
  "doctor_insert ds reg =
     \<lparr>dg_doctors = AList.update (dd_id (fst ds)) (fst ds) (dg_doctors reg),
      dg_sources = AList.update (dd_id (fst ds)) (snd ds) (dg_sources reg)\<rparr>"

fun doctor_load_loop ::
    "(string \<Rightarrow> (catalog_error, doctor_descriptor \<times> string) result) \<Rightarrow> (string, string) result list \<Rightarrow> nat \<Rightarrow>
     doctor_registry \<Rightarrow> (catalog_error, nat) result \<times> doctor_registry" where
  "doctor_load_loop load [] loaded reg = (Ok loaded, reg)"
| "doctor_load_loop load (Inl e # entries) loaded reg = (Err (ReadDir e), reg)"
| "doctor_load_loop load (Inr path # entries) loaded reg =
     (if \<not> is_toml path then doctor_load_loop load entries loaded reg
      else case load path of
             Inr ds \<Rightarrow> doctor_load_loop load entries (loaded + 1) (doctor_insert ds reg)
           | Inl e \<Rightarrow> doctor_load_loop load entries loaded reg)"

definition doctor_load_from_dir ::
    "catalog_fs \<Rightarrow> (string \<Rightarrow> (string, toml_doctor) result) \<Rightarrow> string \<Rightarrow> doctor_registry \<Rightarrow>
     (catalog_error, nat) result \<times> doctor_registry" where
  "doctor_load_from_dir fs toml dir reg =
     (if \<not> fs_exists fs dir then (Ok 0, reg)
      else case fs_read_dir fs dir of
             Inl e \<Rightarrow> (Err (ReadDir e), reg)
           | Inr entries \<Rightarrow> doctor_load_loop (doctor_load_file fs toml) entries 0 reg)"

definition doctor_get :: "doctor_registry \<Rightarrow> string \<Rightarrow> doctor_descriptor option" where
  "doctor_get reg i = map_of (dg_doctors reg) i"

definition doctor_list :: "doctor_registry \<Rightarrow> doctor_descriptor list" where
  "doctor_list reg = map snd (dg_doctors reg)"

definition doctor_get_source :: "doctor_registry \<Rightarrow> string \<Rightarrow> string option" where
  "doctor_get_source reg i = map_of (dg_sources reg) i"

section \<open>Advice files\<close>

datatype toml_trigger =
    TomlAssertionFailed string
  | TomlDoctorFailed string
  | TomlExperiencePattern string string "32 word"

record toml_advice =
  tv_id :: string
  tv_name :: string
  tv_description :: string
  tv_category :: string
  tv_severity :: advice_severity
  tv_triggers :: "toml_trigger list"
  tv_message :: string
  tv_suggested_actions :: "string list"
  tv_hint :: "string option"

fun trigger_cel_condition :: "toml_trigger \<Rightarrow> string option" where
  "trigger_cel_condition (TomlAssertionFailed i) =
     Some (''fact('' @ quote (''assertion:'' @ i) @ '') == '' @ quote ''failed'')"
| "trigger_cel_condition (TomlDoctorFailed i) =
     Some (''fact('' @ quote (''doctor:'' @ i) @ '') == '' @ quote ''failed'')"
| "trigger_cel_condition (TomlExperiencePattern tool status threshold) =
     Some (''count_fact('' @ quote (''experience:'' @ tool @ '':'' @ status) @ '', '' @ quote ''>='' @ '', '' @
           nat_to_string (unat threshold) @ '')'')"

fun into_trigger :: "toml_trigger \<Rightarrow> advice_trigger" where
  "into_trigger (TomlAssertionFailed i) = AssertionFailed i"
| "into_trigger (TomlDoctorFailed i) = DoctorFailed i"
| "into_trigger (TomlExperiencePattern tool status n) = ExperiencePattern tool status n"

definition into_advice_descriptor :: "toml_advice \<Rightarrow> advice_descriptor" where
  "into_advice_descriptor a =
     \<lparr>ad_id = tv_id a, ad_name = tv_name a, ad_description = tv_description a,
      ad_category = tv_category a, ad_severity = tv_severity a,
      ad_triggers = map into_trigger (tv_triggers a), ad_message = tv_message a,
      ad_suggested_actions = tv_suggested_actions a, ad_hint = tv_hint a\<rparr>"

record advice_registry =
  vg_advice :: "(string \<times> advice_descriptor) list"
  vg_sources :: "(string \<times> string) list"

definition advice_load_file ::
    "catalog_fs \<Rightarrow> (string \<Rightarrow> (string, toml_advice) result) \<Rightarrow> string \<Rightarrow>
     (catalog_error, advice_descriptor \<times> string) result" where
  "advice_load_file fs toml path =
     (case fs_read_to_string fs path of
        Inl e \<Rightarrow> Err (ReadDir e)
      | Inr content \<Rightarrow>
          (case toml content of
             Inl e \<Rightarrow> Err (TomlParse e)
           | Inr a \<Rightarrow> Ok (into_advice_descriptor a, content)))"

definition advice_insert :: "advice_descriptor \<times> string \<Rightarrow> advice_registry \<Rightarrow> advice_registry" where
  "advice_insert ds reg =
     \<lparr>vg_advice = AList.update (ad_id (fst ds)) (fst ds) (vg_advice reg),
      vg_sources = AList.update (ad_id (fst ds)) (snd ds) (vg_sources reg)\<rparr>"

fun advice_load_loop ::
    "(string \<Rightarrow> (catalog_error, advice_descriptor \<times> string) result) \<Rightarrow> (string, string) result list \<Rightarrow> nat \<Rightarrow>
     advice_registry \<Rightarrow> (catalog_error, nat) result \<times> advice_registry" where
  "advice_load_loop load [] loaded reg = (Ok loaded, reg)"
| "advice_load_loop load (Inl e # entries) loaded reg = (Err (ReadDir e), reg)"
| "advice_load_loop load (Inr path # entries) loaded reg =
     (if \<not> is_toml path then advice_load_loop load entries loaded reg
      else case load path of
             Inr ds \<Rightarrow> advice_load_loop load entries (loaded + 1) (advice_insert ds reg)
           | Inl e \<Rightarrow> advice_load_loop load entries loaded reg)"

definition advice_load_from_dir ::
    "catalog_fs \<Rightarrow> (string \<Rightarrow> (string, toml_advice) result) \<Rightarrow> string \<Rightarrow> advice_registry \<Rightarrow>
     (catalog_error, nat) result \<times> advice_registry" where
  "advice_load_from_dir fs toml dir reg =
     (if \<not> fs_exists fs dir then (Ok 0, reg)
      else case fs_read_dir fs dir of
             Inl e \<Rightarrow> (Err (ReadDir e), reg)
           | Inr entries \<Rightarrow> advice_load_loop (advice_load_file fs toml) entries 0 reg)"

definition advice_get :: "advice_registry \<Rightarrow> string \<Rightarrow> advice_descriptor option" where
  "advice_get reg i = map_of (vg_advice reg) i"

definition advice_list :: "advice_registry \<Rightarrow> advice_descriptor list" where
  "advice_list reg = map snd (vg_advice reg)"

definition advice_get_source :: "advice_registry \<Rightarrow> string \<Rightarrow> string option" where
  "advice_get_source reg i = map_of (vg_sources reg) i"

section \<open>Loading a directory\<close>

text \<open>What the TOML files of a listing hold, up to the first entry that cannot be read, and its error.\<close>

fun readable :: "(string \<Rightarrow> (catalog_error, 'd) result) \<Rightarrow> (string, string) result list \<Rightarrow> 'd list" where
  "readable load [] = []"
| "readable load (Inl e # entries) = []"
| "readable load (Inr path # entries) =
     (case load path of
        Inr d \<Rightarrow> if is_toml path then d # readable load entries else readable load entries
      | Inl e \<Rightarrow> readable load entries)"

fun listing_error :: "(string, string) result list \<Rightarrow> string option" where
  "listing_error [] = None"
| "listing_error (Inl e # entries) = Some e"
| "listing_error (Inr path # entries) = listing_error entries"

lemma find_append: "find p (xs @ ys) = (case find p xs of Some x \<Rightarrow> Some x | None \<Rightarrow> find p ys)"
  by (induction xs) auto

text \<open>
  What the three registries share: a loop over the entries of a directory that inserts what each TOML file
  holds, under its identifier. \<open>load\<close> reads one file.
\<close>

locale catalog_registry =
  fixes ident :: "'d \<Rightarrow> string"
    and add :: "'d \<Rightarrow> 'r \<Rightarrow> 'r"
    and get :: "'r \<Rightarrow> string \<Rightarrow> 'd option"
    and loop :: "(string \<Rightarrow> (catalog_error, 'd) result) \<Rightarrow> (string, string) result list \<Rightarrow> nat \<Rightarrow> 'r \<Rightarrow>
       (catalog_error, nat) result \<times> 'r"
  assumes get_add: "get (add d reg) i = (if i = ident d then Some d else get reg i)"
    and loop_Nil: "loop load [] n reg = (Ok n, reg)"
    and loop_Err: "loop load (Inl e # entries) n reg = (Err (ReadDir e), reg)"
    and loop_Ok: "loop load (Inr path # entries) n reg =
      (if \<not> is_toml path then loop load entries n reg
       else case load path of
              Inr d \<Rightarrow> loop load entries (n + 1) (add d reg)
            | Inl e \<Rightarrow> loop load entries n reg)"
begin

lemma loop_registry: "snd (loop load entries n reg) = fold add (readable load entries) reg"
  by (induction load entries arbitrary: n reg rule: readable.induct)
    (auto simp: loop_Nil loop_Err loop_Ok split: sum.splits)

lemma loop_result:
  "fst (loop load entries n reg) =
     (case listing_error entries of
        None \<Rightarrow> Ok (n + length (readable load entries)) | Some e \<Rightarrow> Err (ReadDir e))"
  by (induction load entries arbitrary: n reg rule: readable.induct)
    (auto simp: loop_Nil loop_Err loop_Ok split: sum.splits option.splits)

lemma get_fold_add:
  "get (fold add ds reg) i =
     (case find (\<lambda>d. ident d = i) (rev ds) of Some d \<Rightarrow> Some d | None \<Rightarrow> get reg i)"
proof (induction ds arbitrary: reg)
  case (Cons d ds)
  then show ?case by (auto simp: get_add find_append split: option.splits)
qed simp

lemmas loop_get = loop_registry [THEN arg_cong, of "\<lambda>r. get r i" for i, unfolded get_fold_add]

end

interpretation assertions: catalog_registry as_id "\<lambda>a. AList.update (as_id a) a" assertion_get assertion_load_loop
  by unfold_locales (simp_all add: assertion_get_def update_conv' split: sum.split)

text \<open>The other two keep the source of each file beside the descriptor, under the same identifier.\<close>

definition doctor_entry :: "doctor_registry \<Rightarrow> string \<Rightarrow> (doctor_descriptor \<times> string) option" where
  "doctor_entry reg i =
     Option.bind (doctor_get reg i) (\<lambda>d. map_option (\<lambda>s. (d, s)) (doctor_get_source reg i))"

definition advice_entry :: "advice_registry \<Rightarrow> string \<Rightarrow> (advice_descriptor \<times> string) option" where
  "advice_entry reg i =
     Option.bind (advice_get reg i) (\<lambda>a. map_option (\<lambda>s. (a, s)) (advice_get_source reg i))"

interpretation doctors: catalog_registry "\<lambda>ds. dd_id (fst ds)" doctor_insert doctor_entry doctor_load_loop
  by unfold_locales
    (simp_all add: doctor_entry_def doctor_get_def doctor_get_source_def doctor_insert_def update_conv' split: sum.split)

interpretation advices: catalog_registry "\<lambda>ds. ad_id (fst ds)" advice_insert advice_entry advice_load_loop
  by unfold_locales
    (simp_all add: advice_entry_def advice_get_def advice_get_source_def advice_insert_def update_conv' split: sum.split)

definition last_with :: "('d \<Rightarrow> string) \<Rightarrow> string \<Rightarrow> 'd list \<Rightarrow> 'd option" where
  "last_with ident i ds = find (\<lambda>d. ident d = i) (rev ds)"


section \<open>The advice settings\<close>

text \<open>The operations of the file system on the settings file, over the state \<open>'f\<close> of the disk.\<close>

record 'f settings_fs =
  sf_exists :: "string \<Rightarrow> 'f \<Rightarrow> bool"
  sf_read :: "string \<Rightarrow> 'f \<Rightarrow> (string, string) result"
  sf_write :: "string \<Rightarrow> string \<Rightarrow> 'f \<Rightarrow> (string, unit) result \<times> 'f"
  sf_rename :: "string \<Rightarrow> string \<Rightarrow> 'f \<Rightarrow> (string, unit) result \<times> 'f"

text \<open>\<open>TomlAdviceSettings\<close> has the fields of \<open>AdviceConfig\<close>; these are its serializer and parser.\<close>

record settings_toml =
  sx_print :: "advice_config \<Rightarrow> (string, string) result"
  sx_parse :: "string \<Rightarrow> (string, advice_config) result"

record advice_config_store =
  ks_path :: string
  ks_config :: advice_config

definition with_extension :: "string \<Rightarrow> string \<Rightarrow> string" where
  "with_extension ext path =
     (let name = file_name path;
          stem = (if extension path = None then name
                  else join_with (CHR ''.'') (butlast (split_on (CHR ''.'') name)))
      in if name = [] \<or> name = ''..'' then path
         else take (length path - length name) path @ stem @ ''.'' @ ext)"

definition load_config ::
    "'f settings_fs \<Rightarrow> settings_toml \<Rightarrow> string \<Rightarrow> 'f \<Rightarrow> (catalog_error, advice_config) result" where
  "load_config F X path f =
     (if \<not> sf_exists F path f then Ok default_enabled
      else case sf_read F path f of
             Inl e \<Rightarrow> Err (ReadDir e)
           | Inr content \<Rightarrow> (case sx_parse X content of Inl e \<Rightarrow> Err (TomlParse e) | Inr cfg \<Rightarrow> Ok cfg))"

definition config_store_new ::
    "'f settings_fs \<Rightarrow> settings_toml \<Rightarrow> string \<Rightarrow> 'f \<Rightarrow> advice_config_store" where
  "config_store_new F X path f =
     \<lparr>ks_path = path,
      ks_config = (case load_config F X path f of Inr cfg \<Rightarrow> cfg | Inl e \<Rightarrow> default_enabled)\<rparr>"

definition save_config ::
    "'f settings_fs \<Rightarrow> settings_toml \<Rightarrow> string \<Rightarrow> advice_config \<Rightarrow> 'f \<Rightarrow> (catalog_error, unit) result \<times> 'f" where
  "save_config F X path cfg f =
     (case sx_print X cfg of
        Inl e \<Rightarrow> (Err (TomlSerialize e), f)
      | Inr content \<Rightarrow>
          (let temp = with_extension ''toml.tmp'' path in
           case sf_write F temp content f of
             (Inl e, f') \<Rightarrow> (Err (ReadDir e), f')
           | (Inr _, f') \<Rightarrow>
               (case sf_rename F temp path f' of
                  (Inl e, f'') \<Rightarrow> (Err (ReadDir e), f'')
                | (Inr _, f'') \<Rightarrow> (Ok (), f''))))"

text \<open>
  Each operation changes the configuration behind the write lock, saves it, and answers with a copy; the change
  stays when saving fails.
\<close>

definition update_and_save ::
    "'f settings_fs \<Rightarrow> settings_toml \<Rightarrow> advice_config \<Rightarrow> advice_config_store \<Rightarrow> 'f \<Rightarrow>
     (catalog_error, advice_config) result \<times> advice_config_store \<times> 'f" where
  "update_and_save F X cfg store f =
     (case save_config F X (ks_path store) cfg f of
        (Inl e, f') \<Rightarrow> (Err e, store\<lparr>ks_config := cfg\<rparr>, f')
      | (Inr _, f') \<Rightarrow> (Ok cfg, store\<lparr>ks_config := cfg\<rparr>, f'))"

definition set_global_enabled ::
    "'f settings_fs \<Rightarrow> settings_toml \<Rightarrow> bool \<Rightarrow> advice_config_store \<Rightarrow> 'f \<Rightarrow>
     (catalog_error, advice_config) result \<times> advice_config_store \<times> 'f" where
  "set_global_enabled F X enabled store f =
     update_and_save F X ((ks_config store)\<lparr>ac_enabled := enabled\<rparr>) store f"

definition disable_advice ::
    "'f settings_fs \<Rightarrow> settings_toml \<Rightarrow> string \<Rightarrow> advice_config_store \<Rightarrow> 'f \<Rightarrow>
     (catalog_error, advice_config) result \<times> advice_config_store \<times> 'f" where
  "disable_advice F X i store f =
     (let cfg = ks_config store in
      update_and_save F X
        (if i \<notin> set (ac_disabled cfg) then cfg\<lparr>ac_disabled := ac_disabled cfg @ [i]\<rparr> else cfg) store f)"

definition enable_advice ::
    "'f settings_fs \<Rightarrow> settings_toml \<Rightarrow> string \<Rightarrow> advice_config_store \<Rightarrow> 'f \<Rightarrow>
     (catalog_error, advice_config) result \<times> advice_config_store \<times> 'f" where
  "enable_advice F X i store f =
     (let cfg = ks_config store in
      update_and_save F X (cfg\<lparr>ac_disabled := filter (\<lambda>d. d \<noteq> i) (ac_disabled cfg)\<rparr>) store f)"

definition clear_disabled ::
    "'f settings_fs \<Rightarrow> settings_toml \<Rightarrow> advice_config_store \<Rightarrow> 'f \<Rightarrow>
     (catalog_error, advice_config) result \<times> advice_config_store \<times> 'f" where
  "clear_disabled F X store f = update_and_save F X ((ks_config store)\<lparr>ac_disabled := []\<rparr>) store f"

lemmas config_op_defs = set_global_enabled_def disable_advice_def enable_advice_def clear_disabled_def

lemma update_and_save_simps:
  "fst (snd (update_and_save F X cfg store f)) = store\<lparr>ks_config := cfg\<rparr>"
  "fst (update_and_save F X cfg store f) = Inr c \<Longrightarrow> c = cfg"
  by (auto simp: update_and_save_def split: prod.splits sum.splits)

text \<open>
  What the operations rely on: the parser reads back what the serializer prints, a file that was written
  holds what was written, and a renamed file keeps its content.
\<close>

definition settings_laws :: "'f settings_fs \<Rightarrow> settings_toml \<Rightarrow> bool" where
  "settings_laws F X =
     ((\<forall>cfg s. sx_print X cfg = Inr s \<longrightarrow> sx_parse X s = Inr cfg) \<and>
      (\<forall>p s f f'. sf_write F p s f = (Inr (), f') \<longrightarrow> sf_read F p f' = Inr s) \<and>
      (\<forall>p q f f'. sf_rename F p q f = (Inr (), f') \<longrightarrow> sf_read F q f' = sf_read F p f \<and> sf_exists F q f'))"

lemma saved_config_loads:
  assumes "settings_laws F X" "save_config F X path cfg f = (Inr (), f')"
  shows "load_config F X path f' = Inr cfg"
proof -
  let ?temp = "with_extension ''toml.tmp'' path"
  obtain s where s: "sx_print X cfg = Inr s" using assms(2) by (cases "sx_print X cfg") (auto simp: save_config_def)
  obtain x f1 where w: "sf_write F ?temp s f = (x, f1)" by fastforce
  obtain y f2 where r: "sf_rename F ?temp path f1 = (y, f2)" by fastforce
  have "x = Inr ()" "y = Inr ()" "f2 = f'"
    using assms(2) s w r by (auto simp: save_config_def split: sum.splits)
  then show ?thesis using assms(1) s w r unfolding settings_laws_def load_config_def by auto
qed

lemma config_op_persists:
  assumes "settings_laws F X" "update_and_save F X cfg store f = (Inr c, store', f')"
  shows "ks_config store' = c \<and> config_store_new F X (ks_path store) f' = store'"
proof -
  have "save_config F X (ks_path store) cfg f = (Inr (), f')" "store' = store\<lparr>ks_config := cfg\<rparr>" "c = cfg"
    using assms(2) by (auto simp: update_and_save_def split: prod.splits sum.splits)
  then show ?thesis using saved_config_loads [OF assms(1)] by (simp add: config_store_new_def)
qed

end
