(* ===== verification/Catalog_Tools.thy ===== *)
theory Catalog_Tools
  imports Catalog_Files
begin

text \<open>
  The tools of the gateway over the catalog: \<open>catalog_tools.rs\<close>, \<open>doctor_tools.rs\<close> and \<open>advice_tools.rs\<close> of
  \<open>bastion-gateway/src\<close>. Each tool answers with a JSON text, either \<open>{"error": \<dots>}\<close> or the fields of its
  result; here that is a value of a sum type, the error's text or the result. The tools repeat the loops of the
  use cases of \<open>Catalog_Checks\<close> and \<open>Catalog_Records\<close>; the theorems below say where the two agree.
\<close>

section \<open>Experiences and assertions\<close>

record 'w catalog_config =
  cc_experience_store :: "'w experience_store option"
  cc_assertion_registry :: "assertion_registry option"
  cc_doctor_registry :: "doctor_registry option"
  cc_advice_registry :: "advice_registry option"
  cc_advice_config :: "advice_config_store option"

definition not_found_text :: "string \<Rightarrow> string \<Rightarrow> string" where
  "not_found_text kind i = kind @ '' '' @ quote i @ '' not found''"

definition experience_list_tool ::
    "'w catalog_config \<Rightarrow> string \<Rightarrow> 'w \<Rightarrow> (string, string \<times> nat \<times> experience_record list) result \<times> 'w" where
  "experience_list_tool C trace_id w =
     (case cc_experience_store C of
        None \<Rightarrow> (Err ''experience store not configured'', w)
      | Some store \<Rightarrow>
          (case es_find_by_trace_id store trace_id w of
             (Inr records, w') \<Rightarrow> (Ok (trace_id, length records, records), w')
           | (Inl e, w') \<Rightarrow> (Err (domain_error_display e), w')))"

definition experience_get_tool ::
    "'w catalog_config \<Rightarrow> string \<Rightarrow> 'w \<Rightarrow> (string, experience_record) result \<times> 'w" where
  "experience_get_tool C experience_id w =
     (case cc_experience_store C of
        None \<Rightarrow> (Err ''experience store not configured'', w)
      | Some store \<Rightarrow>
          (case es_find_by_id store experience_id w of
             (Inr (Some r), w') \<Rightarrow> (Ok r, w')
           | (Inr None, w') \<Rightarrow> (Err (not_found_text ''experience'' experience_id), w')
           | (Inl e, w') \<Rightarrow> (Err (domain_error_display e), w')))"

definition assertion_list_tool ::
    "'w catalog_config \<Rightarrow> (string, nat \<times> assertion_descriptor list) result" where
  "assertion_list_tool C =
     (case cc_assertion_registry C of
        None \<Rightarrow> Err ''assertion registry not configured''
      | Some reg \<Rightarrow> Ok (length (assertion_list reg), assertion_list reg))"

definition assertion_run_tool ::
    "(string \<Rightarrow> string) \<Rightarrow> 'w catalog_config \<Rightarrow> string \<Rightarrow> string \<Rightarrow> 'w \<Rightarrow>
     (string, assertion_result) result \<times> 'w" where
  "assertion_run_tool debug C assertion_id experience_id w =
     (case cc_experience_store C of
        None \<Rightarrow> (Err ''experience store not configured'', w)
      | Some store \<Rightarrow>
     (case cc_assertion_registry C of
        None \<Rightarrow> (Err ''assertion registry not configured'', w)
      | Some reg \<Rightarrow>
     (case assertion_get reg assertion_id of
        None \<Rightarrow> (Err (not_found_text ''assertion'' assertion_id), w)
      | Some assertion \<Rightarrow>
     (case es_find_by_id store experience_id w of
        (Inl e, w') \<Rightarrow> (Err (domain_error_display e), w')
      | (Inr None, w') \<Rightarrow> (Err (not_found_text ''experience'' experience_id), w')
      | (Inr (Some r), w') \<Rightarrow>
          (let results = map (evaluate_one debug r) (as_checks assertion)
           in (Ok \<lparr>ar_passed = list_all cr_passed results, ar_assertion_id = as_id assertion,
                   ar_check_results = results\<rparr>, w'))))))"

definition assertion_dry_run_tool ::
    "'w catalog_config \<Rightarrow> string \<Rightarrow> (string, assertion_descriptor) result" where
  "assertion_dry_run_tool C assertion_id =
     (case cc_assertion_registry C of
        None \<Rightarrow> Err ''assertion registry not configured''
      | Some reg \<Rightarrow>
          (case assertion_get reg assertion_id of
             Some a \<Rightarrow> Ok a
           | None \<Rightarrow> Err (not_found_text ''assertion'' assertion_id)))"

section \<open>Doctors\<close>

text \<open>
  The ports of a run are the gateway's provider, its pool manager, and the registry and the store of its
  catalog.
\<close>

definition gateway_doctor_ports ::
    "(sandbox_id \<Rightarrow> ('w, bool) port_call) \<Rightarrow> ('w \<Rightarrow> doctor_pool_stats) option \<Rightarrow> 'w catalog_config \<Rightarrow>
     'w doctor_ports" where
  "gateway_doctor_ports is_alive pool C =
     \<lparr>po_is_alive = is_alive, po_pool_stats = pool,
      po_assertion = map_option assertion_get (cc_assertion_registry C), po_store = cc_experience_store C\<rparr>"

definition doctor_list_tool :: "'w catalog_config \<Rightarrow> (string, nat \<times> doctor_descriptor list) result" where
  "doctor_list_tool C =
     (case cc_doctor_registry C of
        None \<Rightarrow> Err ''doctor registry not configured''
      | Some reg \<Rightarrow> Ok (length (doctor_list reg), doctor_list reg))"

fun run_doctor_check ::
    "(string \<Rightarrow> string) \<Rightarrow> 'w doctor_ports \<Rightarrow> string \<Rightarrow> doctor_check \<Rightarrow> 'w \<Rightarrow> check_result \<times> 'w" where
  "run_doctor_check debug P sandbox (Aliveness override) w =
     run_aliveness P (case override of Some i \<Rightarrow> i | None \<Rightarrow> sandbox) w"
| "run_doctor_check debug P sandbox (Resources max_total max_idle) w = run_resources P max_total max_idle w"
| "run_doctor_check debug P sandbox (AssertionDriven i) w = run_assertion_driven debug P i (Some sandbox) w"
| "run_doctor_check debug P sandbox (ProviderAlive p) w = (unsupported_check ''this context'' ''ProviderAlive'', w)"
| "run_doctor_check debug P sandbox (BinaryAvailable n p) w =
     (unsupported_check ''this context'' ''BinaryAvailable'', w)"
| "run_doctor_check debug P sandbox (ImageAvailable p i) w =
     (unsupported_check ''this context'' ''ImageAvailable'', w)"
| "run_doctor_check debug P sandbox KvmAvailable w = (unsupported_check ''this context'' ''KvmAvailable'', w)"
| "run_doctor_check debug P sandbox (CapabilitiesMet p m c) w =
     (unsupported_check ''this context'' ''CapabilitiesMet'', w)"
| "run_doctor_check debug P sandbox (ConfigValid p) w = (unsupported_check ''this context'' ''ConfigValid'', w)"
| "run_doctor_check debug P sandbox (WorkerBinaryValid p) w =
     (unsupported_check ''this context'' ''WorkerBinaryValid'', w)"

fun doctor_tool_loop ::
    "('c \<Rightarrow> 'w \<Rightarrow> check_result \<times> 'w) \<Rightarrow> 'c list \<Rightarrow> doctor_result \<times> bool \<times> string list \<Rightarrow>
     'w \<Rightarrow> (doctor_result \<times> bool \<times> string list) \<times> 'w" where
  "doctor_tool_loop run [] acc w = (acc, w)"
| "doctor_tool_loop run (check # checks) (res, all_passed, parts) w =
     (let (c, w') = run check w
      in doctor_tool_loop run checks
           (add_check_result c res, all_passed \<and> cr_passed c,
            if \<not> cr_passed c then parts @ [rationale_part c] else parts) w')"

text \<open>The trace identifier is fresh and the clock is read once; both are arguments.\<close>

definition doctor_run_tool ::
    "(string \<Rightarrow> string) \<Rightarrow> timestamp \<Rightarrow> string \<Rightarrow> 'w doctor_ports \<Rightarrow> 'w catalog_config \<Rightarrow> string \<Rightarrow> string \<Rightarrow>
     'w \<Rightarrow> (string, doctor_result) result \<times> 'w" where
  "doctor_run_tool debug now trace_id P C doctor_id sandbox w =
     (case cc_doctor_registry C of
        None \<Rightarrow> (Err ''doctor registry not configured'', w)
      | Some reg \<Rightarrow>
          (case doctor_get reg doctor_id of
             None \<Rightarrow> (Err (not_found_text ''doctor'' doctor_id), w)
           | Some d \<Rightarrow>
               (let (acc, w') = doctor_tool_loop (run_doctor_check debug P sandbox) (dd_checks d)
                      (doctor_result_new now (dd_id d) (Some sandbox) trace_id (dd_severity d), True, []) w
                in (Ok (conclude_doctor (dd_name d) sandbox acc), w'))))"

definition doctor_explain_tool ::
    "'w catalog_config \<Rightarrow> string \<Rightarrow> (string, doctor_descriptor \<times> string option) result" where
  "doctor_explain_tool C doctor_id =
     (case cc_doctor_registry C of
        None \<Rightarrow> Err ''doctor registry not configured''
      | Some reg \<Rightarrow>
          (case doctor_get reg doctor_id of
             None \<Rightarrow> Err (not_found_text ''doctor'' doctor_id)
           | Some d \<Rightarrow> Ok (d, doctor_get_source reg doctor_id)))"

section \<open>Advice\<close>

definition effective_advice_config :: "'w catalog_config \<Rightarrow> advice_config" where
  "effective_advice_config C =
     (case cc_advice_config C of Some store \<Rightarrow> ks_config store | None \<Rightarrow> default_enabled)"

definition advice_list_tool ::
    "'w catalog_config \<Rightarrow> (string, nat \<times> advice_descriptor list \<times> bool) result" where
  "advice_list_tool C =
     (case cc_advice_registry C of
        None \<Rightarrow> Err ''advice registry not configured''
      | Some reg \<Rightarrow>
          (let config = effective_advice_config C;
               filtered = (if ac_enabled config
                           then filter (\<lambda>a. \<not> is_disabled (ad_id a) config) (advice_list reg) else [])
           in Ok (length filtered, filtered, ac_enabled config)))"

definition advice_get_tool ::
    "'w catalog_config \<Rightarrow> string \<Rightarrow> (string, advice_descriptor \<times> string option) result" where
  "advice_get_tool C advice_id =
     (case cc_advice_registry C of
        None \<Rightarrow> Err ''advice registry not configured''
      | Some reg \<Rightarrow>
          (case advice_get reg advice_id of
             None \<Rightarrow> Err (not_found_text ''advice'' advice_id)
           | Some d \<Rightarrow> Ok (d, advice_get_source reg advice_id)))"

fun trigger_matched :: "suggest_advice_context \<Rightarrow> advice_trigger \<Rightarrow> bool" where
  "trigger_matched ctx (AssertionFailed i) = (i \<in> set (sc_assertion_failures ctx))"
| "trigger_matched ctx (DoctorFailed i) = (i \<in> set (sc_doctor_failures ctx))"
| "trigger_matched ctx (ExperiencePattern tool status threshold) =
     list_ex (\<lambda>h. eh_tool_name h = tool \<and> eh_status h = status \<and> eh_count h \<ge> threshold)
       (sc_experience_hints ctx)"

text \<open>The inner loop pushes a result for the first trigger that matches and breaks.\<close>

fun trigger_loop ::
    "suggest_advice_context \<Rightarrow> advice_descriptor \<Rightarrow> advice_trigger list \<Rightarrow> advice_result list \<Rightarrow>
     advice_result list" where
  "trigger_loop ctx d [] results = results"
| "trigger_loop ctx d (t # ts) results =
     (if trigger_matched ctx t
      then results @ [advice_result_new (ad_id d) t (ad_message d) (ad_suggested_actions d) (ad_severity d)]
      else trigger_loop ctx d ts results)"

fun advice_loop ::
    "advice_config \<Rightarrow> suggest_advice_context \<Rightarrow> advice_descriptor list \<Rightarrow> advice_result list \<Rightarrow>
     advice_result list" where
  "advice_loop config ctx [] results = results"
| "advice_loop config ctx (d # ds) results =
     (if is_disabled (ad_id d) config then advice_loop config ctx ds results
      else advice_loop config ctx ds (trigger_loop ctx d (ad_triggers d) results))"

definition advice_suggest_tool ::
    "'w catalog_config \<Rightarrow> suggest_advice_context \<Rightarrow> (string, advice_result list \<times> bool) result" where
  "advice_suggest_tool C ctx =
     (case cc_advice_registry C of
        None \<Rightarrow> Err ''advice registry not configured''
      | Some reg \<Rightarrow>
          (let config = effective_advice_config C in
           if \<not> ac_enabled config then Ok ([], False)
           else Ok (sort_key (\<lambda>r. advice_sort_key (av_severity r)) (advice_loop config ctx (advice_list reg) []), True)))"

fun advice_error_display :: "catalog_error \<Rightarrow> string" where
  "advice_error_display (ReadDir e) = ''Failed to read directory: '' @ e"
| "advice_error_display (TomlParse e) = ''Failed to parse TOML: '' @ e"
| "advice_error_display (TomlSerialize e) = ''Failed to serialize TOML: '' @ e"
| "advice_error_display (EntryNotFound i) = ''Advice '' @ quote i @ '' not found''"

record advice_configure_params =
  cp_advice_id :: string
  cp_enabled :: bool
  cp_clear_disabled :: bool

text \<open>The reply holds the identifier, the flag of the request, the global flag and the number disabled.\<close>

definition advice_configure_tool ::
    "'f settings_fs \<Rightarrow> settings_toml \<Rightarrow> advice_configure_params \<Rightarrow>
     'w catalog_config \<Rightarrow> 'f \<Rightarrow> (string, string \<times> bool \<times> bool \<times> nat) result \<times> 'w catalog_config \<times> 'f" where
  "advice_configure_tool F X p C f =
     (case cc_advice_config C of
        None \<Rightarrow> (Err ''advice config store not configured'', C, f)
      | Some store \<Rightarrow>
          (let (result, store', f') =
             (if cp_advice_id p = ''global''
              then (if cp_clear_disabled p then clear_disabled F X store f
                    else set_global_enabled F X (cp_enabled p) store f)
              else if cp_enabled p then enable_advice F X (cp_advice_id p) store f
              else disable_advice F X (cp_advice_id p) store f)
           in (case result of
                 Inr cfg \<Rightarrow> Ok (cp_advice_id p, cp_enabled p, ac_enabled cfg, length (ac_disabled cfg))
               | Inl e \<Rightarrow> Err (''Failed to update config: '' @ advice_error_display e),
               C\<lparr>cc_advice_config := Some store'\<rparr>, f')))"

section \<open>The tools and the use cases\<close>

lemma doctor_loop_total:
  "doctor_loop (\<lambda>c w. Some (run c w)) checks acc w = Some (doctor_tool_loop run checks acc w)"
  by (induction run checks acc w rule: doctor_tool_loop.induct) (simp_all add: split_beta)

lemma doctor_tool_run_all:
  assumes "run_all (\<lambda>c w. Some (run c w)) checks w = Some (cs, w')"
  shows "doctor_tool_loop run checks acc w = (add_results acc cs, w')"
  using doctor_loop_run_all [of "\<lambda>c w. Some (run c w)" checks acc w] assms by (simp add: doctor_loop_total)

text \<open>What of a check's result does not depend on where the check was refused.\<close>

definition outcome :: "check_result \<Rightarrow> string \<times> bool" where
  "outcome c = (cr_check c, cr_passed c)"

definition supported :: "doctor_check \<Rightarrow> bool" where
  "supported check = (infrastructure_name check = None)"

lemma run_check_tool:
  obtains c where "run_check debug P (Some sandbox) check w = Some (c, snd (run_doctor_check debug P sandbox check w))"
    "outcome c = outcome (fst (run_doctor_check debug P sandbox check w))"
    "supported check \<Longrightarrow> c = fst (run_doctor_check debug P sandbox check w)"
  by (cases check) (auto simp: outcome_def unsupported_check_def failed_check_def supported_def split: option.splits)

lemma run_all_tool:
  obtains cs ds w' where
    "run_all (run_check debug P (Some sandbox)) checks w = Some (cs, w')"
    "run_all (\<lambda>c w. Some (run_doctor_check debug P sandbox c w)) checks w = Some (ds, w')"
    "map outcome cs = map outcome ds" "list_all supported checks \<longrightarrow> cs = ds"
proof -
  have "\<exists>cs ds w'. run_all (run_check debug P (Some sandbox)) checks w = Some (cs, w') \<and>
      run_all (\<lambda>c w. Some (run_doctor_check debug P sandbox c w)) checks w = Some (ds, w') \<and>
      map outcome cs = map outcome ds \<and> (list_all supported checks \<longrightarrow> cs = ds)"
  proof (induction checks arbitrary: w)
    case (Cons check checks)
    let ?t = "run_doctor_check debug P sandbox check w"
    obtain c where c: "run_check debug P (Some sandbox) check w = Some (c, snd ?t)" "outcome c = outcome (fst ?t)"
      "supported check \<Longrightarrow> c = fst ?t"
      using run_check_tool [of debug P sandbox check w] by blast
    from Cons [of "snd ?t"] obtain cs ds w' where
      "run_all (run_check debug P (Some sandbox)) checks (snd ?t) = Some (cs, w')"
      "run_all (\<lambda>c w. Some (run_doctor_check debug P sandbox c w)) checks (snd ?t) = Some (ds, w')"
      "map outcome cs = map outcome ds" "list_all supported checks \<longrightarrow> cs = ds" by blast
    with c show ?case by (simp add: split_beta)
  qed simp
  then show thesis using that by blast
qed

lemma passed_of_outcomes: "map outcome cs = map outcome ds \<Longrightarrow> list_all cr_passed cs = list_all cr_passed ds"
proof -
  assume "map outcome cs = map outcome ds"
  from arg_cong [OF this, of "list_all snd"] show ?thesis
    by (simp add: list.pred_map comp_def outcome_def)
qed

lemma run_all_unsupported:
  assumes "run_all (\<lambda>c w. Some (run_doctor_check debug P sandbox c w)) checks w = Some (ds, w')"
    "\<not> list_all supported checks"
  shows "\<not> list_all cr_passed ds"
  using assms
proof (induction checks arbitrary: w ds)
  case (Cons check checks)
  have "\<not> cr_passed (fst (run_doctor_check debug P sandbox check w))" if "\<not> supported check"
    using that by (cases check) (auto simp: supported_def unsupported_check_def failed_check_def)
  then show ?case using Cons by (auto simp: split_beta)
qed simp


lemma trigger_matched_eq: "trigger_matched ctx t = trigger_matches ctx t"
  by (cases t) simp_all

lemma trigger_loop_advice_for:
  "trigger_loop ctx d ts results =
     results @ (case find (trigger_matches ctx) ts of
                  None \<Rightarrow> []
                | Some t \<Rightarrow> [advice_result_new (ad_id d) t (ad_message d) (ad_suggested_actions d) (ad_severity d)])"
  by (induction ts) (auto simp: trigger_matched_eq)

lemma advice_loop_suggest_loop:
  "advice_loop config ctx ds results =
     suggest_loop ctx (filter (\<lambda>d. \<not> is_disabled (ad_id d) config) ds) results"
  by (induction config ctx ds results rule: advice_loop.induct)
    (auto simp: trigger_loop_advice_for evaluate_triggers_find split: option.splits)

lemma advice_suggest_tool_suggest:
  "advice_suggest_tool C ctx =
     (case cc_advice_registry C of
        None \<Rightarrow> Err ''advice registry not configured''
      | Some reg \<Rightarrow>
          (let cfg = effective_advice_config C in
           if ac_enabled cfg
           then Ok (suggest ctx (filter (\<lambda>d. \<not> is_disabled (ad_id d) cfg) (advice_list reg)), True)
           else Ok ([], False)))"
  by (simp add: advice_suggest_tool_def advice_loop_suggest_loop suggest_def Let_def split: option.split)

text \<open>
  the advice tool of the gateway against the use case \<open>SuggestAdviceUseCase\<close>. With advice enabled, the tool's
  own loops give exactly what the use case gives on the descriptors that are not disabled, and these are the
  descriptors that \<open>advice_list\<close> shows; with advice disabled both tools show nothing.
\<close>

theorem advice_tool_agrees:
  "case advice_list_tool C of
     Inl e \<Rightarrow> advice_suggest_tool C ctx = Inl e
   | Inr (n, listed, enabled) \<Rightarrow>
       n = length listed \<and> advice_suggest_tool C ctx = Inr (suggest ctx listed, enabled) \<and>
       enabled = ac_enabled (effective_advice_config C) \<and> (enabled \<or> listed = []) \<and>
       filter (\<lambda>d. is_disabled (ad_id d) (effective_advice_config C)) listed = []"
  by (auto simp: advice_list_tool_def advice_suggest_tool_suggest Let_def suggest_def split: option.split)

text \<open>What a request asks of the settings.\<close>

definition configured :: "advice_configure_params \<Rightarrow> advice_config \<Rightarrow> advice_config \<Rightarrow> bool" where
  "configured p cfg cfg' =
     (if cp_advice_id p = ''global''
      then (if cp_clear_disabled p then cfg' = cfg\<lparr>ac_disabled := []\<rparr> else cfg' = cfg\<lparr>ac_enabled := cp_enabled p\<rparr>)
      else ac_enabled cfg' = ac_enabled cfg \<and>
           set (ac_disabled cfg') =
             (if cp_enabled p then set (ac_disabled cfg) - {cp_advice_id p}
              else insert (cp_advice_id p) (set (ac_disabled cfg))))"

lemma advice_configure_update:
  assumes "cc_advice_config C = Some store"
  obtains cfg where "configured p (ks_config store) cfg"
    "advice_configure_tool F X p C f =
       (let (result, store', f') = update_and_save F X cfg store f
        in (case result of
              Inr cfg \<Rightarrow> Ok (cp_advice_id p, cp_enabled p, ac_enabled cfg, length (ac_disabled cfg))
            | Inl e \<Rightarrow> Err (''Failed to update config: '' @ advice_error_display e),
            C\<lparr>cc_advice_config := Some store'\<rparr>, f'))"
proof -
  let ?cfg = "ks_config store"
  let ?new = "if cp_advice_id p = ''global''
    then (if cp_clear_disabled p then ?cfg\<lparr>ac_disabled := []\<rparr> else ?cfg\<lparr>ac_enabled := cp_enabled p\<rparr>)
    else if cp_enabled p then ?cfg\<lparr>ac_disabled := filter (\<lambda>d. d \<noteq> cp_advice_id p) (ac_disabled ?cfg)\<rparr>
    else if cp_advice_id p \<notin> set (ac_disabled ?cfg)
    then ?cfg\<lparr>ac_disabled := ac_disabled ?cfg @ [cp_advice_id p]\<rparr> else ?cfg"
  have "configured p ?cfg ?new" by (auto simp: configured_def)
  moreover have "advice_configure_tool F X p C f =
       (let (result, store', f') = update_and_save F X ?new store f
        in (case result of
              Inr cfg \<Rightarrow> Ok (cp_advice_id p, cp_enabled p, ac_enabled cfg, length (ac_disabled cfg))
            | Inl e \<Rightarrow> Err (''Failed to update config: '' @ advice_error_display e),
            C\<lparr>cc_advice_config := Some store'\<rparr>, f'))"
    using assms by (simp add: advice_configure_tool_def config_op_defs Let_def)
  ultimately show thesis by (rule that)
qed


definition demo_files :: "(string \<rightharpoonup> string) settings_fs" where
  "demo_files =
     \<lparr>sf_exists = \<lambda>p f. f p \<noteq> None,
      sf_read = \<lambda>p f. (case f p of None \<Rightarrow> Err ''not found'' | Some s \<Rightarrow> Ok s),
      sf_write = \<lambda>p s f. (Ok (), f(p \<mapsto> s)),
      sf_rename = \<lambda>p q f. (case f p of None \<Rightarrow> (Err ''not found'', f) | Some s \<Rightarrow> (Ok (), (f(p := None))(q \<mapsto> s)))\<rparr>"

definition demo_toml :: settings_toml where
  "demo_toml =
     \<lparr>sx_print = \<lambda>cfg. if ac_enabled cfg \<and> ac_disabled cfg = [''maven'']
                      then Ok ''disabled = maven'' else Err ''unsupported'',
      sx_parse = \<lambda>s. if s = ''disabled = maven'' then Ok \<lparr>ac_enabled = True, ac_disabled = [''maven'']\<rparr>
                    else Err ''syntax''\<rparr>"

definition demo_catalog :: "unit catalog_config" where
  "demo_catalog =
     \<lparr>cc_experience_store = None, cc_assertion_registry = None, cc_doctor_registry = None,
      cc_advice_registry = None, cc_advice_config = Some \<lparr>ks_path = ''.bastion/advice.toml'', ks_config = default_enabled\<rparr>\<rparr>"

lemma demo_settings_laws: "settings_laws demo_files demo_toml"
  by (auto simp: settings_laws_def demo_files_def demo_toml_def split: if_splits option.splits)


end
