(* ===== verification/Legacy_Shim.thy ===== *)
theory Legacy_Shim
  imports Catalog_Files Cel_Printer Cel_Rules
begin

text \<open>
  The comparison of the two ways to evaluate the catalog's checks,
  \<open>bastion-infrastructure/src/evaluation/legacy_cel_shim.rs\<close>: the direct one of \<open>Catalog_Records\<close>, and the one
  that prints a condition of CEL-lite and lets the rule engine of \<open>Cel_Parser\<close> and \<open>Cel_Rules\<close> parse and
  evaluate it. \<open>None\<close> is the parser's fuel running out, which never happens. The characters of a text that are
  not ASCII only occur inside string literals here, and a literal is copied unread; whether one text contains
  another is the same question for the bytes and for the characters.
\<close>

section \<open>The shim\<close>

datatype shim_error = CelParse string | LegacyEval string | ResultMismatch bool bool | NoCelCondition

record comparison_result =
  cmp_legacy_passed :: bool
  cmp_cel_passed :: bool
  cmp_legacy_reason :: "string option"
  cmp_matches :: bool

fun parse_error_display :: "parse_error \<Rightarrow> string" where
  "parse_error_display (UnexpectedToken pos expected found) =
     ''Unexpected token at position '' @ nat_to_string pos @ '': expected '' @ expected @ '', found '' @ found"
| "parse_error_display (UnterminatedString pos) = ''Unterminated string at position '' @ nat_to_string pos"
| "parse_error_display (Invalid m) = ''Invalid expression: '' @ m"

type_synonym 'a shim_outcome = "(shim_error, 'a) result option"

definition eval_cel_sync :: "regex_crate \<Rightarrow> eval_context \<Rightarrow> string \<Rightarrow> bool shim_outcome" where
  "eval_cel_sync rx ctx condition =
     (case parse rx condition of
        None \<Rightarrow> None
      | Some (Inl e) \<Rightarrow> Some (Err (CelParse (parse_error_display e)))
      | Some (Inr e) \<Rightarrow> Some (Ok (evaluate rx ctx e)))"

text \<open>\<open>duration_ms as i32\<close>, \<open>i32::MAX\<close> where it is unknown, and the cast back to \<open>u64\<close>.\<close>

definition shim_duration :: "experience_record \<Rightarrow> 64 word" where
  "shim_duration r =
     scast (case duration_ms r of Some d \<Rightarrow> (ucast d :: 32 word) | None \<Rightarrow> 0x7FFFFFFF)"

definition record_result :: "experience_record \<Rightarrow> operation_result" where
  "record_result r =
     \<lparr>op_exit_code = (case ex_exit_code r of Some c \<Rightarrow> c | None \<Rightarrow> 0),
      op_stdout = ex_stdout_summary r, op_stderr = ex_stderr_summary r,
      op_duration_ms = shim_duration r, op_timed_out = (ex_status r = ETimeout)\<rparr>"

definition eval_cel_on_record :: "regex_crate \<Rightarrow> experience_record \<Rightarrow> string \<Rightarrow> bool shim_outcome" where
  "eval_cel_on_record rx r condition = eval_cel_sync rx (eval_context_new (record_result r) []) condition"

definition eval_cel_on_record_with_facts ::
    "regex_crate \<Rightarrow> experience_record \<Rightarrow> fact list \<Rightarrow> string \<Rightarrow> bool shim_outcome" where
  "eval_cel_on_record_with_facts rx r facts condition =
     eval_cel_sync rx (eval_context_new (record_result r) facts) condition"

definition compare_results ::
    "bool \<times> string option \<Rightarrow> bool shim_outcome \<Rightarrow> comparison_result shim_outcome" where
  "compare_results legacy cel =
     map_option (\<lambda>result. try_bind result (\<lambda>passed.
       Ok \<lparr>cmp_legacy_passed = fst legacy, cmp_cel_passed = passed, cmp_legacy_reason = snd legacy,
           cmp_matches = (fst legacy = passed)\<rparr>)) cel"

definition evaluate_toml_check ::
    "(string \<Rightarrow> string) \<Rightarrow> regex_crate \<Rightarrow> toml_check \<Rightarrow> experience_record \<Rightarrow> comparison_result shim_outcome" where
  "evaluate_toml_check debug rx check r =
     (case check_cel_condition check of
        None \<Rightarrow> Some (Err NoCelCondition)
      | Some condition \<Rightarrow>
          compare_results (check_evaluate debug (into_assertion_check check) r)
            (eval_cel_on_record rx r condition))"

definition evaluate_assertion_check_with_cel ::
    "(string \<Rightarrow> string) \<Rightarrow> regex_crate \<Rightarrow> assertion_check \<Rightarrow> experience_record \<Rightarrow> string option \<Rightarrow>
     comparison_result shim_outcome" where
  "evaluate_assertion_check_with_cel debug rx check r cel_condition =
     (let (passed, reason) = check_evaluate debug check r in
      case cel_condition of
        Some condition \<Rightarrow> compare_results (passed, reason) (eval_cel_on_record rx r condition)
      | None \<Rightarrow> Some (Ok \<lparr>cmp_legacy_passed = passed, cmp_cel_passed = passed,
                         cmp_legacy_reason = reason, cmp_matches = True\<rparr>))"

fun descriptor_loop ::
    "(string \<Rightarrow> string) \<Rightarrow> experience_record \<Rightarrow> assertion_check list \<Rightarrow> bool \<Rightarrow> string list \<Rightarrow>
     bool \<times> string list" where
  "descriptor_loop debug r [] all_passed reasons = (all_passed, reasons)"
| "descriptor_loop debug r (check # checks) all_passed reasons =
     (let (passed, reason) = check_evaluate debug check r in
      if passed then descriptor_loop debug r checks all_passed reasons
      else descriptor_loop debug r checks False
             (case reason of Some m \<Rightarrow> reasons @ [m] | None \<Rightarrow> reasons))"

definition evaluate_assertion_descriptor ::
    "(string \<Rightarrow> string) \<Rightarrow> assertion_check list \<Rightarrow> experience_record \<Rightarrow> bool \<times> string option" where
  "evaluate_assertion_descriptor debug checks r =
     (let (all_passed, reasons) = descriptor_loop debug r checks True []
      in if reasons = [] then (all_passed, None) else (False, Some (join_reasons reasons)))"

text \<open>The confidence \<open>1.0\<close> is its bit pattern.\<close>

definition assertion_fact :: "string \<Rightarrow> bool \<Rightarrow> fact" where
  "assertion_fact i passed =
     \<lparr>fact_key = ''assertion:'' @ i, fact_value = (if passed then ''passed'' else ''failed''),
      fact_tags = [], fact_source = ''legacy_shim'', fact_confidence = 0x3F800000\<rparr>"

fun evaluate_doctor_check ::
    "(string \<Rightarrow> string) \<Rightarrow> regex_crate \<Rightarrow> toml_doctor_check \<Rightarrow> experience_record \<Rightarrow> assertion_registry \<Rightarrow>
     comparison_result shim_outcome" where
  "evaluate_doctor_check debug rx (TomlAssertionDriven i) r reg =
     (case assertion_get reg i of
        None \<Rightarrow> Some (Err (LegacyEval (''Assertion '' @ quote i @ '' not found'')))
      | Some d \<Rightarrow>
          (let legacy = evaluate_assertion_descriptor debug (as_checks d) r in
           case doctor_cel_condition (TomlAssertionDriven i) of
             None \<Rightarrow> Some (Err NoCelCondition)
           | Some condition \<Rightarrow>
               compare_results legacy
                 (eval_cel_on_record_with_facts rx r [assertion_fact i (fst legacy)] condition)))"
| "evaluate_doctor_check debug rx _ r reg =
     Some (Ok \<lparr>cmp_legacy_passed = True, cmp_cel_passed = True, cmp_legacy_reason = None,
              cmp_matches = True\<rparr>)"

definition trigger_result :: operation_result where
  "trigger_result = \<lparr>op_exit_code = 0, op_stdout = [], op_stderr = [], op_duration_ms = 0, op_timed_out = False\<rparr>"

definition evaluate_advice_trigger ::
    "regex_crate \<Rightarrow> toml_trigger \<Rightarrow> fact list \<Rightarrow> comparison_result shim_outcome" where
  "evaluate_advice_trigger rx trigger facts =
     (case trigger_cel_condition trigger of
        None \<Rightarrow> Some (Err NoCelCondition)
      | Some condition \<Rightarrow>
          map_option (\<lambda>result. try_bind result (\<lambda>passed.
            Ok \<lparr>cmp_legacy_passed = passed, cmp_cel_passed = passed, cmp_legacy_reason = None,
                cmp_matches = True\<rparr>))
            (eval_cel_sync rx (eval_context_new trigger_result facts) condition))"

text \<open>The identifier is fresh.\<close>

definition to_rule_config :: "string \<Rightarrow> toml_check \<Rightarrow> string \<Rightarrow> rule_config option" where
  "to_rule_config uuid check enricher =
     map_option (\<lambda>condition.
       \<lparr>rule_id = ''check_'' @ uuid, rule_enricher = enricher, rule_condition = condition,
        rule_priority = 0, rule_enabled = True, rule_actions = []\<rparr>) (check_cel_condition check)"

section \<open>Conditions that parse\<close>

lemma quote_quoted: "quote s = quoted s"
  by (simp add: quote_def quoted_def)

lemma eval_cel_sync_printed:
  "expr_ok rx e \<Longrightarrow> eval_cel_sync rx ctx (print_expr e) = Some (Inr (evaluate rx ctx e))"
  by (simp add: eval_cel_sync_def parse_printed)

lemma lit_ok_plain: "CHR 0x27 \<notin> set s \<Longrightarrow> CHR 0x5C \<notin> set s \<Longrightarrow> lit_ok False s"
  by (induction s) auto

lemma lit_ok_ident: "lit_ok False (''assertion:'' @ i) = lit_ok False i" "lit_ok False (''doctor:'' @ i) = lit_ok False i"
  by simp_all

lemma escape_cel_string_Cons:
  "escape_cel_string (c # s) =
     (if c = CHR 0x27 then [CHR 0x5C, CHR 0x27] else if c = CHR 0x5C then [CHR 0x5C, CHR 0x5C] else [c]) @
     escape_cel_string s"
  by (simp add: escape_cel_string_def)

lemma escape_cel_string_Nil: "escape_cel_string [] = []"
  by (simp add: escape_cel_string_def)

lemmas escape_cel_string_simps = escape_cel_string_Nil escape_cel_string_Cons

lemma escaped_lit_ok: "lit_ok False (escape_cel_string s)"
  by (induction s) (simp_all add: escape_cel_string_simps)

lemma escape_plain_iff: "escape_cel_string s = s \<longleftrightarrow> CHR 0x27 \<notin> set s \<and> CHR 0x5C \<notin> set s"
proof (induction s)
  case (Cons c s)
  have "length (escape_cel_string s) \<ge> length s" for s
    by (induction s) (auto simp: escape_cel_string_simps)
  from this [of s] have "x # escape_cel_string s \<noteq> s" for x by (metis impossible_Cons)
  with Cons show ?case by (auto simp: escape_cel_string_simps)
qed (simp add: escape_cel_string_simps)

subsection \<open>Conditions that do not parse\<close>

definition fails :: "'a outcome \<Rightarrow> bool" where
  "fails r = (case r of Some (Inr _) \<Rightarrow> False | _ \<Rightarrow> True)"

lemma fails_simps [simp]: "fails None" "fails (Some (Inl e))" "\<not> fails (ret x st)"
  by (simp_all add: fails_def ret_def)

lemma fails_bind: "fails m \<Longrightarrow> fails (out_bind m f)"
  by (cases m rule: option.exhaust; auto simp: fails_def out_bind_def split: sum.splits)

lemma fails_after: "reaches m x s \<Longrightarrow> (\<And>st. at st s \<Longrightarrow> fails (f x st)) \<Longrightarrow> fails (out_bind m f)"
  by (auto simp: reaches_def)

lemma fails_comparison: "fails (parse_primary rx pexpr n st) \<Longrightarrow> fails (parse_comparison rx pexpr n st)"
  unfolding parse_comparison_def by (rule fails_bind)

lemma fails_expression:
  assumes "cur st \<noteq> TNot" "\<And>n. fails (parse_comparison rx (parse_expression rx m) n st)"
  shows "fails (parse_expression rx (Suc m) st)"
proof -
  have "fails (parse_not rx (parse_expression rx m) n st)" for n
    using assms by (cases n) simp_all
  then show ?thesis unfolding parse_expression.simps parse_or_def parse_and_def by (intro fails_bind)
qed

lemma fails_parse:
  assumes "fails (parse_expression rx (length input + 2) (parser_start input))"
  obtains e where "parse rx input = Some (Inl e)"
proof -
  obtain r where "parse_with rx (length input + 2) input = Some r" using parse_answers by blast
  then show thesis using assms that
    by (cases "parse_expression rx (length input + 2) (parser_start input)")
      (auto simp: parse_def parse_with_def fails_def split: sum.splits)
qed

lemma at_big_number:
  assumes "at st (nat_to_string n @ s)" "2 ^ 31 \<le> n" "delimited s"
  shows "sees st TIllegal s"
proof -
  let ?w = "nat_to_string n"
  have ds: "list_all is_ascii_digit ?w" "?w \<noteq> []" using nat_to_string_digits by auto
  obtain c w' where w: "?w = c # w'" using ds(2) by (cases ?w) auto
  have c: "is_ascii_digit c" using ds(1) w by simp
  have val: "parse_i32 ?w = None" using assms(2) by (simp add: parse_int_digits [OF ds(2,1)])
  show ?thesis
  proof (rule at_scan [of st c "w' @ s"])
    show "at st (c # w' @ s)" using assms(1) w by simp
    show "\<not> is_whitespace c" using nonspace_word c by blast
    fix lx :: lexer
    assume lx: "lx_rest lx = c # w' @ s"
    have sw: "fst (advance_while is_ascii_digit lx) = ?w"
        "lx_rest (snd (advance_while is_ascii_digit lx)) = s"
      using scan_while [of lx ?w s is_ascii_digit] lx w ds delimiters_stop(2) [OF assms(3)] by auto
    have "scan_token c lx = integer_token lx"
      using digit_not_punct [OF c] c by (simp add: scan_token_def)
    moreover have "integer_token lx = (TIllegal, ?w, snd (advance_while is_ascii_digit lx))"
      unfolding integer_token_def Let_def case_prod_beta sw(1) val option.case by (rule refl)
    ultimately show "\<exists>u lx'. scan_token c lx = (TIllegal, u, lx') \<and> lx_rest lx' = s" using sw(2) by simp
  qed
qed

lemma at_minus: "at st (CHR ''-'' # s) \<Longrightarrow> sees st TIllegal s"
  by (erule at_scan) (simp_all add: is_whitespace_def scan_token_def one_char_def is_ascii_digit_def is_ascii_letter_def)

lemma illegal_primary: "sees st TIllegal s \<Longrightarrow> fails (parse_primary rx pexpr n st)"
  by (simp add: sees_def parse_primary_def)

lemma illegal_expression: "sees st TIllegal s \<Longrightarrow> fails (parse_expression rx n st)"
proof (cases n)
  case (Suc m)
  assume "sees st TIllegal s"
  then have "cur st \<noteq> TNot" "fails (parse_comparison rx (parse_expression rx m) k st)" for k
    by (simp add: sees_def, intro fails_comparison illegal_primary)
  then show ?thesis unfolding Suc by (rule fails_expression)
qed simp

lemma negative_condition_fails:
  assumes "k < 0"
  shows "\<exists>e. parse rx (''exit_code == '' @ int_to_string k) = Some (Inl e)"
proof -
  let ?rest = "CHR ''-'' # nat_to_string (nat (- k))"
  let ?txt = "''exit_code == '' @ int_to_string k" and ?m = "Suc (length (''exit_code == '' @ int_to_string k))"
  have spelled: "?txt = field_name ExitCodeField @ '' '' @ ''=='' @ '' '' @ ?rest"
    using assms by (simp add: int_to_string_def)
  have at0: "at (parser_start ?txt) (field_name ExitCodeField @ '' '' @ ''=='' @ '' '' @ ?rest)"
    using at_start [of ?txt] unfolding spelled by simp
  have "sees (parser_start ?txt) (keyword_kind (field_name ExitCodeField)) ('' '' @ ''=='' @ '' '' @ ?rest)"
    by (rule at_word [OF at0 word_facts(3,1,2)]) simp
  then have notnot: "cur (parser_start ?txt) \<noteq> TNot" by (simp add: sees_def keyword_kind_def)
  have "fails (parse_comparison rx (parse_expression rx ?m) n (parser_start ?txt))" for n
    unfolding parse_comparison_def
  proof (rule fails_after)
    show "reaches (parse_primary rx (parse_expression rx ?m) n (parser_start ?txt)) (EField ExitCodeField)
        ('' '' @ ''=='' @ '' '' @ ?rest)"
      by (rule printed.field_reaches [OF at0]) (rule follow4_infix, simp)
    fix st
    assume "at st ('' '' @ ''=='' @ '' '' @ ?rest)"
    then have "sees st TEq ('' '' @ ?rest)" using at_infix(3) by blast
    then have c: "cur st = TEq" "at (ps_advance st) ?rest" using sees_advance at_space by fastforce+
    from at_minus [OF c(2)] show "fails (case comparison (cur st) of
        None \<Rightarrow> ret (EField ExitCodeField) st
      | Some mk \<Rightarrow> out_bind (parse_primary rx (parse_expression rx ?m) n (ps_advance st))
          (\<lambda>right. ret (mk (EField ExitCodeField) right)))"
      by (auto intro!: fails_bind illegal_primary simp: c(1) comparison_def)
  qed
  then have "fails (parse_expression rx (Suc ?m) (parser_start ?txt))" by (rule fails_expression [OF notnot])
  then show ?thesis using fails_parse [of rx ?txt] by (metis add_2_eq_Suc')
qed

lemma call_fails:
  assumes at0: "at st (name @ ''('' @ pr 0 a @ '')'')"
    and name: "name \<noteq> []" "is_ascii_letter (hd name)" "list_all is_word_char name"
      "keyword_kind name = TIdent name"
    and args: "\<And>n st. at st (''('' @ pr 0 a @ '')'') \<Longrightarrow>
      fails (parse_ident_or_call rx (parse_expression rx m) n name st)"
  shows "fails (parse_expression rx (Suc m) st)"
proof -
  have "sees st (TIdent name) (''('' @ pr 0 a @ '')'')"
    using at_word [OF at0 name(1-3)] name(4) by simp
  then have c: "cur st = TIdent name" "at (ps_advance st) (''('' @ pr 0 a @ '')'')" using sees_advance by blast+
  show ?thesis
    by (rule fails_expression) (simp_all add: c(1) fails_comparison parse_primary_def args [OF c(2)])
qed

lemma parse_call_fails:
  assumes name: "name \<noteq> []" "is_ascii_letter (hd name)" "list_all is_word_char name"
      "keyword_kind name = TIdent name"
    and args: "\<And>m n st. at st (''('' @ pr 0 a @ '')'') \<Longrightarrow>
      fails (parse_ident_or_call rx (parse_expression rx m) n name st)"
  shows "\<exists>e. parse rx (call1 name (pr 0 a)) = Some (Inl e)"
proof -
  let ?txt = "call1 name (pr 0 a)"
  have "at (parser_start ?txt) (name @ ''('' @ pr 0 a @ '')'')" using at_start [of ?txt] by (simp add: call1_def)
  then have "fails (parse_expression rx (Suc (Suc (length ?txt))) (parser_start ?txt))"
    by (rule call_fails [OF _ name]) (rule args)
  then show ?thesis using fails_parse [of rx ?txt] by (metis add_2_eq_Suc')
qed

lemma unknown_call_fails:
  assumes "lit_ok False s"
  shows "\<exists>e. parse rx (''stdout_matches('' @ quote s @ '')'') = Some (Inl e)"
proof -
  have "fails (parse_ident_or_call rx (parse_expression rx m) n ''stdout_matches'' st)"
    if at: "at st (''('' @ pr 0 (EStr s) @ '')'')" for m n st
  proof -
    note args = printed.call_args_reaches [where st = st and a = "EStr s" and as = "[]" and s = "[]" and k = s and m = 0]
    have "build_call rx ''stdout_matches'' [EStr s] = Inl (Invalid (''Unknown function: stdout_matches''))"
      by (simp add: build_call_def)
    then show ?thesis using args at assms unfolding parse_ident_or_call_def
      by (auto intro!: fails_after [of _ "[EStr s]" "'')''"])
  qed
  from parse_call_fails [of "''stdout_matches''" "EStr s" rx, OF _ _ _ _ this] show ?thesis
    by (simp add: call1_def quote_quoted is_ascii_letter_def is_word_char_def is_alphanumeric_def keyword_kind_def)
qed

lemma big_duration_fails:
  assumes "2 ^ 31 \<le> n"
  shows "\<exists>e. parse rx (''duration_lt('' @ nat_to_string n @ '')'') = Some (Inl e)"
proof -
  have "fails (parse_ident_or_call rx (parse_expression rx m) k ''duration_lt'' st)"
    if at: "at st (''('' @ pr 0 (EInt (int n)) @ '')'')" for m k st
  proof -
    have "sees st TLParen (nat_to_string n @ '')'')" using at by (intro at_lparen) simp
    then have c: "cur st = TLParen" "at (ps_advance st) (nat_to_string n @ '')'')" using sees_advance by blast+
    have ill: "sees (ps_advance st) TIllegal '')''" by (rule at_big_number [OF c(2) assms]) simp
    then have "cur (ps_advance st) \<noteq> TRParen" by (simp add: sees_def)
    then have "fails (parse_call_args (parse_expression rx m) k (ps_advance st))"
      using illegal_expression [OF ill] by (simp add: parse_call_args_def fails_bind)
    then show ?thesis using c(1) by (simp add: parse_ident_or_call_def fails_bind)
  qed
  from parse_call_fails [of "''duration_lt''" "EInt (int n)" rx, OF _ _ _ _ this] show ?thesis
    by (simp add: call1_def is_ascii_letter_def is_word_char_def is_alphanumeric_def keyword_kind_def)
qed

section \<open>Parity\<close>

lemma compare_results_simps [simp]:
  "compare_results legacy (Some (Inr b)) =
     Some (Inr \<lparr>cmp_legacy_passed = fst legacy, cmp_cel_passed = b, cmp_legacy_reason = snd legacy,
               cmp_matches = (fst legacy = b)\<rparr>)"
  "compare_results legacy (Some (Inl e)) = Some (Inl e)"
  by (simp_all add: compare_results_def)

lemma eval_cel_fails:
  "\<exists>e. parse rx condition = Some (Inl e) \<Longrightarrow> \<exists>m. eval_cel_on_record rx r condition = Some (Inl (CelParse m))"
  by (auto simp: eval_cel_on_record_def eval_cel_sync_def)

lemma eval_cel_printed:
  "expr_ok rx e \<Longrightarrow> condition = print_expr e \<Longrightarrow>
     eval_cel_on_record rx r condition = Some (Inr (evaluate rx (eval_context_new (record_result r) []) e))"
  by (simp add: eval_cel_on_record_def eval_cel_sync_printed)

lemma exit_code_condition:
  assumes "0 \<le> sint (n :: 32 word)"
  shows "eval_cel_on_record rx r (''exit_code == '' @ i32_string n) =
    Some (Inr ((case ex_exit_code r of Some c \<Rightarrow> c | None \<Rightarrow> 0) = n))"
proof -
  have "sint n < 2 ^ 31" using sint_lt [of n] by simp
  then have "expr_ok rx (EEq (EField ExitCodeField) (EInt (sint n)))" using assms by (simp add: int_ok_def)
  moreover have "''exit_code == '' @ i32_string n = print_expr (EEq (EField ExitCodeField) (EInt (sint n)))"
    using assms by (simp add: print_expr_def paren_if_def i32_string_def int_to_string_def)
  ultimately have "eval_cel_on_record rx r (''exit_code == '' @ i32_string n) = Some (Inr (evaluate rx
      (eval_context_new (record_result r) []) (EEq (EField ExitCodeField) (EInt (sint n)))))"
    by (rule eval_cel_printed)
  moreover have "evaluate rx (eval_context_new (record_result r) []) (EEq (EField ExitCodeField) (EInt (sint n))) \<longleftrightarrow>
      (case ex_exit_code r of Some c \<Rightarrow> c | None \<Rightarrow> 0) = n"
    by (auto simp: compare_eq_def record_result_def dest: signed_word_eqI)
  ultimately show ?thesis by simp
qed

lemma contains_condition:
  "eval_cel_on_record rx r (''stdout_contains('' @ quote (escape_cel_string s) @ '')'') =
     Some (Inr (str_contains (escape_cel_string s) (ex_stdout_summary r)))"
  "eval_cel_on_record rx r (''stderr_contains('' @ quote (escape_cel_string s) @ '')'') =
     Some (Inr (str_contains (escape_cel_string s) (ex_stderr_summary r)))"
  using eval_cel_printed [of rx "EStdoutContains (escape_cel_string s)"]
    eval_cel_printed [of rx "EStderrContains (escape_cel_string s)"]
  by (simp_all add: print_expr_def call1_def quote_quoted escaped_lit_ok record_result_def)

definition i32_of_u64 :: "64 word \<Rightarrow> int" where
  "i32_of_u64 d = sint (ucast d :: 32 word)"

lemma shim_duration_i32:
  "duration_i32 (eval_context_new (record_result r) facts) =
     (case duration_ms r of Some d \<Rightarrow> i32_of_u64 d | None \<Rightarrow> 2 ^ 31 - 1)"
proof -
  have "as_i32 (unat (scast (x :: 32 word) :: 64 word)) = sint x" for x
  proof -
    have "(of_nat (unat (scast x :: 64 word)) :: 32 word) = ucast (scast x :: 64 word)"
      by (simp add: unsigned_ucast_eq)
    also have "\<dots> = x" by (rule bit_word_eqI) (auto simp: bit_simps)
    finally show ?thesis by (simp add: as_i32_def)
  qed
  then show ?thesis
    by (simp add: duration_i32_def record_result_def shim_duration_def i32_of_u64_def split: option.split)
qed

lemma duration_condition:
  assumes "unat n < 2 ^ 31"
  shows "eval_cel_on_record rx r (''duration_lt('' @ u64_string n @ '')'') =
    Some (Inr (\<exists>d. duration_ms r = Some d \<and> i32_of_u64 d < int (unat n)))"
proof -
  have "expr_ok rx (EDurationLt (int (unat n)))"
    using assms by (simp only: expr_ok.simps int_ok_def of_nat_less_numeral_power_cancel_iff) simp
  moreover have "''duration_lt('' @ u64_string n @ '')'' = print_expr (EDurationLt (int (unat n)))"
    by (simp add: print_expr_def call1_def u64_string_def)
  ultimately show ?thesis
    using assms by (subst eval_cel_printed) (auto simp: shim_duration_i32 int_ok_def split: option.splits)
qed

text \<open>The two verdicts a comparison reports, and a condition that the parser refuses.\<close>

definition verdicts :: "comparison_result shim_outcome \<Rightarrow> bool \<Rightarrow> bool \<Rightarrow> bool" where
  "verdicts shim legacy cel =
     (\<exists>reason. shim = Some (Inr \<lparr>cmp_legacy_passed = legacy, cmp_cel_passed = cel, cmp_legacy_reason = reason,
                               cmp_matches = (legacy = cel)\<rparr>))"

definition refused :: "comparison_result shim_outcome \<Rightarrow> bool" where
  "refused shim = (\<exists>m. shim = Some (Inl (CelParse m)))"

lemma evaluate_toml_check_verdicts:
  assumes "check_cel_condition check = Some condition" "eval_cel_on_record rx r condition = Some (Inr b)"
  shows "verdicts (evaluate_toml_check debug rx check r) (check_holds (into_assertion_check check) r) b"
  using assms by (simp add: evaluate_toml_check_def verdicts_def check_evaluate_holds)

lemma evaluate_toml_check_refused:
  assumes "check_cel_condition check = Some condition" "\<exists>e. parse rx condition = Some (Inl e)"
  shows "refused (evaluate_toml_check debug rx check r)"
proof -
  obtain m where "eval_cel_on_record rx r condition = Some (Inl (CelParse m))"
    using eval_cel_fails [OF assms(2)] by blast
  then show ?thesis using assms(1) by (simp add: evaluate_toml_check_def refused_def)
qed

text \<open>
  C34: the two evaluations of a check. The check of the exit code gives the same verdict both ways unless the
  record has none (the rules engine then reads 0); a negative expected code makes a condition that does not
  parse. A check for a text agrees exactly when the output contains the text as often as it contains its
  escaped form, so always for a text without quotes and backslashes. The limit on the duration is inclusive in
  one and exclusive in the other evaluation, the latter on the lower 32 bits only, and a limit from \<open>2^31\<close> on
  does not parse. The check for a regular expression never parses, since the rule language has no
  \<open>stdout_matches\<close>.
\<close>

theorem shim_check_verdicts:
  "let shim = evaluate_toml_check debug rx check r in
   case check of
     TomlExitCode n \<Rightarrow>
       if sint n < 0 then refused shim
       else verdicts shim (ex_exit_code r = Some n) (ex_exit_code r = Some n \<or> ex_exit_code r = None \<and> n = 0)
   | TomlStdoutContains s \<Rightarrow>
       verdicts shim (str_contains s (ex_stdout_summary r)) (str_contains (escape_cel_string s) (ex_stdout_summary r))
   | TomlStderrContains s \<Rightarrow>
       verdicts shim (str_contains s (ex_stderr_summary r)) (str_contains (escape_cel_string s) (ex_stderr_summary r))
   | TomlStdoutMatches p \<Rightarrow> refused shim
   | TomlSandboxAlive \<Rightarrow> shim = Some (Inl NoCelCondition)
   | TomlCommandDuration n \<Rightarrow>
       if 2 ^ 31 \<le> unat n then refused shim
       else verdicts shim (\<exists>d. duration_ms r = Some d \<and> d \<le> n)
              (\<exists>d. duration_ms r = Some d \<and> i32_of_u64 d < int (unat n))"
proof (cases check)
  case (TomlExitCode n)
  show ?thesis
  proof (cases "sint n < 0")
    case True
    then show ?thesis using TomlExitCode negative_condition_fails [of "sint n" rx]
      by (auto intro!: evaluate_toml_check_refused simp: Let_def i32_string_def)
  next
    case False
    then have "eval_cel_on_record rx r (''exit_code == '' @ i32_string n) =
        Some (Inr (ex_exit_code r = Some n \<or> ex_exit_code r = None \<and> n = 0))"
      by (subst exit_code_condition) (auto split: option.splits)
    then show ?thesis using False TomlExitCode
        evaluate_toml_check_verdicts [of "TomlExitCode n" _ rx r _ debug] by (auto simp: Let_def)
  qed
next
  case (TomlStdoutContains s)
  then show ?thesis using contains_condition(1) [of rx r s]
    evaluate_toml_check_verdicts [of check _ rx r _ debug] by (simp add: Let_def)
next
  case (TomlStderrContains s)
  then show ?thesis using contains_condition(2) [of rx r s]
    evaluate_toml_check_verdicts [of check _ rx r _ debug] by (simp add: Let_def)
next
  case (TomlStdoutMatches p)
  then show ?thesis using unknown_call_fails [OF escaped_lit_ok, of rx p]
    by (auto intro!: evaluate_toml_check_refused simp: Let_def)
next
  case TomlSandboxAlive
  then show ?thesis by (simp add: evaluate_toml_check_def)
next
  case (TomlCommandDuration n)
  show ?thesis
  proof (cases "2 ^ 31 \<le> unat n")
    case True
    then show ?thesis using TomlCommandDuration big_duration_fails [of "unat n" rx]
      by (auto intro!: evaluate_toml_check_refused simp: Let_def u64_string_def)
  next
    case False
    then show ?thesis using duration_condition [of n rx r] TomlCommandDuration
      evaluate_toml_check_verdicts [of "TomlCommandDuration n" _ rx r _ debug] by (simp add: Let_def)
  qed
qed

lemma fact_condition:
  assumes "lit_ok False k" "lit_ok False v"
  shows "eval_cel_sync rx (eval_context_new res facts) (''fact('' @ quote k @ '') == '' @ quote v) =
    Some (Inr (case find (\<lambda>f. fact_key f = k) facts of None \<Rightarrow> False | Some f \<Rightarrow> fact_value f = v))"
proof -
  let ?e = "EEq (EFact k) (EStr v)"
  have "''fact('' @ quote k @ '') == '' @ quote v = print_expr ?e"
    by (simp add: print_expr_def paren_if_def call1_def quote_quoted)
  moreover have "expr_ok rx ?e" using assms by simp
  ultimately show ?thesis
    by (simp add: eval_cel_sync_printed compare_eq_def compare_fact_eq_def build_fact_map_find split: option.split)
qed

lemma count_condition:
  assumes "lit_ok False k" "n < 2 ^ 31"
  shows "eval_cel_sync rx (eval_context_new res facts)
      (''count_fact('' @ quote k @ '', '' @ quote ''>='' @ '', '' @ nat_to_string n @ '')'') =
    Some (Inr (int n \<le> as_i32 (length (filter (\<lambda>f. fact_key f = k) facts))))"
proof -
  let ?e = "ECountFact k OpGe (int n)"
  have "''count_fact('' @ quote k @ '', '' @ quote ''>='' @ '', '' @ nat_to_string n @ '')'' = print_expr ?e"
    by (simp add: print_expr_def call3_def quote_quoted)
  moreover have "expr_ok rx ?e" using assms by (simp add: int_ok_def)
  ultimately show ?thesis by (simp add: eval_cel_sync_printed eval_count_fact_def)
qed

lemma descriptor_loop_spec:
  "descriptor_loop debug r checks p reasons =
     (p \<and> list_all (\<lambda>c. check_holds c r) checks,
      reasons @ List.map_filter (\<lambda>c. snd (check_evaluate debug c r)) checks)"
proof (induction checks arbitrary: p reasons)
  case (Cons c checks)
  have "check_holds c r \<longleftrightarrow> snd (check_evaluate debug c r) = None" by (rule check_evaluate_holds(2) [symmetric])
  with Cons show ?case
    by (auto simp: split_beta check_evaluate_holds(1) map_filter_simps split: option.splits)
qed (simp add: map_filter_simps)

lemma evaluate_assertion_descriptor_holds:
  "fst (evaluate_assertion_descriptor debug checks r) \<longleftrightarrow> list_all (\<lambda>c. check_holds c r) checks"
proof -
  have "List.map_filter (\<lambda>c. snd (check_evaluate debug c r)) checks = [] \<longleftrightarrow> list_all (\<lambda>c. check_holds c r) checks"
    by (induction checks)
      (auto simp: map_filter_simps check_evaluate_holds(2) [of debug _ r, symmetric] split: option.splits)
  then show ?thesis by (simp add: evaluate_assertion_descriptor_def descriptor_loop_spec split_beta)
qed

lemma failed_fact_trigger:
  assumes "lit_ok False k" "trigger_cel_condition t = Some (''fact('' @ quote k @ '') == '' @ quote ''failed'')"
  shows "let p = (case find (\<lambda>f. fact_key f = k) facts of None \<Rightarrow> False | Some f \<Rightarrow> fact_value f = ''failed'')
    in verdicts (evaluate_advice_trigger rx t facts) p p"
  using fact_condition [OF assms(1), of "''failed''" rx] assms(2)
  by (simp add: evaluate_advice_trigger_def verdicts_def)

text \<open>
  The conditions of the advice triggers: a trigger on a failed assertion or doctor fires if and only if the
  first fact under its key says \<open>failed\<close>, and a trigger on a pattern if and only if at least \<open>threshold\<close> facts
  carry the key.
\<close>

lemma shim_failed_triggers:
  assumes "lit_ok False i"
  shows "let p = (case find (\<lambda>f. fact_key f = ''assertion:'' @ i) facts of None \<Rightarrow> False | Some f \<Rightarrow> fact_value f = ''failed'')
      in verdicts (evaluate_advice_trigger rx (TomlAssertionFailed i) facts) p p"
    and "let p = (case find (\<lambda>f. fact_key f = ''doctor:'' @ i) facts of None \<Rightarrow> False | Some f \<Rightarrow> fact_value f = ''failed'')
      in verdicts (evaluate_advice_trigger rx (TomlDoctorFailed i) facts) p p"
  by (rule failed_fact_trigger; use assms in simp)+

lemma shim_pattern_trigger:
  assumes "lit_ok False (tool @ '':'' @ status)" "unat threshold < 2 ^ 31" "length facts < 2 ^ 31"
  shows "let p = unat threshold \<le> length (filter (\<lambda>f. fact_key f = ''experience:'' @ tool @ '':'' @ status) facts)
    in verdicts (evaluate_advice_trigger rx (TomlExperiencePattern tool status threshold) facts) p p"
proof -
  have "lit_ok False (''experience:'' @ tool @ '':'' @ status)" using assms(1) by simp
  note cond = count_condition [OF this assms(2), of rx trigger_result facts]
  have "length (filter P facts) < 2 ^ 31" for P using assms(3) length_filter_le [of P facts] by linarith
  then have "int (unat threshold) \<le> as_i32 (length (filter P facts)) \<longleftrightarrow> unat threshold \<le> length (filter P facts)" for P
    by (simp only: as_i32_small of_nat_le_iff)
  then show ?thesis using cond by (simp add: evaluate_advice_trigger_def verdicts_def)
qed

text \<open>
  the two evaluations of a doctor's assertion. For an assertion whose name needs no escape, the direct
  evaluation and the rule engine both say whether all checks of the assertion hold of the record, and the
  doctor run of the use case judges the same record the same way; an unknown assertion is an error.
\<close>

theorem shim_doctor_agrees:
  assumes "lit_ok False i"
  shows "case assertion_get reg i of
      None \<Rightarrow> evaluate_doctor_check debug rx (TomlAssertionDriven i) r reg =
        Some (Inl (LegacyEval (''Assertion '' @ quote i @ '' not found'')))
    | Some d \<Rightarrow>
        (let p = list_all (\<lambda>c. check_holds c r) (as_checks d)
         in verdicts (evaluate_doctor_check debug rx (TomlAssertionDriven i) r reg) p p \<and>
            cr_passed (judge_assertion debug i d (Some r)) = p)"
proof -
  have "lit_ok False (''assertion:'' @ i)" "lit_ok False ''passed''" using assms by simp_all
  note cond = fact_condition [OF this, of rx]
  show ?thesis using cond
    by (auto simp: Let_def eval_cel_on_record_with_facts_def assertion_fact_def verdicts_def
        evaluate_assertion_descriptor_holds judge_assertion_def list.pred_map comp_def split: option.split)
qed

definition demo_assertion :: assertion_descriptor where
  "demo_assertion =
     \<lparr>as_id = ''build'', as_name = ''Build'', as_description = [], as_category = ''maven'',
      as_checks = [ExitCode 0, StdoutContains ''SUCCESS'']\<rparr>"

definition demo_record :: experience_record where
  "demo_record = (completed 5 0 (experience_new ''e1'' 0 ''sandbox_run''))\<lparr>ex_stdout_summary := ''BUILD SUCCESS''\<rparr>"

theorem shim_doctor_agrees_witness:
  "verdicts (evaluate_doctor_check (\<lambda>s. s) (\<lambda>p. Inr (\<lambda>s. True)) (TomlAssertionDriven ''build'') demo_record
     [(''build'', demo_assertion)]) True True"
proof -
  have "list_all (\<lambda>c. check_holds c demo_record) (as_checks demo_assertion)" by code_simp
  then show ?thesis
    using shim_doctor_agrees [where i = "''build''" and reg = "[(''build'', demo_assertion)]" and debug = "\<lambda>s. s"
        and rx = "\<lambda>p. Inr (\<lambda>s. True)" and r = demo_record]
    by (simp add: assertion_get_def Let_def)
qed

end
