(* ===== verification/Provider_Model.thy ===== *)
theory Provider_Model
  imports Catalog_Files
begin

text \<open>
  What the gateway knows about its providers: \<open>bastion-domain/src/provider\<close>. Capabilities and the registry of
  provider types, the references a configuration is made of and their conversions, the configuration of an
  instance, its constraints, and the instance itself with its status. A call of \<open>expect\<close> that fails is the value
  \<open>None\<close>. Paths are strings, as long as they are valid Unicode.
\<close>

section \<open>Capabilities\<close>

record provider_capabilities =
  supports_snapshots :: bool
  supports_streaming :: bool
  supports_pause_resume :: bool
  max_timeout_ms :: "64 word"
  max_memory_mb :: "64 word"
  max_cpu_count :: "32 word"
  supports_networking :: bool
  requires_kvm :: bool
  avg_startup_ms :: "32 word"

datatype validation_error = ZeroValue string

fun validation_error_display :: "validation_error \<Rightarrow> string" where
  "validation_error_display (ZeroValue f) = f @ '' must be greater than zero''"

definition capabilities_try_new ::
    "bool \<Rightarrow> bool \<Rightarrow> bool \<Rightarrow> 64 word \<Rightarrow> 64 word \<Rightarrow> 32 word \<Rightarrow> bool \<Rightarrow> bool \<Rightarrow> 32 word \<Rightarrow>
     (validation_error, provider_capabilities) result" where
  "capabilities_try_new snapshots streaming pause timeout memory cpu networking kvm startup =
     (if timeout = 0 then Err (ZeroValue ''max_timeout_ms'')
      else if memory = 0 then Err (ZeroValue ''max_memory_mb'')
      else if cpu = 0 then Err (ZeroValue ''max_cpu_count'')
      else if startup = 0 then Err (ZeroValue ''avg_startup_ms'')
      else Ok \<lparr>supports_snapshots = snapshots, supports_streaming = streaming, supports_pause_resume = pause,
               max_timeout_ms = timeout, max_memory_mb = memory, max_cpu_count = cpu,
               supports_networking = networking, requires_kvm = kvm, avg_startup_ms = startup\<rparr>)"

definition capabilities_default :: provider_capabilities where
  "capabilities_default =
     \<lparr>supports_snapshots = False, supports_streaming = True, supports_pause_resume = False,
      max_timeout_ms = 86400000, max_memory_mb = 16384, max_cpu_count = 16,
      supports_networking = True, requires_kvm = False, avg_startup_ms = 1500\<rparr>"

definition supports_all :: "provider_capabilities \<Rightarrow> provider_capabilities \<Rightarrow> bool" where
  "supports_all self required =
     ((\<not> supports_snapshots required \<or> supports_snapshots self) \<and>
      (\<not> supports_streaming required \<or> supports_streaming self) \<and>
      (\<not> supports_pause_resume required \<or> supports_pause_resume self) \<and>
      max_timeout_ms self \<ge> max_timeout_ms required \<and>
      max_memory_mb self \<ge> max_memory_mb required \<and>
      max_cpu_count self \<ge> max_cpu_count required \<and>
      (\<not> supports_networking required \<or> supports_networking self) \<and>
      (\<not> requires_kvm required \<or> requires_kvm self) \<and>
      avg_startup_ms self \<le> avg_startup_ms required)"

text \<open>The section \<open>[capabilities]\<close> of a provider file; what is left out has a default.\<close>

record capabilities_config =
  cc_supports_snapshots :: "bool option"
  cc_supports_streaming :: "bool option"
  cc_avg_startup_ms :: "32 word option"
  cc_max_memory_mb :: "64 word option"
  cc_max_cpu_count :: "32 word option"
  cc_requires_kvm :: "bool option"

definition value_or :: "'a option \<Rightarrow> 'a \<Rightarrow> 'a" where
  "value_or x d = (case x of Some v \<Rightarrow> v | None \<Rightarrow> d)"

definition expect_ok :: "('e, 'a) result \<Rightarrow> 'a option" where
  "expect_ok r = (case r of Inr x \<Rightarrow> Some x | Inl e \<Rightarrow> None)"

definition into_domain :: "capabilities_config \<Rightarrow> provider_capabilities option" where
  "into_domain c =
     expect_ok (capabilities_try_new
       (value_or (cc_supports_snapshots c) False) (value_or (cc_supports_streaming c) True) False
       86400000 (value_or (cc_max_memory_mb c) 16384) (value_or (cc_max_cpu_count c) 16)
       True (value_or (cc_requires_kvm c) False) (value_or (cc_avg_startup_ms c) 1500))"

lemma value_or_simps [simp]: "value_or None d = d" "value_or (Some v) d = v"
  by (simp_all add: value_or_def)

definition capabilities_valid :: "provider_capabilities \<Rightarrow> bool" where
  "capabilities_valid c \<longleftrightarrow>
     0 < max_timeout_ms c \<and> 0 < max_memory_mb c \<and> 0 < max_cpu_count c \<and> 0 < avg_startup_ms c"

lemma capabilities_try_new_iff:
  "capabilities_try_new sn st pa ti me cp ne kv sa = Inr c \<longleftrightarrow>
     capabilities_valid c \<and>
     c = \<lparr>supports_snapshots = sn, supports_streaming = st, supports_pause_resume = pa, max_timeout_ms = ti,
          max_memory_mb = me, max_cpu_count = cp, supports_networking = ne, requires_kvm = kv, avg_startup_ms = sa\<rparr>"
  by (auto simp: capabilities_try_new_def capabilities_valid_def word_neq_0_conv)

lemma capabilities_default_valid: "capabilities_valid capabilities_default"
  by (simp add: capabilities_valid_def capabilities_default_def)

text \<open>The builders. They do not check what they set.\<close>

definition caps_with_supports_snapshots where "caps_with_supports_snapshots v c = c\<lparr>supports_snapshots := v\<rparr>"
definition caps_with_supports_streaming where "caps_with_supports_streaming v c = c\<lparr>supports_streaming := v\<rparr>"
definition caps_with_supports_pause_resume where "caps_with_supports_pause_resume v c = c\<lparr>supports_pause_resume := v\<rparr>"
definition caps_with_max_timeout_ms where "caps_with_max_timeout_ms v c = c\<lparr>max_timeout_ms := v\<rparr>"
definition caps_with_max_memory_mb where "caps_with_max_memory_mb v c = c\<lparr>max_memory_mb := v\<rparr>"
definition caps_with_max_cpu_count where "caps_with_max_cpu_count v c = c\<lparr>max_cpu_count := v\<rparr>"
definition caps_with_supports_networking where "caps_with_supports_networking v c = c\<lparr>supports_networking := v\<rparr>"
definition caps_with_requires_kvm where "caps_with_requires_kvm v c = c\<lparr>requires_kvm := v\<rparr>"
definition caps_with_avg_startup_ms where "caps_with_avg_startup_ms v c = c\<lparr>avg_startup_ms := v\<rparr>"

lemmas caps_builder_defs =
  caps_with_supports_snapshots_def caps_with_supports_streaming_def caps_with_supports_pause_resume_def
  caps_with_max_timeout_ms_def caps_with_max_memory_mb_def caps_with_max_cpu_count_def
  caps_with_supports_networking_def caps_with_requires_kvm_def caps_with_avg_startup_ms_def

text \<open>A builder may leave the valid values, and is then the only way to get there.\<close>

lemma caps_builders_valid:
  assumes "capabilities_valid c"
  shows "capabilities_valid (caps_with_supports_snapshots b c)" "capabilities_valid (caps_with_supports_streaming b c)"
    "capabilities_valid (caps_with_supports_pause_resume b c)" "capabilities_valid (caps_with_supports_networking b c)"
    "capabilities_valid (caps_with_requires_kvm b c)"
    "capabilities_valid (caps_with_max_timeout_ms v c) \<longleftrightarrow> v \<noteq> 0"
    "capabilities_valid (caps_with_max_memory_mb v c) \<longleftrightarrow> v \<noteq> 0"
    "capabilities_valid (caps_with_max_cpu_count w c) \<longleftrightarrow> w \<noteq> 0"
    "capabilities_valid (caps_with_avg_startup_ms w c) \<longleftrightarrow> w \<noteq> 0"
  using assms by (simp_all add: capabilities_valid_def caps_builder_defs word_neq_0_conv)

text \<open>The configured values are not checked before \<open>expect\<close>: a zero in the file aborts.\<close>

lemma into_domain_panics_iff:
  "into_domain c = None \<longleftrightarrow>
     cc_max_memory_mb c = Some 0 \<or> cc_max_cpu_count c = Some 0 \<or> cc_avg_startup_ms c = Some 0"
  by (auto simp: into_domain_def expect_ok_def capabilities_try_new_def value_or_def split: option.splits)

text \<open>\<open>supports_all\<close> is a preorder, and antisymmetric on the values themselves.\<close>

lemma supports_all_refl [simp]: "supports_all c c"
  by (simp add: supports_all_def)

lemma supports_all_trans: "supports_all a b \<Longrightarrow> supports_all b c \<Longrightarrow> supports_all a c"
  unfolding supports_all_def by (elim conjE) (intro conjI; blast intro: order_trans)

lemma supports_all_antisym: "supports_all a b \<Longrightarrow> supports_all b a \<Longrightarrow> a = (b :: provider_capabilities)"
  unfolding supports_all_def by (intro provider_capabilities.equality) (auto intro: antisym)

section \<open>Provider types\<close>

datatype lifecycle_model = ContainerModel | VirtualMachine | WasmModel | Serverless | LocalModel

fun lifecycle_model_display :: "lifecycle_model \<Rightarrow> string" where
  "lifecycle_model_display ContainerModel = ''container''"
| "lifecycle_model_display VirtualMachine = ''virtual_machine''"
| "lifecycle_model_display WasmModel = ''wasm''"
| "lifecycle_model_display Serverless = ''serverless''"
| "lifecycle_model_display LocalModel = ''local''"

record provider_type =
  pt_id :: string
  pt_capabilities :: provider_capabilities
  pt_lifecycle_model :: lifecycle_model
  pt_avg_startup_ms :: "32 word"
  pt_requires_kvm :: bool
  pt_supports_snapshots :: bool

definition container_capabilities :: "provider_capabilities option" where
  "container_capabilities = expect_ok (capabilities_try_new True True True 86400000 16384 16 True False 1500)"

definition vm_capabilities :: "provider_capabilities option" where
  "vm_capabilities = expect_ok (capabilities_try_new True True True 86400000 65536 32 True True 500)"

definition wasm_capabilities :: "provider_capabilities option" where
  "wasm_capabilities = expect_ok (capabilities_try_new False True False 300000 512 4 False False 50)"

definition local_capabilities :: "provider_capabilities option" where
  "local_capabilities = expect_ok (capabilities_try_new False True False 86400000 65536 64 True False 1)"

definition serverless_capabilities :: "provider_capabilities option" where
  "serverless_capabilities = expect_ok (capabilities_try_new False True False 900000 3008 2 True False 5000)"

definition type_of ::
    "string \<Rightarrow> provider_capabilities option \<Rightarrow> lifecycle_model \<Rightarrow> 32 word \<Rightarrow> bool \<Rightarrow> bool \<Rightarrow> provider_type option" where
  "type_of i caps m startup kvm snapshots =
     map_option (\<lambda>c. \<lparr>pt_id = i, pt_capabilities = c, pt_lifecycle_model = m, pt_avg_startup_ms = startup,
                      pt_requires_kvm = kvm, pt_supports_snapshots = snapshots\<rparr>) caps"

definition podman_type :: "provider_type option" where
  "podman_type = type_of ''podman'' container_capabilities ContainerModel 1500 False True"

definition docker_type :: "provider_type option" where
  "docker_type = type_of ''docker'' container_capabilities ContainerModel 2000 False True"

definition gvisor_type :: "provider_type option" where
  "gvisor_type = type_of ''gvisor'' container_capabilities ContainerModel 800 True False"

definition firecracker_type :: "provider_type option" where
  "firecracker_type = type_of ''firecracker'' vm_capabilities VirtualMachine 500 True True"

definition wasm_type :: "provider_type option" where
  "wasm_type = type_of ''wasm'' wasm_capabilities WasmModel 50 False False"

definition local_type :: "provider_type option" where
  "local_type = type_of ''local'' local_capabilities LocalModel 0 False False"

definition kubernetes_type :: "provider_type option" where
  "kubernetes_type = type_of ''kubernetes'' serverless_capabilities Serverless 5000 False False"

definition lambda_type :: "provider_type option" where
  "lambda_type = type_of ''lambda'' serverless_capabilities Serverless 1000 False False"

type_synonym type_registry = "(string \<times> provider_type) list"

definition register_type :: "provider_type \<Rightarrow> type_registry \<Rightarrow> type_registry" where
  "register_type t reg = AList.update (pt_id t) t reg"

definition get_type :: "type_registry \<Rightarrow> string \<Rightarrow> provider_type option" where
  "get_type reg i = map_of reg i"

definition list_types :: "type_registry \<Rightarrow> provider_type list" where
  "list_types reg = map snd reg"

fun register_all :: "provider_type option list \<Rightarrow> type_registry \<Rightarrow> type_registry option" where
  "register_all [] reg = Some reg"
| "register_all (t # ts) reg = (case t of None \<Rightarrow> None | Some t \<Rightarrow> register_all ts (register_type t reg))"

definition with_builtin_types :: "type_registry option" where
  "with_builtin_types =
     register_all [podman_type, docker_type, gvisor_type, firecracker_type, wasm_type, local_type,
                   kubernetes_type, lambda_type] []"

lemmas builtin_defs =
  podman_type_def docker_type_def gvisor_type_def firecracker_type_def wasm_type_def local_type_def
  kubernetes_type_def lambda_type_def type_of_def expect_ok_def capabilities_try_new_def
  container_capabilities_def vm_capabilities_def wasm_capabilities_def local_capabilities_def
  serverless_capabilities_def

lemma builtin_registry:
  "\<exists>reg. with_builtin_types = Some reg \<and>
     map fst reg = [''podman'', ''docker'', ''gvisor'', ''firecracker'', ''wasm'', ''local'', ''kubernetes'', ''lambda''] \<and>
     (\<forall>(i, t) \<in> set reg. pt_id t = i \<and> capabilities_valid (pt_capabilities t))"
  by (simp add: with_builtin_types_def builtin_defs register_type_def capabilities_valid_def)

section \<open>Constraints\<close>

text \<open>\<open>usize\<close> has 64 bits.\<close>

record instance_constraints =
  ic_max_sandboxes :: "64 word option"
  ic_max_memory_mb :: "64 word option"
  ic_max_cpu_count :: "32 word option"

definition constraints_default :: instance_constraints where
  "constraints_default = \<lparr>ic_max_sandboxes = None, ic_max_memory_mb = None, ic_max_cpu_count = None\<rparr>"

definition with_max_sandboxes :: "64 word \<Rightarrow> (domain_error, instance_constraints) result" where
  "with_max_sandboxes n =
     (if n = 0 then Err (Validation ''max_sandboxes must be at least 1'')
      else Ok (constraints_default\<lparr>ic_max_sandboxes := Some n\<rparr>))"

definition with_max_memory_mb :: "64 word \<Rightarrow> (domain_error, instance_constraints) result" where
  "with_max_memory_mb n =
     (if n = 0 then Err (Validation ''max_memory_mb must be at least 1'')
      else Ok (constraints_default\<lparr>ic_max_memory_mb := Some n\<rparr>))"

definition with_max_cpu_count :: "32 word \<Rightarrow> (domain_error, instance_constraints) result" where
  "with_max_cpu_count n =
     (if n = 0 then Err (Validation ''max_cpu_count must be at least 1'')
      else Ok (constraints_default\<lparr>ic_max_cpu_count := Some n\<rparr>))"

definition constraints_create ::
    "64 word option \<Rightarrow> 64 word option \<Rightarrow> 32 word option \<Rightarrow> (domain_error, instance_constraints) result" where
  "constraints_create sandboxes memory cpu =
     (if sandboxes = Some 0 then Err (Validation ''max_sandboxes must be at least 1'')
      else if memory = Some 0 then Err (Validation ''max_memory_mb must be at least 1'')
      else if cpu = Some 0 then Err (Validation ''max_cpu_count must be at least 1'')
      else Ok \<lparr>ic_max_sandboxes = sandboxes, ic_max_memory_mb = memory, ic_max_cpu_count = cpu\<rparr>)"

definition is_valid_max_sandboxes :: "instance_constraints \<Rightarrow> bool" where
  "is_valid_max_sandboxes c = (case ic_max_sandboxes c of None \<Rightarrow> True | Some v \<Rightarrow> v \<ge> 1)"

definition is_valid_max_memory_mb :: "instance_constraints \<Rightarrow> bool" where
  "is_valid_max_memory_mb c = (case ic_max_memory_mb c of None \<Rightarrow> True | Some v \<Rightarrow> v \<ge> 1)"

definition is_valid_max_cpu_count :: "instance_constraints \<Rightarrow> bool" where
  "is_valid_max_cpu_count c = (case ic_max_cpu_count c of None \<Rightarrow> True | Some v \<Rightarrow> v \<ge> 1)"

definition constraints_valid :: "instance_constraints \<Rightarrow> bool" where
  "constraints_valid c = (is_valid_max_sandboxes c \<and> is_valid_max_memory_mb c \<and> is_valid_max_cpu_count c)"

definition has_capacity :: "instance_constraints \<Rightarrow> 64 word \<Rightarrow> bool" where
  "has_capacity c current = (case ic_max_sandboxes c of None \<Rightarrow> True | Some n \<Rightarrow> current < n)"

lemmas validity_defs =
  constraints_valid_def is_valid_max_sandboxes_def is_valid_max_memory_mb_def is_valid_max_cpu_count_def

lemma word_ge_1 [simp]: "(1 :: 'a :: len word) \<le> v \<longleftrightarrow> v \<noteq> 0"
  by (simp add: word_le_nat_alt unat_eq_zero Suc_le_eq unat_gt_0)

lemma constraints_create_iff:
  "constraints_create s m c = Inr x \<longleftrightarrow>
     x = \<lparr>ic_max_sandboxes = s, ic_max_memory_mb = m, ic_max_cpu_count = c\<rparr> \<and> constraints_valid x"
  by (auto simp: constraints_create_def validity_defs split: option.splits)

lemma constraints_make:
  "with_max_sandboxes n = constraints_create (Some n) None None"
  "with_max_memory_mb n = constraints_create None (Some n) None"
  "with_max_cpu_count k = constraints_create None None (Some k)"
  by (simp_all add: with_max_sandboxes_def with_max_memory_mb_def with_max_cpu_count_def constraints_create_def
      constraints_default_def)

text \<open>Valid constraints leave room for at least one sandbox, and room is never lost by stopping one.\<close>

lemma has_capacity_valid:
  "constraints_valid c \<Longrightarrow> has_capacity c 0"
  "has_capacity c n \<Longrightarrow> m \<le> n \<Longrightarrow> has_capacity c m"
  by (auto simp: has_capacity_def validity_defs word_neq_0_conv split: option.splits)

section \<open>Images, binaries and locations\<close>

datatype image_pull_policy = Always | IfNotPresent | Never

fun pull_policy_display :: "image_pull_policy \<Rightarrow> string" where
  "pull_policy_display Always = ''always''"
| "pull_policy_display IfNotPresent = ''if_not_present''"
| "pull_policy_display Never = ''never''"

datatype secret_value_kind = PlainText | Base64 | FileSecret

record secret_value =
  sv_kind :: secret_value_kind
  sv_value :: string

record platform =
  pl_os :: string
  pl_arch :: string
  pl_variant :: "string option"

record registry_credentials =
  rc_username :: string
  rc_password :: secret_value
  rc_registry :: "string option"

record image_reference =
  ir_reference :: string
  ir_pull_policy :: image_pull_policy
  ir_credentials :: "registry_credentials option"
  ir_platform :: "platform option"

definition image_reference_new :: "string \<Rightarrow> image_reference" where
  "image_reference_new r =
     \<lparr>ir_reference = r, ir_pull_policy = IfNotPresent, ir_credentials = None, ir_platform = None\<rparr>"

definition with_pull_policy :: "image_pull_policy \<Rightarrow> image_reference \<Rightarrow> image_reference" where
  "with_pull_policy p r = r\<lparr>ir_pull_policy := p\<rparr>"

definition with_credentials :: "registry_credentials \<Rightarrow> image_reference \<Rightarrow> image_reference" where
  "with_credentials c r = r\<lparr>ir_credentials := Some c\<rparr>"

definition with_platform :: "platform \<Rightarrow> image_reference \<Rightarrow> image_reference" where
  "with_platform p r = r\<lparr>ir_platform := Some p\<rparr>"

text \<open>The builders set one field each, so their order does not matter.\<close>

lemma builders_commute:
  "with_pull_policy p (with_credentials c r) = with_credentials c (with_pull_policy p r)"
  "with_pull_policy p (with_platform q r) = with_platform q (with_pull_policy p r)"
  "with_credentials c (with_platform q r) = with_platform q (with_credentials c r)"
  by (simp_all add: with_pull_policy_def with_credentials_def with_platform_def)

datatype module_ref =
    ModuleLocal string
  | ModuleRemote string "string option"
  | ModuleOci image_reference string

datatype worker_binary_source =
    BindMount string
  | PreBakedBinary "string option"
  | Download string "string option" "string option" "string option"
  | CompiledToWasm module_ref
  | Sidecar image_reference "string option"
  | LambdaLayer string "string option"

text \<open>The legacy references and the location that replaces both.\<close>

datatype artifact_location =
    ArtifactLocal string
  | ArtifactRemote string "string option"
  | PreBakedInImage string

datatype binary_ref = BinaryLocal string | BinaryRemote string "string option"

datatype location =
    LocationLocal string
  | LocationRemote string "string option"
  | LocationPreBaked string
  | LocationPhantom

fun location_path :: "location \<Rightarrow> string option" where
  "location_path (LocationLocal p) = Some p"
| "location_path (LocationPreBaked p) = Some p"
| "location_path _ = None"

fun location_url :: "location \<Rightarrow> string option" where
  "location_url (LocationRemote u s) = Some u"
| "location_url _ = None"

fun location_checksum :: "location \<Rightarrow> string option" where
  "location_checksum (LocationRemote u s) = s"
| "location_checksum _ = None"

fun local_path :: "binary_ref \<Rightarrow> string option" where
  "local_path (BinaryLocal p) = Some p"
| "local_path (BinaryRemote u s) = None"

fun remote_url :: "binary_ref \<Rightarrow> string option" where
  "remote_url (BinaryLocal p) = None"
| "remote_url (BinaryRemote u s) = Some u"

fun location_of_artifact :: "artifact_location \<Rightarrow> location" where
  "location_of_artifact (ArtifactLocal p) = LocationLocal p"
| "location_of_artifact (ArtifactRemote u s) = LocationRemote u s"
| "location_of_artifact (PreBakedInImage p) = LocationPreBaked p"

fun artifact_of_location :: "location \<Rightarrow> artifact_location option" where
  "artifact_of_location (LocationLocal p) = Some (ArtifactLocal p)"
| "artifact_of_location (LocationRemote u s) = Some (ArtifactRemote u s)"
| "artifact_of_location (LocationPreBaked p) = Some (PreBakedInImage p)"
| "artifact_of_location LocationPhantom = None"

fun location_of_binary :: "binary_ref \<Rightarrow> location" where
  "location_of_binary (BinaryLocal p) = LocationLocal p"
| "location_of_binary (BinaryRemote u s) = LocationRemote u s"

fun binary_of_location :: "location \<Rightarrow> binary_ref option" where
  "binary_of_location (LocationLocal p) = Some (BinaryLocal p)"
| "binary_of_location (LocationRemote u s) = Some (BinaryRemote u s)"
| "binary_of_location (LocationPreBaked p) = Some (BinaryLocal p)"
| "binary_of_location LocationPhantom = None"

text \<open>
  What the two pairs of conversions share: the legacy value comes back, so the conversion is injective, and
  only the phantom value has no legacy counterpart.
\<close>

locale location_codec =
  fixes to_location :: "'a \<Rightarrow> location" and of_location :: "location \<Rightarrow> 'a option"
  assumes converts_back: "of_location (to_location a) = Some a"
    and defined: "of_location l = None \<longleftrightarrow> l = LocationPhantom"
begin

lemma to_location_inject: "to_location a = to_location b \<longleftrightarrow> a = b"
  by (metis converts_back option.inject)

lemma to_location_real: "to_location a \<noteq> LocationPhantom"
  using converts_back [of a] defined [of "to_location a"] by auto

lemma stable: "of_location l = Some a \<Longrightarrow> of_location (to_location a) = of_location l"
  by (simp add: converts_back)

end

interpretation artifacts: location_codec location_of_artifact artifact_of_location
proof
  show "artifact_of_location (location_of_artifact a) = Some a" for a by (cases a) simp_all
  show "artifact_of_location l = None \<longleftrightarrow> l = LocationPhantom" for l by (cases l) simp_all
qed

interpretation binaries: location_codec location_of_binary binary_of_location
proof
  show "binary_of_location (location_of_binary a) = Some a" for a by (cases a) simp_all
  show "binary_of_location l = None \<longleftrightarrow> l = LocationPhantom" for l by (cases l) simp_all
qed

text \<open>Artifacts keep the location in both directions; a binary baked into an image becomes a local file.\<close>

lemma artifact_location_exact:
  "artifact_of_location l = Some a \<longleftrightarrow> l = location_of_artifact a"
  by (cases l; cases a) auto

lemma binary_location_loses:
  "binary_of_location l = Some b \<Longrightarrow> (location_of_binary b = l) = (\<forall>p. l \<noteq> LocationPreBaked p)"
  by (cases l) auto

datatype socket_location =
    SocketUnix string
  | SocketTcp string "16 word"
  | SocketSsh string "string option" "string option"

datatype mount_location = BindLocation string string bool | VolumeLocation string

datatype socket_ref =
    UnixRef string
  | TcpRef string
  | SshRef string "string option" "string option"

fun socket_address :: "socket_ref \<Rightarrow> string" where
  "socket_address (UnixRef a) = a"
| "socket_address (TcpRef a) = a"
| "socket_address (SshRef a k u) = a"

record mount_ref =
  mr_source :: string
  mr_target :: string
  mr_read_only :: bool
  mr_mount_type :: string

definition mount_new_rw :: "string \<Rightarrow> string \<Rightarrow> mount_ref" where
  "mount_new_rw s t = \<lparr>mr_source = s, mr_target = t, mr_read_only = False, mr_mount_type = ''bind''\<rparr>"

definition mount_new_ro :: "string \<Rightarrow> string \<Rightarrow> mount_ref" where
  "mount_new_ro s t = \<lparr>mr_source = s, mr_target = t, mr_read_only = True, mr_mount_type = ''bind''\<rparr>"

datatype container_network_mode = Bridge | NoNetwork | HostNetwork | ContainerNetwork

fun network_mode_display :: "container_network_mode \<Rightarrow> string" where
  "network_mode_display Bridge = ''bridge''"
| "network_mode_display NoNetwork = ''none''"
| "network_mode_display HostNetwork = ''host''"
| "network_mode_display ContainerNetwork = ''container''"

section \<open>Configuration of an instance\<close>

datatype wasm_runtime_kind = Wasmtime | WasmEdge | Wamr | Wasmer

record wasm_runtime =
  wr_kind :: wasm_runtime_kind
  wr_binary_path :: "string option"

datatype aws_credentials_kind = AwsStatic | AwsProfile | IamRole | WebIdentity

record aws_credentials =
  aw_kind :: aws_credentials_kind
  aw_access_key_id :: "string option"
  aw_secret_access_key :: "string option"
  aw_profile :: "string option"
  aw_role_arn :: "string option"
  aw_session_name :: "string option"

definition aws_iam_role :: "string \<Rightarrow> aws_credentials" where
  "aws_iam_role arn =
     \<lparr>aw_kind = IamRole, aw_access_key_id = None, aw_secret_access_key = None, aw_profile = None,
      aw_role_arn = Some arn, aw_session_name = None\<rparr>"

definition aws_static_creds :: "string \<Rightarrow> string \<Rightarrow> (domain_error, aws_credentials) result" where
  "aws_static_creds key secret =
     (if trim key = [] then Err (Validation ''AWS access key ID cannot be empty'')
      else if trim secret = [] then Err (Validation ''AWS secret access key cannot be empty'')
      else Ok \<lparr>aw_kind = AwsStatic, aw_access_key_id = Some key, aw_secret_access_key = Some secret,
               aw_profile = None, aw_role_arn = None, aw_session_name = None\<rparr>)"

definition aws_is_valid :: "aws_credentials \<Rightarrow> bool" where
  "aws_is_valid c =
     (case aw_kind c of
        AwsStatic \<Rightarrow> aw_access_key_id c \<noteq> None \<and> aw_secret_access_key c \<noteq> None
      | AwsProfile \<Rightarrow> aw_profile c \<noteq> None
      | IamRole \<Rightarrow> aw_role_arn c \<noteq> None
      | WebIdentity \<Rightarrow> aw_role_arn c \<noteq> None)"

datatype k8s_credentials_kind = InCluster | Kubeconfig | TokenFile

record kubernetes_credentials =
  kc_kind :: k8s_credentials_kind
  kc_kubeconfig_path :: "string option"
  kc_token_file :: "string option"
  kc_namespace :: "string option"

definition k8s_in_cluster :: kubernetes_credentials where
  "k8s_in_cluster =
     \<lparr>kc_kind = InCluster, kc_kubeconfig_path = None, kc_token_file = None, kc_namespace = None\<rparr>"

definition k8s_kubeconfig :: "string \<Rightarrow> kubernetes_credentials" where
  "k8s_kubeconfig p =
     \<lparr>kc_kind = Kubeconfig, kc_kubeconfig_path = Some p, kc_token_file = None, kc_namespace = None\<rparr>"

definition k8s_token_file :: "string \<Rightarrow> kubernetes_credentials" where
  "k8s_token_file p =
     \<lparr>kc_kind = TokenFile, kc_kubeconfig_path = None, kc_token_file = Some p, kc_namespace = None\<rparr>"

definition k8s_is_valid :: "kubernetes_credentials \<Rightarrow> bool" where
  "k8s_is_valid c =
     (case kc_kind c of
        InCluster \<Rightarrow> True
      | Kubeconfig \<Rightarrow> kc_kubeconfig_path c \<noteq> None
      | TokenFile \<Rightarrow> kc_token_file c \<noteq> None)"

lemma credentials_valid:
  "aws_is_valid (aws_iam_role arn)" "aws_static_creds key secret = Inr c \<Longrightarrow> aws_is_valid c"
  "k8s_is_valid k8s_in_cluster" "k8s_is_valid (k8s_kubeconfig p)" "k8s_is_valid (k8s_token_file p)"
  by (auto simp: aws_is_valid_def aws_iam_role_def aws_static_creds_def k8s_is_valid_def k8s_in_cluster_def
      k8s_kubeconfig_def k8s_token_file_def split: if_splits)

record firecracker_config =
  fc_firecracker_binary :: "string option"
  fc_kernel :: "string option"
  fc_rootfs :: "string option"
  fc_worker_binary :: "worker_binary_source option"
  fc_boot_args :: "string option"

definition firecracker_config_new :: firecracker_config where
  "firecracker_config_new =
     \<lparr>fc_firecracker_binary = None, fc_kernel = None, fc_rootfs = None, fc_worker_binary = None, fc_boot_args = None\<rparr>"

record kubernetes_config =
  ku_cluster_endpoint :: "string option"
  ku_namespace :: "string option"
  ku_credentials :: "kubernetes_credentials option"
  ku_default_volume_snapshot_class :: "string option"

definition kubernetes_config_new :: kubernetes_config where
  "kubernetes_config_new =
     \<lparr>ku_cluster_endpoint = None, ku_namespace = None, ku_credentials = None,
      ku_default_volume_snapshot_class = None\<rparr>"

record lambda_config =
  lc_region :: string
  lc_credentials :: "aws_credentials option"

definition lambda_config_new :: "string \<Rightarrow> (domain_error, lambda_config) result" where
  "lambda_config_new region =
     (if trim region = [] then Err (Validation ''Lambda region cannot be empty'')
      else Ok \<lparr>lc_region = region, lc_credentials = None\<rparr>)"

record local_config =
  lo_workspace_dir :: string

definition local_config_new :: "string \<Rightarrow> (domain_error, local_config) result" where
  "local_config_new d =
     (if trim d = [] then Err (Validation ''Local workspace_dir cannot be empty'') else Ok \<lparr>lo_workspace_dir = d\<rparr>)"

record provider_instance_config =
  pc_provider_type :: string
  pc_socket :: "socket_ref option"
  pc_image :: "image_reference option"
  pc_worker_binary :: "worker_binary_source option"
  pc_mounts :: "mount_ref list"
  pc_network_mode :: "container_network_mode option"
  pc_runsc_binary :: "string option"
  pc_rootfs_dir :: "string option"
  pc_firecracker_config :: "firecracker_config option"
  pc_wasm_runtime :: "wasm_runtime option"
  pc_kubernetes_config :: "kubernetes_config option"
  pc_lambda_config :: "lambda_config option"
  pc_local_config :: "local_config option"

text \<open>The constructors below repeat this record and differ in the type and in one section.\<close>

definition config_of_type :: "string \<Rightarrow> provider_instance_config" where
  "config_of_type t =
     \<lparr>pc_provider_type = t, pc_socket = None, pc_image = None, pc_worker_binary = None, pc_mounts = [],
      pc_network_mode = None, pc_runsc_binary = None, pc_rootfs_dir = None, pc_firecracker_config = None,
      pc_wasm_runtime = None, pc_kubernetes_config = None, pc_lambda_config = None, pc_local_config = None\<rparr>"

definition podman_config :: provider_instance_config where
  "podman_config = config_of_type ''podman''"

definition docker_config :: provider_instance_config where
  "docker_config = config_of_type ''docker''"

definition gvisor_config :: provider_instance_config where
  "gvisor_config = config_of_type ''gvisor''"

definition firecracker_instance_config :: provider_instance_config where
  "firecracker_instance_config =
     (config_of_type ''firecracker'')\<lparr>pc_firecracker_config := Some firecracker_config_new\<rparr>"

definition wasm_config :: provider_instance_config where
  "wasm_config =
     (config_of_type ''wasm'')\<lparr>pc_wasm_runtime := Some \<lparr>wr_kind = Wasmtime, wr_binary_path = None\<rparr>\<rparr>"

definition local_instance_config :: "string \<Rightarrow> (domain_error, provider_instance_config) result" where
  "local_instance_config d =
     try_bind (local_config_new d) (\<lambda>l. Ok ((config_of_type ''local'')\<lparr>pc_local_config := Some l\<rparr>))"

definition kubernetes_instance_config :: provider_instance_config where
  "kubernetes_instance_config =
     (config_of_type ''kubernetes'')\<lparr>pc_kubernetes_config := Some kubernetes_config_new\<rparr>"

definition lambda_instance_config :: "string \<Rightarrow> (domain_error, provider_instance_config) result" where
  "lambda_instance_config region =
     try_bind (lambda_config_new region) (\<lambda>l. Ok ((config_of_type ''lambda'')\<lparr>pc_lambda_config := Some l\<rparr>))"

definition is_valid_local :: "provider_instance_config \<Rightarrow> bool" where
  "is_valid_local c = (case pc_local_config c of None \<Rightarrow> False | Some l \<Rightarrow> trim (lo_workspace_dir l) \<noteq> [])"

definition is_valid_lambda :: "provider_instance_config \<Rightarrow> bool" where
  "is_valid_lambda c = (case pc_lambda_config c of None \<Rightarrow> False | Some l \<Rightarrow> trim (lc_region l) \<noteq> [])"

text \<open>
  A configuration is well formed when it has the section of its type and no other, and the section passes its
  own test. Every constructor yields such a configuration.
\<close>

definition config_well_formed :: "provider_instance_config \<Rightarrow> bool" where
  "config_well_formed c \<longleftrightarrow>
     (pc_firecracker_config c \<noteq> None \<longleftrightarrow> pc_provider_type c = ''firecracker'') \<and>
     (pc_wasm_runtime c \<noteq> None \<longleftrightarrow> pc_provider_type c = ''wasm'') \<and>
     (pc_kubernetes_config c \<noteq> None \<longleftrightarrow> pc_provider_type c = ''kubernetes'') \<and>
     (pc_lambda_config c \<noteq> None \<longleftrightarrow> pc_provider_type c = ''lambda'') \<and>
     (pc_local_config c \<noteq> None \<longleftrightarrow> pc_provider_type c = ''local'') \<and>
     (pc_provider_type c = ''local'' \<longleftrightarrow> is_valid_local c) \<and>
     (pc_provider_type c = ''lambda'' \<longleftrightarrow> is_valid_lambda c) \<and>
     (\<exists>reg. with_builtin_types = Some reg \<and> pc_provider_type c \<in> fst ` set reg)"

lemma builtin_names:
  "(\<exists>reg. with_builtin_types = Some reg \<and> t \<in> fst ` set reg) \<longleftrightarrow>
     t \<in> {''podman'', ''docker'', ''gvisor'', ''firecracker'', ''wasm'', ''local'', ''kubernetes'', ''lambda''}"
proof -
  obtain reg where reg: "with_builtin_types = Some reg"
    "map fst reg = [''podman'', ''docker'', ''gvisor'', ''firecracker'', ''wasm'', ''local'', ''kubernetes'', ''lambda'']"
    using builtin_registry by (elim exE conjE)
  have "(\<exists>reg. with_builtin_types = Some reg \<and> t \<in> fst ` set reg) \<longleftrightarrow> t \<in> set (map fst reg)"
    by (simp only: reg(1) option.inject ex_simps simp_thms list.set_map)
  then show ?thesis by (simp only: reg(2) list.set)
qed

lemma plain_config_well_formed:
  "t \<in> {''podman'', ''docker'', ''gvisor''} \<Longrightarrow> config_well_formed (config_of_type t)"
  unfolding config_well_formed_def builtin_names
  by (elim insertE emptyE) (simp_all add: config_of_type_def is_valid_local_def is_valid_lambda_def)

lemma instance_configs_well_formed:
  "config_well_formed podman_config" "config_well_formed docker_config" "config_well_formed gvisor_config"
  "config_well_formed firecracker_instance_config" "config_well_formed wasm_config"
  "config_well_formed kubernetes_instance_config"
  by (simp_all add: plain_config_well_formed podman_config_def docker_config_def gvisor_config_def)
    (simp_all add: config_well_formed_def builtin_names firecracker_instance_config_def wasm_config_def
      kubernetes_instance_config_def config_of_type_def is_valid_local_def is_valid_lambda_def)

lemma checked_configs_well_formed:
  "local_instance_config d = Inr c \<Longrightarrow> config_well_formed c"
  "lambda_instance_config r = Inr c \<Longrightarrow> config_well_formed c"
  unfolding config_well_formed_def builtin_names
  by (auto simp: local_instance_config_def lambda_instance_config_def local_config_new_def lambda_config_new_def
      config_of_type_def is_valid_local_def is_valid_lambda_def simp del: insert_iff split: if_splits)

section \<open>Instances\<close>

text \<open>The debug form of the four characters a name must not have.\<close>

definition char_debug :: "char \<Rightarrow> string" where
  "char_debug c = [CHR 0x27] @ (if c = CHR 0x5C then [CHR 0x5C, CHR 0x5C] else if c = CHR 0x00 then [CHR 0x5C, CHR ''0'']
                         else [c]) @ [CHR 0x27]"

definition invalid_name_chars :: "char list" where
  "invalid_name_chars = [CHR ''/'', CHR 0x5C, CHR '':'', CHR 0x00]"

definition is_valid_name :: "string \<Rightarrow> (domain_error, unit) result" where
  "is_valid_name name =
     (if name = [] then Err (Validation ''Provider instance name cannot be empty'')
      else if str_contains ''..'' name
        then Err (Validation (''Provider instance name cannot contain '' @ quote ''..''))
      else case find (\<lambda>c. c \<in> set name) invalid_name_chars of
             Some c \<Rightarrow> Err (Validation (''Provider instance name contains invalid character: '' @ char_debug c))
           | None \<Rightarrow> Ok ())"

datatype provider_instance_status = Loading | Active | Degraded | Offline

fun can_accept_sandboxes :: "provider_instance_status \<Rightarrow> bool" where
  "can_accept_sandboxes Active = True"
| "can_accept_sandboxes _ = False"

fun is_terminal_status :: "provider_instance_status \<Rightarrow> bool" where
  "is_terminal_status Offline = True"
| "is_terminal_status _ = False"

fun is_operational :: "provider_instance_status \<Rightarrow> bool" where
  "is_operational Active = True"
| "is_operational Degraded = True"
| "is_operational _ = False"

fun is_valid_status_transition :: "provider_instance_status \<Rightarrow> provider_instance_status \<Rightarrow> bool" where
  "is_valid_status_transition Loading Active = True"
| "is_valid_status_transition Loading Degraded = True"
| "is_valid_status_transition Loading Offline = True"
| "is_valid_status_transition Active Degraded = True"
| "is_valid_status_transition Active Offline = True"
| "is_valid_status_transition Degraded Active = True"
| "is_valid_status_transition Degraded Offline = True"
| "is_valid_status_transition _ _ = False"

fun instance_status_display :: "provider_instance_status \<Rightarrow> string" where
  "instance_status_display Loading = ''loading''"
| "instance_status_display Active = ''active''"
| "instance_status_display Degraded = ''degraded''"
| "instance_status_display Offline = ''offline''"

fun instance_status_debug :: "provider_instance_status \<Rightarrow> string" where
  "instance_status_debug Loading = ''Loading''"
| "instance_status_debug Active = ''Active''"
| "instance_status_debug Degraded = ''Degraded''"
| "instance_status_debug Offline = ''Offline''"

record provider_instance =
  pi_id :: "128 word"
  pi_type_id :: string
  pi_name :: string
  pi_display_name :: string
  pi_description :: "string option"
  pi_status :: provider_instance_status
  pi_config :: provider_instance_config
  pi_constraints :: instance_constraints
  pi_created_at :: timestamp
  pi_updated_at :: timestamp

definition provider_instance_new ::
    "timestamp \<Rightarrow> 128 word \<Rightarrow> string \<Rightarrow> string \<Rightarrow> string \<Rightarrow> string option \<Rightarrow> provider_instance_config \<Rightarrow>
     instance_constraints \<Rightarrow> (domain_error, provider_instance) result" where
  "provider_instance_new now i ty name display description config constraints =
     try_bind (is_valid_name name) (\<lambda>_. Ok
       \<lparr>pi_id = i, pi_type_id = ty, pi_name = name, pi_display_name = display, pi_description = description,
        pi_status = Loading, pi_config = config, pi_constraints = constraints,
        pi_created_at = now, pi_updated_at = now\<rparr>)"

definition instance_transition_to ::
    "timestamp \<Rightarrow> provider_instance_status \<Rightarrow> provider_instance \<Rightarrow>
     (domain_error, unit) result \<times> provider_instance" where
  "instance_transition_to now target inst =
     (if is_valid_status_transition (pi_status inst) target
      then (Ok (), inst\<lparr>pi_status := target, pi_updated_at := now\<rparr>)
      else (Err (Validation (''Invalid transition from '' @ instance_status_debug (pi_status inst) @ '' to '' @
                             instance_status_debug target)), inst))"

definition mark_active where
  "mark_active now = instance_transition_to now Active"

definition mark_degraded where
  "mark_degraded now = instance_transition_to now Degraded"

definition mark_offline where
  "mark_offline now = instance_transition_to now Offline"

definition instance_mark_failed :: "timestamp \<Rightarrow> provider_instance \<Rightarrow> provider_instance" where
  "instance_mark_failed now inst = inst\<lparr>pi_status := Offline, pi_updated_at := now\<rparr>"

text \<open>Calls on an instance, each at its time.\<close>

datatype instance_call = CallActive timestamp | CallDegraded timestamp | CallOffline timestamp | CallFailed timestamp

fun instance_step :: "instance_call \<Rightarrow> provider_instance \<Rightarrow> provider_instance" where
  "instance_step (CallActive t) inst = snd (mark_active t inst)"
| "instance_step (CallDegraded t) inst = snd (mark_degraded t inst)"
| "instance_step (CallOffline t) inst = snd (mark_offline t inst)"
| "instance_step (CallFailed t) inst = instance_mark_failed t inst"

fun call_target :: "instance_call \<Rightarrow> provider_instance_status" where
  "call_target (CallActive t) = Active"
| "call_target (CallDegraded t) = Degraded"
| "call_target (CallOffline t) = Offline"
| "call_target (CallFailed t) = Offline"

lemmas mark_defs = mark_active_def mark_degraded_def mark_offline_def instance_mark_failed_def
  instance_transition_to_def

text \<open>One call: an instance that is offline stays so; otherwise the call has its way, or it was there already.\<close>

lemma instance_step_status:
  "pi_status (instance_step c inst) = (if pi_status inst = Offline then Offline else call_target c)"
  by (cases c; cases "pi_status inst") (simp_all add: mark_defs)

lemma instance_step_keeps:
  "(instance_step c inst)\<lparr>pi_status := s, pi_updated_at := t\<rparr> = inst\<lparr>pi_status := s, pi_updated_at := t\<rparr>"
  by (cases c) (simp_all add: mark_defs)

lemma instance_run_keeps:
  "(fold instance_step cs inst)\<lparr>pi_status := s, pi_updated_at := t\<rparr> = inst\<lparr>pi_status := s, pi_updated_at := t\<rparr>"
  by (induction cs arbitrary: inst) (simp_all add: instance_step_keeps)

lemma instance_run_status:
  "pi_status (fold instance_step cs inst) =
     (if cs = [] then pi_status inst
      else if pi_status inst = Offline \<or> Offline \<in> call_target ` set cs then Offline
      else call_target (last cs))"
  by (induction cs arbitrary: inst) (simp_all add: instance_step_status)

lemma valid_name_iff:
  "is_valid_name name = Inr () \<longleftrightarrow>
     name \<noteq> [] \<and> \<not> str_contains ''..'' name \<and> set name \<inter> set invalid_name_chars = {}"
  by (auto simp: is_valid_name_def find_None_iff find_Some_iff split: option.splits)

text \<open>
  C35: the life of a provider instance. A name is accepted exactly when it is not empty, has no two dots in a row
  and none of slash, backslash, colon and null. After any sequence of calls on the new instance its status is:
  loading when nothing was called, offline for good once it was taken offline or marked as failed, and
  otherwise what the last call asked for. Nothing but the status and the time of the last change ever changes.
\<close>

theorem provider_instance_history:
  "case provider_instance_new now i ty name display desc config constraints of
     Inl e \<Rightarrow> name = [] \<or> str_contains ''..'' name \<or> (\<exists>c \<in> set name. c \<in> {CHR ''/'', CHR 0x5C, CHR '':'', CHR 0x00})
   | Inr inst \<Rightarrow>
       name \<noteq> [] \<and> \<not> str_contains ''..'' name \<and> set name \<inter> {CHR ''/'', CHR 0x5C, CHR '':'', CHR 0x00} = {} \<and>
       pi_name inst = name \<and>
       pi_status (fold instance_step calls inst) =
         (if calls = [] then Loading
          else if Offline \<in> call_target ` set calls then Offline else call_target (last calls)) \<and>
       (fold instance_step calls inst)\<lparr>pi_status := Loading, pi_updated_at := now\<rparr> = inst"
proof (cases "is_valid_name name")
  case (Inl e)
  then have "is_valid_name name \<noteq> Inr ()" by simp
  then show ?thesis using Inl unfolding valid_name_iff
    by (auto simp: provider_instance_new_def invalid_name_chars_def)
next
  case (Inr u)
  then have "is_valid_name name = Inr ()" by simp
  then show ?thesis unfolding valid_name_iff
    using Inr by (simp add: provider_instance_new_def invalid_name_chars_def instance_run_status instance_run_keeps)
qed

section \<open>Image sources\<close>

datatype image_kind = OciKind | SquashfsKind | WasmKind

record image_source_config =
  im_kind :: image_kind
  im_path :: string
  im_read_only :: bool

definition oci_image :: "string \<Rightarrow> bool \<Rightarrow> image_source_config" where
  "oci_image path read_only = \<lparr>im_kind = OciKind, im_path = path, im_read_only = read_only\<rparr>"

definition squashfs_image :: "string \<Rightarrow> image_source_config" where
  "squashfs_image path = \<lparr>im_kind = SquashfsKind, im_path = path, im_read_only = True\<rparr>"

definition wasm_bundle :: "string \<Rightarrow> image_source_config" where
  "wasm_bundle path = \<lparr>im_kind = WasmKind, im_path = path, im_read_only = True\<rparr>"

text \<open>
  What \<open>metadata\<close> and reading a file give: an error, a directory, a file, or something else. \<open>io_error\<close> is the conversion of an
  I/O error into a domain error, \<open>short\<close> the error of \<open>read_exact\<close> at the end of a file, and \<open>dbg\<close> the debug form
  of four bytes.
\<close>

datatype file_node = Directory | Regular "(string, 8 word list) result" | OtherNode

record image_host =
  ih_metadata :: "string \<Rightarrow> (string, file_node) result"
  ih_io_error :: "string \<Rightarrow> domain_error"
  ih_short :: string
  ih_dbg :: "8 word list \<Rightarrow> string"

definition squashfs_magic :: "8 word list" where
  "squashfs_magic = [0x68, 0x73, 0x71, 0x73]"

definition wasm_magic :: "8 word list" where
  "wasm_magic = [0x00, 0x61, 0x73, 0x6D]"

definition oci_validate :: "image_host \<Rightarrow> image_source_config \<Rightarrow> (domain_error, unit) result" where
  "oci_validate H c =
     (case ih_metadata H (im_path c) of
        Inl e \<Rightarrow> Err (Config (''OCI rootfs not found: '' @ e))
      | Inr Directory \<Rightarrow> Ok ()
      | Inr _ \<Rightarrow> Err (Config ''OCI rootfs is not a directory''))"

definition check_magic ::
    "image_host \<Rightarrow> 8 word list \<Rightarrow> string \<Rightarrow> (string, 8 word list) result \<Rightarrow> (domain_error, unit) result" where
  "check_magic H magic message contents =
     (case contents of
        Inl e \<Rightarrow> Err (ih_io_error H e)
      | Inr bytes \<Rightarrow>
          if length bytes < 4 then Err (ih_io_error H (ih_short H))
          else if take 4 bytes \<noteq> magic then Err (Config (message @ ih_dbg H (take 4 bytes)))
          else Ok ())"

definition squashfs_validate :: "image_host \<Rightarrow> image_source_config \<Rightarrow> (domain_error, unit) result" where
  "squashfs_validate H c =
     (case ih_metadata H (im_path c) of
        Inl e \<Rightarrow> Err (Config (''Squashfs image not found: '' @ e))
      | Inr (Regular contents) \<Rightarrow>
          check_magic H squashfs_magic ''Not a valid squashfs image: magic bytes '' contents
      | Inr _ \<Rightarrow> Err (Config ''Squashfs path is not a file''))"

definition wasm_validate :: "image_host \<Rightarrow> image_source_config \<Rightarrow> (domain_error, unit) result" where
  "wasm_validate H c =
     (case ih_metadata H (im_path c) of
        Inl e \<Rightarrow> Err (Config (''WASM bundle not found: '' @ e))
      | Inr (Regular contents) \<Rightarrow>
          check_magic H wasm_magic ''Not a valid WASM binary: magic bytes '' contents
      | Inr _ \<Rightarrow> Err (Config ''WASM bundle is not a file''))"

lemma check_magic_Ok_iff:
  "length magic = 4 \<Longrightarrow>
     check_magic H magic m contents = Inr () \<longleftrightarrow> (\<exists>rest. contents = Inr (magic @ rest))"
  by (auto simp: check_magic_def split: sum.splits if_splits)
    (metis append_take_drop_id)

text \<open>An image passes exactly when it is there, is of the right sort and begins with its magic bytes.\<close>

lemma image_validate_iff:
  "oci_validate H c = Inr () \<longleftrightarrow> ih_metadata H (im_path c) = Inr Directory"
  "squashfs_validate H c = Inr () \<longleftrightarrow>
     (\<exists>rest. ih_metadata H (im_path c) = Inr (Regular (Inr ([0x68, 0x73, 0x71, 0x73] @ rest))))"
  "wasm_validate H c = Inr () \<longleftrightarrow>
     (\<exists>rest. ih_metadata H (im_path c) = Inr (Regular (Inr ([0x00, 0x61, 0x73, 0x6D] @ rest))))"
proof -
  show "oci_validate H c = Inr () \<longleftrightarrow> ih_metadata H (im_path c) = Inr Directory"
    by (auto simp: oci_validate_def split: sum.splits file_node.splits)
  have l: "length squashfs_magic = 4" "length wasm_magic = 4"
    by (simp_all add: squashfs_magic_def wasm_magic_def)
  show "squashfs_validate H c = Inr () \<longleftrightarrow>
     (\<exists>rest. ih_metadata H (im_path c) = Inr (Regular (Inr ([0x68, 0x73, 0x71, 0x73] @ rest))))"
    using check_magic_Ok_iff [OF l(1)]
    by (simp add: squashfs_validate_def squashfs_magic_def split: sum.splits file_node.splits)
  show "wasm_validate H c = Inr () \<longleftrightarrow>
     (\<exists>rest. ih_metadata H (im_path c) = Inr (Regular (Inr ([0x00, 0x61, 0x73, 0x6D] @ rest))))"
    using check_magic_Ok_iff [OF l(2)]
    by (simp add: wasm_validate_def wasm_magic_def split: sum.splits file_node.splits)
qed

end
