(* ===== verification/Provider_Store.thy ===== *)
theory Provider_Store
  imports Provider_Model
begin

text \<open>
  Where providers are kept: \<open>toml_repository.rs\<close>, \<open>factory.rs\<close>, \<open>registry.rs\<close> and \<open>config.rs\<close> of
  \<open>bastion-infrastructure/src/provider\<close>. The directory and the TOML library are arguments; a provider is an opaque
  value, built by the constructors of the provider implementations, which are arguments too.
\<close>

section \<open>The repository of instances\<close>

record 'f instance_fs =
  nf_exists :: "string \<Rightarrow> 'f \<Rightarrow> bool"
  nf_read :: "string \<Rightarrow> 'f \<Rightarrow> (string, string) result"
  nf_write :: "string \<Rightarrow> string \<Rightarrow> 'f \<Rightarrow> (string, unit) result \<times> 'f"
  nf_read_dir :: "string \<Rightarrow> 'f \<Rightarrow> (string, (string, string) result list) result"
  nf_remove :: "string \<Rightarrow> 'f \<Rightarrow> (string, unit) result \<times> 'f"

record instance_toml =
  nx_print :: "provider_instance \<Rightarrow> (string, string) result"
  nx_parse :: "string \<Rightarrow> (string, provider_instance) result"

datatype repository_error =
    InstanceNotFound "128 word"
  | InstanceAlreadyExists string
  | UnknownProviderType string
  | ValidationFailed string
  | Io string
  | InstanceNotFoundByName string
  | InstanceTomlSerialize string
  | InstanceTomlParse string

text \<open>\<open>Path::join\<close>: an absolute path replaces the base.\<close>

definition path_join :: "string \<Rightarrow> string \<Rightarrow> string" where
  "path_join base p =
     (if starts_with ''/'' p then p else if base = [] \<or> last base = CHR ''/'' then base @ p else base @ ''/'' @ p)"

definition instance_path :: "string \<Rightarrow> string \<Rightarrow> string" where
  "instance_path base name = path_join base (name @ ''.toml'')"

definition repo_save ::
    "'f instance_fs \<Rightarrow> instance_toml \<Rightarrow> string \<Rightarrow> provider_instance \<Rightarrow> 'f \<Rightarrow> (repository_error, unit) result \<times> 'f" where
  "repo_save F X base inst f =
     (case nx_print X inst of
        Inl e \<Rightarrow> (Err (InstanceTomlSerialize e), f)
      | Inr content \<Rightarrow>
          (case nf_write F (instance_path base (pi_name inst)) content f of
             (Inl e, f') \<Rightarrow> (Err (Io e), f')
           | (Inr _, f') \<Rightarrow> (Ok (), f')))"

fun repo_list_loop ::
    "'f instance_fs \<Rightarrow> instance_toml \<Rightarrow> 'f \<Rightarrow> (string, string) result list \<Rightarrow> provider_instance list \<Rightarrow>
     (repository_error, provider_instance list) result" where
  "repo_list_loop F X f [] acc = Ok acc"
| "repo_list_loop F X f (entry # entries) acc =
     (case entry of
        Inl e \<Rightarrow> Err (Io e)
      | Inr path \<Rightarrow>
          if is_toml path
          then (case nf_read F path f of
                  Inl e \<Rightarrow> repo_list_loop F X f entries acc
                | Inr content \<Rightarrow>
                    (case nx_parse X content of
                       Inl e \<Rightarrow> repo_list_loop F X f entries acc
                     | Inr inst \<Rightarrow> repo_list_loop F X f entries (acc @ [inst])))
          else repo_list_loop F X f entries acc)"

definition repo_list_all ::
    "'f instance_fs \<Rightarrow> instance_toml \<Rightarrow> string \<Rightarrow> 'f \<Rightarrow> (repository_error, provider_instance list) result" where
  "repo_list_all F X base f =
     (case nf_read_dir F base f of
        Inl e \<Rightarrow> Err (Io e)
      | Inr entries \<Rightarrow> repo_list_loop F X f entries [])"

definition repo_find_by_id ::
    "'f instance_fs \<Rightarrow> instance_toml \<Rightarrow> string \<Rightarrow> 128 word \<Rightarrow> 'f \<Rightarrow>
     (repository_error, provider_instance option) result" where
  "repo_find_by_id F X base i f =
     try_bind (repo_list_all F X base f) (\<lambda>all. Ok (find (\<lambda>inst. pi_id inst = i) all))"

definition repo_find_by_name ::
    "'f instance_fs \<Rightarrow> instance_toml \<Rightarrow> string \<Rightarrow> string \<Rightarrow> 'f \<Rightarrow>
     (repository_error, provider_instance option) result" where
  "repo_find_by_name F X base name f =
     (let path = instance_path base name in
      if \<not> nf_exists F path f then Ok None
      else case nf_read F path f of
             Inl e \<Rightarrow> Err (Io e)
           | Inr content \<Rightarrow>
               (case nx_parse X content of Inl e \<Rightarrow> Err (InstanceTomlParse e) | Inr inst \<Rightarrow> Ok (Some inst)))"

definition repo_list_by_type ::
    "'f instance_fs \<Rightarrow> instance_toml \<Rightarrow> string \<Rightarrow> string \<Rightarrow> 'f \<Rightarrow>
     (repository_error, provider_instance list) result" where
  "repo_list_by_type F X base ty f =
     try_bind (repo_list_all F X base f) (\<lambda>all. Ok (filter (\<lambda>inst. pi_type_id inst = ty) all))"

definition repo_delete ::
    "'f instance_fs \<Rightarrow> instance_toml \<Rightarrow> string \<Rightarrow> 128 word \<Rightarrow> 'f \<Rightarrow> (repository_error, unit) result \<times> 'f" where
  "repo_delete F X base i f =
     (case repo_list_all F X base f of
        Inl e \<Rightarrow> (Err e, f)
      | Inr all \<Rightarrow>
          (case find (\<lambda>inst. pi_id inst = i) all of
             None \<Rightarrow> (Ok (), f)
           | Some inst \<Rightarrow>
               (case nf_remove F (instance_path base (pi_name inst)) f of
                  (Inl e, f') \<Rightarrow> (Err (Io e), f')
                | (Inr _, f') \<Rightarrow> (Ok (), f'))))"

subsection \<open>What the repository relies on\<close>

text \<open>
  A file that was written reads back and is there; one that was removed is neither; other files are not touched;
  a file that can be read is there; a listing has the paths of the directory; and the parser reads what the
  serializer prints.
\<close>

definition plain_name :: "string \<Rightarrow> bool" where
  "plain_name n \<longleftrightarrow> n \<noteq> [] \<and> CHR ''/'' \<notin> set n"

definition directory_laws :: "'f instance_fs \<Rightarrow> instance_toml \<Rightarrow> string \<Rightarrow> bool" where
  "directory_laws F X base \<longleftrightarrow>
     (\<forall>inst s. nx_print X inst = Inr s \<longrightarrow> nx_parse X s = Inr inst) \<and>
     (\<forall>p f s. nf_read F p f = Inr s \<longrightarrow> nf_exists F p f) \<and>
     (\<forall>p s f f'. nf_write F p s f = (Inr (), f') \<longrightarrow>
        nf_read F p f' = Inr s \<and> (\<forall>q. q \<noteq> p \<longrightarrow> nf_read F q f' = nf_read F q f)) \<and>
     (\<forall>p f f'. nf_remove F p f = (Inr (), f') \<longrightarrow>
        \<not> nf_exists F p f' \<and> (\<forall>q. q \<noteq> p \<longrightarrow> nf_read F q f' = nf_read F q f)) \<and>
     (\<forall>f ps. nf_read_dir F base f = Inr (map Inr ps) \<longrightarrow>
        (\<forall>p \<in> set ps. \<exists>n. plain_name n \<and> p = path_join base n) \<and>
        (\<forall>n. plain_name n \<and> nf_exists F (path_join base n) f \<longrightarrow> path_join base n \<in> set ps))"

text \<open>The instance stored under a name, and a directory in which every file is named after its instance.\<close>

definition stored :: "'f instance_fs \<Rightarrow> instance_toml \<Rightarrow> string \<Rightarrow> 'f \<Rightarrow> string \<Rightarrow> provider_instance option" where
  "stored F X base f n =
     (if plain_name n
      then case nf_read F (instance_path base n) f of
             Inl e \<Rightarrow> None
           | Inr s \<Rightarrow> (case nx_parse X s of Inl e \<Rightarrow> None | Inr inst \<Rightarrow> Some inst)
      else None)"

definition named_after :: "'f instance_fs \<Rightarrow> instance_toml \<Rightarrow> string \<Rightarrow> 'f \<Rightarrow> bool" where
  "named_after F X base f \<longleftrightarrow> (\<forall>n inst. stored F X base f n = Some inst \<longrightarrow> pi_name inst = n)"

subsection \<open>Paths\<close>

lemma split_on_append_sep: "split_on c (u @ c # n) = split_on c u @ split_on c n"
  by (induction u) (auto split: list.splits)

lemma split_on_last: "CHR ''/'' \<notin> set n \<Longrightarrow> last (split_on (CHR ''/'') (u @ CHR ''/'' # n)) = n"
  by (simp add: split_on_append_sep split_on_absent)

lemma file_name_join: "plain_name n \<Longrightarrow> file_name (path_join base n) = n"
proof -
  assume n: "plain_name n"
  then have h: "\<not> starts_with ''/'' n" by (cases n) (auto simp: plain_name_def)
  consider "base = []" | u where "base = u @ [CHR ''/'']" | "base \<noteq> []" "last base \<noteq> CHR ''/''"
    by (metis append_butlast_last_id)
  then show ?thesis
    using n h split_on_last [of n base] split_on_last [of n]
    by cases (auto simp: path_join_def file_name_def plain_name_def split_on_absent)
qed

lemma path_join_inject: "plain_name m \<Longrightarrow> plain_name n \<Longrightarrow> path_join base m = path_join base n \<longleftrightarrow> m = n"
  by (metis file_name_join)

lemma plain_toml [simp]: "CHR ''/'' \<notin> set n \<Longrightarrow> plain_name (n @ ''.toml'')"
  by (simp add: plain_name_def)

lemma instance_path_inject:
  "plain_name m \<Longrightarrow> plain_name n \<Longrightarrow> instance_path base m = instance_path base n \<longleftrightarrow> m = n"
  by (simp add: instance_path_def path_join_inject plain_name_def)

lemma split_dot_toml: "split_on (CHR ''.'') (n @ ''.toml'') = split_on (CHR ''.'') n @ [''toml'']"
  using split_on_append_sep [of "CHR ''.''" n "''toml''"] by simp

lemma join_with_snoc: "xs \<noteq> [] \<Longrightarrow> join_with c (xs @ [y]) = join_with c xs @ c # y"
  by (induction c xs rule: join_with.induct) (auto simp: neq_Nil_conv)

lemma is_toml_join:
  assumes "plain_name fn"
  shows "is_toml (path_join base fn) \<longleftrightarrow> (\<exists>n. n \<noteq> [] \<and> fn = n @ ''.toml'')"
proof
  assume "is_toml (path_join base fn)"
  then have l: "last (split_on (CHR ''.'') fn) = ''toml''" "join_with (CHR ''.'') (butlast (split_on (CHR ''.'') fn)) \<noteq> []"
    by (auto simp: is_toml_def extension_def file_name_join [OF assms] Let_def split: if_splits)
  let ?b = "butlast (split_on (CHR ''.'') fn)"
  have "?b \<noteq> []" using l(2) by auto
  moreover have "split_on (CHR ''.'') fn = ?b @ [''toml'']" using l(1) by (metis append_butlast_last_id split_on_nonempty)
  ultimately have "fn = join_with (CHR ''.'') ?b @ ''.toml''"
    using join_split_on [of "CHR ''.''" fn] by (metis append_Cons append_Nil join_with_snoc)
  then show "\<exists>n. n \<noteq> [] \<and> fn = n @ ''.toml''" using l(2) by blast
next
  assume "\<exists>n. n \<noteq> [] \<and> fn = n @ ''.toml''"
  then obtain n where "n \<noteq> []" "fn = n @ ''.toml''" by blast
  moreover from this have "file_name (path_join base fn) = n @ ''.toml''" using file_name_join [OF assms] by simp
  ultimately show "is_toml (path_join base fn)"
    by (simp add: is_toml_def extension_def split_dot_toml Let_def join_split_on append_eq_Cons_conv)
qed

subsection \<open>The repository is a map from names to instances\<close>

lemma directory_lawsD:
  assumes "directory_laws F X base"
  shows "nx_print X inst = Inr s \<Longrightarrow> nx_parse X s = Inr inst"
    and "nf_read F p f = Inr s \<Longrightarrow> nf_exists F p f"
    and "nf_write F p s f = (Inr (), f') \<Longrightarrow> nf_read F q f' = (if q = p then Inr s else nf_read F q f)"
    and "nf_remove F p f = (Inr (), f') \<Longrightarrow> \<not> nf_exists F p f'"
    and "nf_remove F p f = (Inr (), f') \<Longrightarrow> q \<noteq> p \<Longrightarrow> nf_read F q f' = nf_read F q f"
    and "nf_read_dir F base f = Inr (map Inr ps) \<Longrightarrow> p \<in> set ps \<Longrightarrow> \<exists>n. plain_name n \<and> p = path_join base n"
    and "nf_read_dir F base f = Inr (map Inr ps) \<Longrightarrow> plain_name n \<Longrightarrow> nf_exists F (path_join base n) f \<Longrightarrow>
         path_join base n \<in> set ps"
  using assms unfolding directory_laws_def by (elim conjE, simp)+

lemma repo_list_loop_result:
  "repo_list_loop F X f entries acc = Inr l \<longleftrightarrow>
     (\<exists>ps. entries = map Inr ps \<and>
           l = acc @ [inst. p \<leftarrow> ps, is_toml p, s \<leftarrow> (case nf_read F p f of Inr s \<Rightarrow> [s] | Inl e \<Rightarrow> []),
                      inst \<leftarrow> (case nx_parse X s of Inr i \<Rightarrow> [i] | Inl e \<Rightarrow> [])])"
proof (induction entries arbitrary: acc)
  case (Cons e es)
  show ?case
  proof (cases e)
    case (Inr p)
    have "(\<exists>ps. e # es = map Inr ps \<and> P ps) \<longleftrightarrow> (\<exists>ps. es = map Inr ps \<and> P (p # ps))" for P
      using Inr by (auto simp: Cons_eq_map_conv)
    then show ?thesis using Cons.IH Inr by (auto split: sum.splits)
  qed auto
qed auto

lemma stored_Some_iff:
  "stored F X base f n = Some inst \<longleftrightarrow>
     plain_name n \<and> (\<exists>s. nf_read F (instance_path base n) f = Inr s \<and> nx_parse X s = Inr inst)"
  by (simp add: stored_def split: sum.splits)

lemma listed_iff:
  assumes "directory_laws F X base" "repo_list_all F X base f = Inr l"
  shows "inst \<in> set l \<longleftrightarrow> (\<exists>n. stored F X base f n = Some inst)"
proof -
  obtain ps where dir: "nf_read_dir F base f = Inr (map Inr ps)"
    and l: "l = [inst. p \<leftarrow> ps, is_toml p, s \<leftarrow> (case nf_read F p f of Inr s \<Rightarrow> [s] | Inl e \<Rightarrow> []),
                  inst \<leftarrow> (case nx_parse X s of Inr i \<Rightarrow> [i] | Inl e \<Rightarrow> [])]"
    using assms(2) by (auto simp: repo_list_all_def repo_list_loop_result split: sum.splits)
  have ps: "p \<in> set ps \<and> is_toml p \<and> nf_read F p f = Inr s \<longleftrightarrow>
      (\<exists>n. plain_name n \<and> p = instance_path base n) \<and> nf_read F p f = Inr s" for p s
  proof
    assume "p \<in> set ps \<and> is_toml p \<and> nf_read F p f = Inr s"
    moreover from this obtain fn where fn: "plain_name fn" "p = path_join base fn"
      using directory_lawsD(6) [OF assms(1) dir] by blast
    ultimately obtain n where "n \<noteq> []" "fn = n @ ''.toml''" using is_toml_join by blast
    then show "(\<exists>n. plain_name n \<and> p = instance_path base n) \<and> nf_read F p f = Inr s"
      using fn \<open>p \<in> set ps \<and> _\<close> by (auto simp: instance_path_def plain_name_def)
  next
    assume a: "(\<exists>n. plain_name n \<and> p = instance_path base n) \<and> nf_read F p f = Inr s"
    then obtain n where n: "plain_name n" "p = path_join base (n @ ''.toml'')" by (auto simp: instance_path_def)
    then have "plain_name (n @ ''.toml'')" by (simp add: plain_name_def)
    moreover have "nf_exists F p f" using a directory_lawsD(2) [OF assms(1)] by blast
    ultimately have "p \<in> set ps" using directory_lawsD(7) [OF assms(1) dir, of "n @ ''.toml''"] n(2) by simp
    moreover have "is_toml p" using is_toml_join [OF \<open>plain_name (n @ ''.toml'')\<close>] n by (auto simp: plain_name_def)
    ultimately show "p \<in> set ps \<and> is_toml p \<and> nf_read F p f = Inr s" using a by simp
  qed
  have "inst \<in> set l \<longleftrightarrow> (\<exists>p s. (p \<in> set ps \<and> is_toml p \<and> nf_read F p f = Inr s) \<and> nx_parse X s = Inr inst)"
    unfolding l by (force split: sum.splits if_splits)
  also have "\<dots> \<longleftrightarrow> (\<exists>n. stored F X base f n = Some inst)"
    unfolding ps stored_Some_iff by blast
  finally show ?thesis .
qed

lemma stored_after_write:
  assumes "directory_laws F X base" "plain_name (pi_name inst)" "repo_save F X base inst f = (Inr (), f')"
  shows "stored F X base f' = (stored F X base f)(pi_name inst \<mapsto> inst)"
proof
  fix n
  obtain s where s: "nx_print X inst = Inr s" "nf_write F (instance_path base (pi_name inst)) s f = (Inr (), f')"
    using assms(3) by (auto simp: repo_save_def split: sum.splits prod.splits)
  note law = directory_lawsD [OF assms(1)]
  have "nx_parse X s = Inr inst" "\<And>q. nf_read F q f' =
      (if q = instance_path base (pi_name inst) then Inr s else nf_read F q f)"
    using law(1) [OF s(1)] law(3) [OF s(2)] by simp_all
  then show "stored F X base f' n = ((stored F X base f)(pi_name inst \<mapsto> inst)) n"
    using assms(2) by (cases "plain_name n") (auto simp: stored_def instance_path_inject)
qed

lemma stored_after_remove:
  assumes "directory_laws F X base" "plain_name m" "nf_remove F (instance_path base m) f = (Inr (), f')"
  shows "stored F X base f' = (stored F X base f)(m := None)"
proof
  fix n
  note r = directory_lawsD(4,5,2) [OF assms(1)]
  have "\<exists>e. nf_read F (instance_path base m) f' = Inl e"
    using r(1) [OF assms(3)] r(3) by (cases "nf_read F (instance_path base m) f'") blast+
  then show "stored F X base f' n = ((stored F X base f)(m := None)) n"
    using assms(2) r(2) [OF assms(3)] by (cases "plain_name n") (auto simp: stored_def instance_path_inject)
qed

text \<open>A search by identifier over a listing.\<close>

lemma found_iff:
  assumes "directory_laws F X base" "repo_list_all F X base f = Inr l"
  shows "find (\<lambda>inst. pi_id inst = i) l = None \<longleftrightarrow> (\<forall>inst \<in> ran (stored F X base f). pi_id inst \<noteq> i)"
    and "find (\<lambda>inst. pi_id inst = i) l = Some inst \<Longrightarrow> inst \<in> ran (stored F X base f) \<and> pi_id inst = i"
  using listed_iff [OF assms]
  by (auto simp: find_None_iff find_Some_iff ran_def dest!: nth_mem)

lemma named_afterD: "named_after F X base f \<Longrightarrow> inst \<in> ran (stored F X base f) \<Longrightarrow>
    plain_name (pi_name inst) \<and> stored F X base f (pi_name inst) = Some inst"
  by (auto simp: named_after_def ran_def stored_Some_iff)

lemma valid_name_plain: "is_valid_name n = Inr () \<Longrightarrow> plain_name n"
  by (auto simp: valid_name_iff plain_name_def invalid_name_chars_def)

lemma repo_delete_map:
  assumes "directory_laws F X base" "named_after F X base f" "repo_delete F X base i f = (Inr (), f')"
  shows "if \<exists>inst \<in> ran (stored F X base f). pi_id inst = i
     then \<exists>inst \<in> ran (stored F X base f). pi_id inst = i \<and>
       stored F X base f' = (stored F X base f)(pi_name inst := None)
     else f' = f"
proof -
  obtain l where l: "repo_list_all F X base f = Inr l" using assms(3) by (auto simp: repo_delete_def split: sum.splits)
  show ?thesis
  proof (cases "find (\<lambda>inst. pi_id inst = i) l")
    case None
    then have "f' = f" using assms(3) l by (simp add: repo_delete_def)
    then show ?thesis using found_iff(1) [OF assms(1) l, of i] None by auto
  next
    case (Some inst)
    note inst = found_iff(2) [OF assms(1) l Some]
    moreover have "nf_remove F (instance_path base (pi_name inst)) f = (Inr (), f')"
      using assms(3) l Some by (auto simp: repo_delete_def split: prod.splits sum.splits)
    ultimately show ?thesis
      using stored_after_remove [OF assms(1)] named_afterD [OF assms(2)] by metis
  qed
qed


text \<open>A directory as a list of files, and a format that knows one instance.\<close>

definition demo_instance :: provider_instance where
  "demo_instance =
     \<lparr>pi_id = 7, pi_type_id = ''podman'', pi_name = ''main'', pi_display_name = ''Main'', pi_description = None,
      pi_status = Loading, pi_config = podman_config, pi_constraints = constraints_default,
      pi_created_at = 0, pi_updated_at = 0\<rparr>"

definition demo_directory :: "(string \<times> string) list instance_fs" where
  "demo_directory =
     \<lparr>nf_exists = (\<lambda>p f. map_of f p \<noteq> None),
      nf_read = (\<lambda>p f. case map_of f p of Some s \<Rightarrow> Inr s | None \<Rightarrow> Inl ''not found''),
      nf_write = (\<lambda>p s f. (Inr (), AList.update p s f)),
      nf_read_dir = (\<lambda>b f. Inr (map Inr (filter (\<lambda>p. file_name p \<noteq> [] \<and> path_join b (file_name p) = p) (map fst f)))),
      nf_remove = (\<lambda>p f. if map_of f p = None then (Inl ''not found'', f) else (Inr (), AList.delete p f))\<rparr>"

definition demo_format :: instance_toml where
  "demo_format =
     \<lparr>nx_print = (\<lambda>inst. if inst = demo_instance then Inr ''main'' else Inl ''unknown''),
      nx_parse = (\<lambda>s. if s = ''main'' then Inr demo_instance else Inl ''syntax'')\<rparr>"

lemma demo_directory_laws: "directory_laws demo_directory demo_format base"
proof -
  have "plain_name (file_name p)" if "file_name p \<noteq> []" for p
    using that split_on_no_sep [of "file_name p" "CHR ''/''" p] by (simp add: plain_name_def file_name_def)
  then show ?thesis
    unfolding directory_laws_def demo_directory_def demo_format_def
    by (auto simp: update_conv' delete_conv' file_name_join image_iff weak_map_of_SomeI inj_map_eq_map
        dest: map_of_SomeD split: option.splits if_splits)
      (auto simp: plain_name_def dest!: map_of_SomeD intro: rev_bexI)
qed


section \<open>The provider factory\<close>

record 'p provider_factory =
  pf_providers :: "(string \<times> 'p) list"
  pf_default :: string

definition factory_new :: "string \<Rightarrow> 'p provider_factory" where
  "factory_new d = \<lparr>pf_providers = [], pf_default = d\<rparr>"

definition factory_register :: "string \<Rightarrow> 'p \<Rightarrow> 'p provider_factory \<Rightarrow> 'p provider_factory" where
  "factory_register name p fac = fac\<lparr>pf_providers := AList.update name p (pf_providers fac)\<rparr>"

definition factory_get :: "'p provider_factory \<Rightarrow> string \<Rightarrow> 'p option" where
  "factory_get fac name = map_of (pf_providers fac) name"

text \<open>The default provider must be registered, otherwise the call panics.\<close>

definition factory_default :: "'p provider_factory \<Rightarrow> 'p option" where
  "factory_default fac = map_of (pf_providers fac) (pf_default fac)"

definition factory_list :: "('p \<Rightarrow> provider_capabilities) \<Rightarrow> 'p provider_factory \<Rightarrow> (string \<times> provider_capabilities) list" where
  "factory_list caps fac = map (\<lambda>(name, p). (name, caps p)) (pf_providers fac)"

definition factory_contains :: "'p provider_factory \<Rightarrow> string \<Rightarrow> bool" where
  "factory_contains fac name = (name \<in> fst ` set (pf_providers fac))"

lemma factory_contains_iff: "factory_contains fac name \<longleftrightarrow> factory_get fac name \<noteq> None"
  by (simp add: factory_contains_def factory_get_def map_of_eq_None_iff)

lemma factory_get_register [simp]:
  "factory_get (factory_register n p fac) m = (if m = n then Some p else factory_get fac m)"
  by (simp add: factory_get_def factory_register_def update_conv')

lemma factory_default_register:
  "factory_default (factory_register n p fac) = (if n = pf_default fac then Some p else factory_default fac)"
  by (simp add: factory_default_def factory_register_def update_conv')

section \<open>The provider registry\<close>

text \<open>A file \<open>.bastion/providers/*.toml\<close>.\<close>

record provider_config =
  cf_name :: string
  cf_kind :: string
  cf_plugin :: string
  cf_default :: "bool option"
  cf_socket :: "string option"
  cf_image :: "string option"
  cf_worker_binary :: "string option"
  cf_capabilities :: capabilities_config

definition default_plugin :: string where
  "default_plugin = ''builtin''"

datatype provider_registry_error =
    RegReadDir string
  | RegTomlParse string
  | RegProviderNotFound string
  | RegWatcher string

text \<open>The constructors of the providers, and what the code asks of its host.\<close>

record 'p provider_makers =
  mk_podman :: "string \<Rightarrow> string \<Rightarrow> string \<Rightarrow> (string, 'p) result"
  mk_gvisor :: "string \<Rightarrow> string \<Rightarrow> string \<Rightarrow> string \<Rightarrow> string \<Rightarrow> (string, 'p) result"
  mk_firecracker :: "string \<Rightarrow> string \<Rightarrow> string \<Rightarrow> string \<Rightarrow> string \<Rightarrow> string \<Rightarrow> string \<times> nat \<Rightarrow> (string, 'p) result"
  mk_local :: "string \<Rightarrow> (string, 'p) result"
  mk_wasm :: "'p option"
  host_exists :: "string \<Rightarrow> bool"
  host_temp_dir :: string

definition map_watcher :: "(string, 'p) result \<Rightarrow> (provider_registry_error, 'p) result" where
  "map_watcher r = (case r of Inl e \<Rightarrow> Err (RegWatcher e) | Inr p \<Rightarrow> Ok p)"

definition instantiate_provider ::
    "'p provider_makers \<Rightarrow> provider_config \<Rightarrow> (provider_registry_error, 'p) result" where
  "instantiate_provider M c =
     (if cf_kind c = ''podman'' then
        map_watcher (mk_podman M
          (value_or (cf_socket c) ''/run/user/1000/podman/podman.sock'')
          (value_or (cf_image c) ''debian:bookworm-slim'')
          (value_or (cf_worker_binary c) ''target/debug/bastion-worker''))
      else if cf_kind c = ''gvisor'' then
        map_watcher (mk_gvisor M ''/usr/local/bin/runsc'' (value_or (cf_image c) ''debian'')
          ''/tmp/bastion-gvisor-rootfs'' (value_or (cf_worker_binary c) ''target/release/bastion-worker'')
          ''127.0.0.1:50052'')
      else if cf_kind c = ''firecracker'' then
        map_watcher (mk_firecracker M
          (case cf_socket c of
             Some s \<Rightarrow> s
           | None \<Rightarrow> value_or (find (host_exists M) [''/usr/bin/firecracker'', ''/usr/local/bin/firecracker''])
                       ''/home/rubentxu/.local/bin/firecracker'')
          ''/boot/vmlinuz'' ''/var/lib/bastion/firecracker/rootfs.ext4'' ''/tmp/bastion-firecracker-vms''
          (value_or (cf_worker_binary c) ''target/release/bastion-worker'') ''127.0.0.1:50052''
          (''10.0.2.1'', 24))
      else if cf_kind c = ''local'' then
        map_watcher (mk_local M (value_or (cf_socket c) (path_join (host_temp_dir M) ''bastion-local'')))
      else if cf_kind c = ''wasm'' then
        (case mk_wasm M of
           Some p \<Rightarrow> Ok p
         | None \<Rightarrow> Err (RegWatcher ''wasm-sandbox feature not enabled. Rebuild with --features wasm-sandbox''))
      else Err (RegWatcher (''Unknown provider kind: '' @ cf_kind c)))"

record 'p provider_registry =
  pr_factory :: "'p provider_factory"
  pr_configs :: "(string \<times> provider_config) list"

definition provider_registry_new :: "'p provider_factory \<Rightarrow> 'p provider_registry" where
  "provider_registry_new fac = \<lparr>pr_factory = fac, pr_configs = []\<rparr>"

definition registry_register :: "string \<Rightarrow> 'p \<Rightarrow> 'p provider_registry \<Rightarrow> 'p provider_registry" where
  "registry_register name p r = r\<lparr>pr_factory := factory_register name p (pr_factory r)\<rparr>"

definition registry_load_file ::
    "catalog_fs \<Rightarrow> (string \<Rightarrow> (string, provider_config) result) \<Rightarrow> string \<Rightarrow> (provider_registry_error, provider_config) result" where
  "registry_load_file F parse path =
     (case fs_read_to_string F path of
        Inl e \<Rightarrow> Err (RegReadDir e)
      | Inr content \<Rightarrow> (case parse content of Inl e \<Rightarrow> Err (RegTomlParse e) | Inr c \<Rightarrow> Ok c))"

text \<open>The loop over the configurations runs through a clone of the map, in its order.\<close>

definition register_configs :: "'p provider_makers \<Rightarrow> 'p provider_registry \<Rightarrow> 'p provider_registry" where
  "register_configs M r =
     r\<lparr>pr_factory := fold (\<lambda>(name, c) fac.
                        case instantiate_provider M c of
                          Inr p \<Rightarrow> factory_register name p fac
                        | Inl e \<Rightarrow> fac) (pr_configs r) (pr_factory r)\<rparr>"

fun registry_load_loop ::
    "catalog_fs \<Rightarrow> (string \<Rightarrow> (string, provider_config) result) \<Rightarrow> (string, string) result list \<Rightarrow> nat \<Rightarrow>
     'p provider_registry \<Rightarrow> (provider_registry_error, nat) result \<times> 'p provider_registry" where
  "registry_load_loop F parse [] loaded r = (Ok loaded, r)"
| "registry_load_loop F parse (entry # entries) loaded r =
     (case entry of
        Inl e \<Rightarrow> (Err (RegReadDir e), r)
      | Inr path \<Rightarrow>
          if \<not> is_toml path then registry_load_loop F parse entries loaded r
          else (case registry_load_file F parse path of
                  Inl e \<Rightarrow> registry_load_loop F parse entries loaded r
                | Inr c \<Rightarrow>
                    registry_load_loop F parse entries (loaded + 1)
                      (r\<lparr>pr_configs := AList.update (cf_name c) c (pr_configs r)\<rparr>)))"

definition registry_load_from_dir ::
    "'p provider_makers \<Rightarrow> catalog_fs \<Rightarrow> (string \<Rightarrow> (string, provider_config) result) \<Rightarrow> string \<Rightarrow>
     'p provider_registry \<Rightarrow> (provider_registry_error, nat) result \<times> 'p provider_registry" where
  "registry_load_from_dir M F parse dir r =
     (if \<not> fs_exists F dir then (Ok 0, r)
      else case fs_read_dir F dir of
             Inl e \<Rightarrow> (Err (RegReadDir e), r)
           | Inr entries \<Rightarrow>
               (case registry_load_loop F parse entries 0 r of
                  (Inl e, r') \<Rightarrow> (Err e, r')
                | (Inr loaded, r') \<Rightarrow> (Ok loaded, register_configs M r')))"

definition registry_get :: "'p provider_registry \<Rightarrow> string \<Rightarrow> 'p option" where
  "registry_get r name = factory_get (pr_factory r) name"

definition registry_get_config :: "'p provider_registry \<Rightarrow> string \<Rightarrow> provider_config option" where
  "registry_get_config r name = map_of (pr_configs r) name"

definition registry_default :: "'p provider_registry \<Rightarrow> 'p option" where
  "registry_default r = factory_default (pr_factory r)"

definition registry_reload :: "'p provider_makers \<Rightarrow> 'p provider_registry \<Rightarrow> nat \<times> 'p provider_registry" where
  "registry_reload M r = (length (pr_configs r), register_configs M r)"

subsection \<open>What loading leaves behind\<close>

lemma register_configs_get:
  assumes "distinct (map fst (pr_configs r))"
  shows "registry_get (register_configs M r) n =
     (case registry_get_config r n of
        None \<Rightarrow> registry_get r n
      | Some c \<Rightarrow> (case instantiate_provider M c of Inr p \<Rightarrow> Some p | Inl e \<Rightarrow> registry_get r n))"
proof -
  have "distinct (map fst cs) \<Longrightarrow>
      factory_get (fold (\<lambda>(name, c) fac. case instantiate_provider M c of
                            Inr p \<Rightarrow> factory_register name p fac | Inl e \<Rightarrow> fac) cs fac) n =
      (case map_of cs n of None \<Rightarrow> factory_get fac n
       | Some c \<Rightarrow> (case instantiate_provider M c of Inr p \<Rightarrow> Some p | Inl e \<Rightarrow> factory_get fac n))" for cs fac
    by (induction cs arbitrary: fac)
      (auto simp: map_of_eq_None_iff image_iff split: sum.splits option.splits dest: map_of_SomeD)
  then show ?thesis
    unfolding registry_get_def registry_get_config_def
    using assms by (simp add: register_configs_def)
qed

lemma register_configs_keeps [simp]:
  "pr_configs (register_configs M r) = pr_configs r"
  "registry_get_config (register_configs M r) n = registry_get_config r n"
  "pf_default (pr_factory (register_configs M r)) = pf_default (pr_factory r)"
proof -
  have "pf_default (fold (\<lambda>(name, c) fac. case instantiate_provider M c of
      Inr p \<Rightarrow> factory_register name p fac | Inl e \<Rightarrow> fac) cs fac) = pf_default fac" for cs fac
    by (induction cs arbitrary: fac) (auto simp: factory_register_def split: sum.splits)
  then show "pf_default (pr_factory (register_configs M r)) = pf_default (pr_factory r)"
    by (simp add: register_configs_def)
qed (simp_all add: register_configs_def registry_get_config_def)

lemma register_configs_twice:
  assumes "distinct (map fst (pr_configs r))"
  shows "registry_get (register_configs M (register_configs M r)) n = registry_get (register_configs M r) n"
proof -
  have "distinct (map fst (pr_configs (register_configs M r)))" using assms by simp
  from register_configs_get [OF this] register_configs_get [OF assms] show ?thesis
    by (simp split: option.split sum.split)
qed

fun loadable ::
    "catalog_fs \<Rightarrow> (string \<Rightarrow> (string, provider_config) result) \<Rightarrow> (string, string) result list \<Rightarrow> provider_config list" where
  "loadable F parse [] = []"
| "loadable F parse (Inl e # entries) = []"
| "loadable F parse (Inr path # entries) =
     (if is_toml path then case registry_load_file F parse path of Inr c \<Rightarrow> [c] | Inl e \<Rightarrow> [] else []) @
     loadable F parse entries"

lemma registry_load_loop_eq:
  "registry_load_loop F parse entries k r =
     (case listing_error entries of
        Some e \<Rightarrow> Err (RegReadDir e)
      | None \<Rightarrow> Ok (k + length (loadable F parse entries)),
      r\<lparr>pr_configs := fold (\<lambda>c. AList.update (cf_name c) c) (loadable F parse entries) (pr_configs r)\<rparr>)"
  by (induction F parse entries k r rule: registry_load_loop.induct)
    (auto split: sum.splits option.splits)

lemma distinct_fold_update:
  "distinct (map fst m) \<Longrightarrow> distinct (map fst (fold (\<lambda>c. AList.update (cf_name c) c) cs m))"
  by (induction cs arbitrary: m) (simp_all add: distinct_update)

lemma fold_update_last:
  "map_of (fold (\<lambda>c. AList.update (cf_name c) c) cs m) n =
     (case last_with cf_name n cs of Some c \<Rightarrow> Some c | None \<Rightarrow> map_of m n)"
  by (induction cs arbitrary: m) (auto simp: last_with_def update_conv' find_append split: option.splits)


end
