(* ===== verification/Template_Catalog.thy ===== *)
theory Template_Catalog
  imports Provider_Store
begin

text \<open>
  Templates: \<open>template/artifact.rs\<close>, \<open>template/catalog.rs\<close>, \<open>template/layer.rs\<close> and \<open>template/materializer.rs\<close> of
  \<open>bastion-domain/src\<close>, the resolver of materialization strategies in \<open>bastion-application/src/template\<close>, and the
  artifact store and the names of snapshots in \<open>bastion-infrastructure/src/template\<close>. Text of names and digests
  is ASCII, so that a byte is a character.
\<close>

section \<open>Artifacts\<close>

datatype manager_type = CaStore | Apt | Asdf | Sdkman | Brew | Nix

datatype artifact_media_type =
    OciImage | OciLayer | OciArtifact | RootfsTar | VmDisk | MicroVmSnapshot | LambdaLayerZip | WasmModule
  | CustomMedia string

datatype tool_category = GenericTool | JavaTool | NodeTool | PythonTool | RubyTool | GoTool | RustTool | SystemTool

record tool_descriptor =
  td_name :: string
  td_version :: string
  td_category :: tool_category
  td_manager_preference :: "manager_type list"

record verification_step =
  vs_label :: string
  vs_command :: string
  vs_expected_exit_code :: "32 word"
  vs_expected_output_contains :: "string option"

record capability_descriptor =
  cd_name :: string
  cd_tools :: "tool_descriptor list"
  cd_verification :: "verification_step list"

record prepared_environment_spec =
  pe_env :: "(string \<times> string) list"
  pe_path_prefix :: "string list"

record artifact_security =
  sec_digest :: "string option"
  sec_signature :: "string option"
  sec_sbom_ref :: "string option"
  sec_provenance_ref :: "string option"
  sec_readonly :: bool
  sec_allowed_network :: "string list"
  sec_allowed_writes :: "string list"
  sec_contains_secrets :: bool

record template_artifact =
  af_id :: string
  af_name :: string
  af_version :: string
  af_digest :: string
  af_media_type :: artifact_media_type
  af_capabilities :: "capability_descriptor list"
  af_env :: prepared_environment_spec
  af_security :: artifact_security
  af_provider_hints :: "(string \<times> string) list"

text \<open>The builder.\<close>

record artifact_builder =
  ab_id :: "string option"
  ab_name :: string
  ab_version :: string
  ab_digest :: string
  ab_media_type :: artifact_media_type
  ab_capabilities :: "capability_descriptor list"
  ab_env :: prepared_environment_spec
  ab_security :: artifact_security
  ab_provider_hints :: "(string \<times> string) list"

definition replace_slash :: "string \<Rightarrow> string" where
  "replace_slash s = map (\<lambda>c. if c = CHR ''/'' then CHR ''-'' else c) s"

definition builder_new :: "string \<Rightarrow> string \<Rightarrow> artifact_builder" where
  "builder_new name version =
     \<lparr>ab_id = None, ab_name = name, ab_version = version, ab_digest = ''sha256:'' @ version,
      ab_media_type = RootfsTar, ab_capabilities = [], ab_env = \<lparr>pe_env = [], pe_path_prefix = []\<rparr>,
      ab_security = \<lparr>sec_digest = None, sec_signature = None, sec_sbom_ref = None, sec_provenance_ref = None,
        sec_readonly = False, sec_allowed_network = [], sec_allowed_writes = [], sec_contains_secrets = False\<rparr>,
      ab_provider_hints = []\<rparr>"

definition builder_id :: "string \<Rightarrow> artifact_builder \<Rightarrow> artifact_builder" where
  "builder_id i b = b\<lparr>ab_id := Some i\<rparr>"

definition builder_digest :: "string \<Rightarrow> artifact_builder \<Rightarrow> artifact_builder" where
  "builder_digest d b = b\<lparr>ab_digest := d\<rparr>"

definition builder_media_type :: "artifact_media_type \<Rightarrow> artifact_builder \<Rightarrow> artifact_builder" where
  "builder_media_type mt b = b\<lparr>ab_media_type := mt\<rparr>"

definition builder_add_capability :: "capability_descriptor \<Rightarrow> artifact_builder \<Rightarrow> artifact_builder" where
  "builder_add_capability c b = b\<lparr>ab_capabilities := ab_capabilities b @ [c]\<rparr>"

definition builder_env_var :: "string \<Rightarrow> string \<Rightarrow> artifact_builder \<Rightarrow> artifact_builder" where
  "builder_env_var k v b = b\<lparr>ab_env := (ab_env b)\<lparr>pe_env := AList.update k v (pe_env (ab_env b))\<rparr>\<rparr>"

definition builder_path_prefix :: "string \<Rightarrow> artifact_builder \<Rightarrow> artifact_builder" where
  "builder_path_prefix p b = b\<lparr>ab_env := (ab_env b)\<lparr>pe_path_prefix := pe_path_prefix (ab_env b) @ [p]\<rparr>\<rparr>"

definition builder_readonly :: "bool \<Rightarrow> artifact_builder \<Rightarrow> artifact_builder" where
  "builder_readonly r b = b\<lparr>ab_security := (ab_security b)\<lparr>sec_readonly := r\<rparr>\<rparr>"

definition builder_build :: "artifact_builder \<Rightarrow> template_artifact" where
  "builder_build b =
     \<lparr>af_id = (case ab_id b of Some i \<Rightarrow> i | None \<Rightarrow> replace_slash (ab_name b) @ ''-'' @ ab_version b),
      af_name = ab_name b, af_version = ab_version b, af_digest = ab_digest b, af_media_type = ab_media_type b,
      af_capabilities = ab_capabilities b, af_env = ab_env b, af_security = ab_security b,
      af_provider_hints = ab_provider_hints b\<rparr>"

text \<open>Without an explicit digest, artifacts of one version share it, whatever their name.\<close>

lemma default_digest: "af_digest (builder_build (builder_new n v)) = ''sha256:'' @ v"
  by (simp add: builder_build_def builder_new_def)

section \<open>The artifact catalog\<close>

record catalog_entry =
  ce_artifact :: template_artifact
  ce_enabled :: bool

type_synonym artifact_catalog = "(string \<times> catalog_entry) list"

definition artifact_register :: "template_artifact \<Rightarrow> artifact_catalog \<Rightarrow> artifact_catalog" where
  "artifact_register a cat = AList.update (af_id a) \<lparr>ce_artifact = a, ce_enabled = True\<rparr> cat"

definition artifact_remove :: "string \<Rightarrow> artifact_catalog \<Rightarrow> catalog_entry option \<times> artifact_catalog" where
  "artifact_remove i cat = (map_of cat i, AList.delete i cat)"

definition artifact_get :: "artifact_catalog \<Rightarrow> string \<Rightarrow> catalog_entry option" where
  "artifact_get cat i = map_of cat i"

definition has_capability :: "string \<Rightarrow> catalog_entry \<Rightarrow> bool" where
  "has_capability cap e = list_ex (\<lambda>c. cd_name c = cap) (af_capabilities (ce_artifact e))"

definition find_by_capability :: "artifact_catalog \<Rightarrow> string \<Rightarrow> catalog_entry list" where
  "find_by_capability cat cap = filter (has_capability cap) (map snd cat)"

definition artifact_resolve :: "artifact_catalog \<Rightarrow> string \<Rightarrow> (domain_error, template_artifact) result" where
  "artifact_resolve cat cap =
     (case filter (\<lambda>e. ce_enabled e \<and> has_capability cap e) (map snd cat) of
        [] \<Rightarrow> Err (NotFound (''No artifact found for capability '' @ quote cap))
      | e # es \<Rightarrow> Ok (ce_artifact e))"

definition list_enabled :: "artifact_catalog \<Rightarrow> catalog_entry list" where
  "list_enabled cat = filter ce_enabled (map snd cat)"

definition catalog_ok :: "artifact_catalog \<Rightarrow> bool" where
  "catalog_ok cat \<longleftrightarrow> distinct (map fst cat) \<and> list_all (\<lambda>(i, e). af_id (ce_artifact e) = i \<and> ce_enabled e) cat"

lemma set_alist_update:
  "distinct (map fst m) \<Longrightarrow> set (AList.update k v m) = {(k, v)} \<union> {(i, w). (i, w) \<in> set m \<and> i \<noteq> k}"
  by (induction m) (auto simp: image_iff)

lemma artifact_register_ok: "catalog_ok cat \<Longrightarrow> catalog_ok (artifact_register a cat)"
  by (auto simp: catalog_ok_def artifact_register_def distinct_update list_all_iff set_alist_update)

lemma artifact_remove_ok: "catalog_ok cat \<Longrightarrow> catalog_ok (snd (artifact_remove i cat))"
  by (auto simp: catalog_ok_def artifact_remove_def distinct_map_filter list_all_iff AList.delete_eq)

text \<open>Since nothing disables an entry, every entry with the capability can be resolved.\<close>

lemma catalog_ok_entry:
  "catalog_ok cat \<Longrightarrow> e \<in> snd ` set cat \<Longrightarrow> ce_enabled e \<and> map_of cat (af_id (ce_artifact e)) = Some e"
  by (force simp: catalog_ok_def list_all_iff)

lemma artifact_resolve_eq:
  assumes "catalog_ok cat"
  shows "artifact_resolve cat cap =
     (case find_by_capability cat cap of
        [] \<Rightarrow> Err (NotFound (''No artifact found for capability '' @ quote cap))
      | e # es \<Rightarrow> Ok (ce_artifact e))"
proof -
  have "filter (\<lambda>e. ce_enabled e \<and> has_capability cap e) (map snd cat) = find_by_capability cat cap"
    unfolding find_by_capability_def using catalog_ok_entry [OF assms] by (intro filter_cong) auto
  then show ?thesis by (simp add: artifact_resolve_def)
qed

lemma artifact_resolve_found:
  assumes "catalog_ok cat" "artifact_resolve cat cap = Inr a"
  shows "artifact_get cat (af_id a) = Some \<lparr>ce_artifact = a, ce_enabled = True\<rparr> \<and>
    (\<exists>c \<in> set (af_capabilities a). cd_name c = cap)"
proof -
  obtain e es where e: "find_by_capability cat cap = e # es" "a = ce_artifact e"
    using assms(2) by (auto simp: artifact_resolve_eq [OF assms(1)] split: list.splits)
  then have "e \<in> set (find_by_capability cat cap)" by simp
  then have m: "e \<in> snd ` set cat" "has_capability cap e" by (auto simp: find_by_capability_def)
  then show ?thesis using catalog_ok_entry [OF assms(1) m(1)] e(2)
    by (auto simp: artifact_get_def has_capability_def list_ex_iff)
qed

section \<open>Layers\<close>

definition max_layers_per_function :: nat where
  "max_layers_per_function = 5"

definition layer_mount_prefix :: string where
  "layer_mount_prefix = ''/opt/bastion/layers''"

record layer_artifact =
  la_id :: string
  la_name :: string
  la_version :: "32 word"
  la_arn :: string
  la_template :: template_artifact
  la_description :: "string option"
  la_compatible_runtimes :: "string list"
  la_license :: "string option"

definition layer_new :: "template_artifact \<Rightarrow> string option \<Rightarrow> layer_artifact" where
  "layer_new t description =
     \<lparr>la_id = ''layer:'' @ replace_slash (af_name t), la_name = af_name t, la_version = 1,
      la_arn = ''arn:bastion:layer:'' @ replace_slash (af_name t) @ '':1'', la_template = t,
      la_description = description, la_compatible_runtimes = [], la_license = None\<rparr>"

definition layer_mount_path :: "layer_artifact \<Rightarrow> string" where
  "layer_mount_path l = layer_mount_prefix @ ''/'' @ af_digest (la_template l)"

datatype layer_stack_error = TooManyLayers | DuplicateLayer string

type_synonym layer_stack = "layer_artifact list"

definition layer_add :: "layer_artifact \<Rightarrow> layer_stack \<Rightarrow> (layer_stack_error, unit) result \<times> layer_stack" where
  "layer_add l stack =
     (if max_layers_per_function \<le> length stack then (Err TooManyLayers, stack)
      else if list_ex (\<lambda>k. la_name k = la_name l) stack then (Err (DuplicateLayer (la_name l)), stack)
      else (Ok (), stack @ [l]))"

fun position :: "('a \<Rightarrow> bool) \<Rightarrow> 'a list \<Rightarrow> nat option" where
  "position p [] = None"
| "position p (x # xs) = (if p x then Some 0 else map_option Suc (position p xs))"

definition layer_remove :: "string \<Rightarrow> layer_stack \<Rightarrow> layer_artifact option \<times> layer_stack" where
  "layer_remove name stack =
     (case position (\<lambda>l. la_name l = name) stack of
        Some pos \<Rightarrow> (Some (stack ! pos), take pos stack @ drop (Suc pos) stack)
      | None \<Rightarrow> (None, stack))"

definition combined_path_prefix :: "layer_stack \<Rightarrow> string list" where
  "combined_path_prefix stack = concat (map (\<lambda>l. pe_path_prefix (af_env (la_template l))) stack)"

definition combined_env :: "layer_stack \<Rightarrow> (string \<times> string) list" where
  "combined_env stack =
     fold (\<lambda>l env. fold (\<lambda>(k, v). AList.update k v) (pe_env (af_env (la_template l))) env) stack []"

text \<open>At most five layers, with different names.\<close>

definition stack_ok :: "layer_stack \<Rightarrow> bool" where
  "stack_ok stack \<longleftrightarrow> length stack \<le> 5 \<and> distinct (map la_name stack)"

lemma position_Some:
  "position p xs = Some i \<Longrightarrow> i < length xs \<and> p (xs ! i) \<and> (\<forall>j < i. \<not> p (xs ! j))"
  by (induction xs arbitrary: i) (auto simp: less_Suc_eq_0_disj split: if_splits)

lemma position_None: "position p xs = None \<longleftrightarrow> list_all (\<lambda>x. \<not> p x) xs"
  by (induction xs) auto

lemma remove_at_distinct:
  "distinct (map f xs) \<Longrightarrow> i < length xs \<Longrightarrow> take i xs @ drop (Suc i) xs = filter (\<lambda>x. f x \<noteq> f (xs ! i)) xs"
proof (induction xs arbitrary: i)
  case (Cons x xs)
  show ?case
  proof (cases i)
    case 0
    then show ?thesis using Cons.prems by (auto simp: image_iff intro!: filter_True [symmetric])
  next
    case (Suc j)
    then show ?thesis using Cons.prems Cons.IH [of j] nth_mem [of j xs] by auto
  qed
qed simp

lemma layer_remove_eq:
  assumes "distinct (map la_name stack)"
  shows "layer_remove name stack =
    (find (\<lambda>l. la_name l = name) stack, filter (\<lambda>l. la_name l \<noteq> name) stack)"
proof (cases "position (\<lambda>l. la_name l = name) stack")
  case None
  then have "list_all (\<lambda>l. la_name l \<noteq> name) stack" by (simp add: position_None)
  then have "find (\<lambda>l. la_name l = name) stack = None" "filter (\<lambda>l. la_name l \<noteq> name) stack = stack"
    by (auto simp: find_None_iff list_all_iff intro!: filter_True)
  then show ?thesis using None by (simp add: layer_remove_def)
next
  case (Some i)
  note p = position_Some [OF Some]
  then have "find (\<lambda>l. la_name l = name) stack = Some (stack ! i)" by (auto simp: find_Some_iff)
  then show ?thesis using Some p remove_at_distinct [OF assms, of i] by (simp add: layer_remove_def)
qed

lemma layer_stack_ok:
  "stack_ok stack \<Longrightarrow> stack_ok (snd (layer_add l stack))"
  "stack_ok stack \<Longrightarrow> stack_ok (snd (layer_remove n stack))"
proof -
  show "stack_ok stack \<Longrightarrow> stack_ok (snd (layer_add l stack))"
    by (auto simp: stack_ok_def layer_add_def max_layers_per_function_def list_ex_iff image_iff)
  show "stack_ok stack \<Longrightarrow> stack_ok (snd (layer_remove n stack))"
    using length_filter_le [of "\<lambda>l. la_name l \<noteq> n" stack]
    by (auto simp: stack_ok_def layer_remove_eq distinct_map_filter intro: order_trans [OF length_filter_le])
qed

lemma fold_update_map_of:
  "map_of (fold (\<lambda>(k, v). AList.update k v) kvs m) k =
     (case map_of (rev kvs) k of Some v \<Rightarrow> Some v | None \<Rightarrow> map_of m k)"
  by (induction kvs arbitrary: m) (auto simp: update_conv' map_add_def split: option.splits)

text \<open>A variable has its value from the last layer that sets it.\<close>

lemma combined_env_last:
  "map_of (combined_env stack) k = map_of (rev (concat (map (\<lambda>l. pe_env (af_env (la_template l))) stack))) k"
proof -
  have "map_of (fold (\<lambda>l env. fold (\<lambda>(k, v). AList.update k v) (pe_env (af_env (la_template l))) env) stack m) k =
      (case map_of (rev (concat (map (\<lambda>l. pe_env (af_env (la_template l))) stack))) k of
         Some v \<Rightarrow> Some v | None \<Rightarrow> map_of m k)" for m
    by (induction stack arbitrary: m) (auto simp: fold_update_map_of map_add_def split: option.splits)
  then show ?thesis by (simp add: combined_env_def split: option.split)
qed

datatype layer_call = AddLayer layer_artifact | RemoveLayer string

fun layer_step :: "layer_call \<Rightarrow> layer_stack \<Rightarrow> layer_stack" where
  "layer_step (AddLayer l) stack = snd (layer_add l stack)"
| "layer_step (RemoveLayer n) stack = snd (layer_remove n stack)"

lemma layer_run_ok: "stack_ok stack \<Longrightarrow> stack_ok (fold layer_step calls stack)"
proof (induction calls arbitrary: stack)
  case (Cons c calls)
  have "stack_ok (layer_step c stack)" using Cons.prems layer_stack_ok by (cases c) auto
  then show ?case using Cons.IH by simp
qed simp

text \<open>
  the stack of layers. After any additions and removals it holds at most five layers, with different names.
  An addition is refused exactly when five are there or the name is taken, and then changes nothing; otherwise
  the layer goes on top. A removal takes out the one layer of the name, or nothing. Among the variables of the
  layers the topmost setting wins.
\<close>

theorem layer_stack_sound:
  "case fold layer_step calls [] of stack \<Rightarrow>
     length stack \<le> 5 \<and> distinct (map la_name stack) \<and>
     layer_add l stack =
       (if length stack = 5 then (Err TooManyLayers, stack)
        else if la_name l \<in> la_name ` set stack then (Err (DuplicateLayer (la_name l)), stack)
        else (Ok (), stack @ [l])) \<and>
     layer_remove n stack = (find (\<lambda>l. la_name l = n) stack, filter (\<lambda>l. la_name l \<noteq> n) stack) \<and>
     map_of (combined_env stack) k = map_of (rev (concat (map (\<lambda>l. pe_env (af_env (la_template l))) stack))) k"
proof -
  have ok: "stack_ok (fold layer_step calls [])" by (rule layer_run_ok) (simp add: stack_ok_def)
  then show ?thesis
    by (auto simp: stack_ok_def layer_add_def max_layers_per_function_def list_ex_iff image_iff layer_remove_eq
        combined_env_last)
qed

section \<open>Materialization strategies\<close>

datatype materialization_mode =
    AutoMode | MountReadonly | Extract | BakeIntoImage | RestoreSnapshot | AttachLayer | LazyRemote

datatype provider_kind =
    PodmanKind | DockerKind | ContainerdKind | KubernetesKind | GVisorKind | FirecrackerKind | VirtualMachineKind
  | FaaSKind | CustomKind | WasmProviderKind | LocalKind

fun provider_kind_display :: "provider_kind \<Rightarrow> string" where
  "provider_kind_display PodmanKind = ''podman''"
| "provider_kind_display DockerKind = ''docker''"
| "provider_kind_display ContainerdKind = ''containerd''"
| "provider_kind_display KubernetesKind = ''kubernetes''"
| "provider_kind_display GVisorKind = ''gvisor''"
| "provider_kind_display FirecrackerKind = ''firecracker''"
| "provider_kind_display VirtualMachineKind = ''vm''"
| "provider_kind_display FaaSKind = ''faas''"
| "provider_kind_display CustomKind = ''custom''"
| "provider_kind_display WasmProviderKind = ''wasm''"
| "provider_kind_display LocalKind = ''local''"

record strategy_resolution =
  sr_materializer_name :: string
  sr_mode :: materialization_mode
  sr_use_tool_resolver_fallback :: bool

definition resolve_strategy :: "string \<Rightarrow> provider_kind \<Rightarrow> artifact_catalog \<Rightarrow> strategy_resolution" where
  "resolve_strategy cap kind cat =
     (if is_ok (artifact_resolve cat cap) then
        \<lparr>sr_materializer_name = ''PodmanOptimizedMaterializer'',
         sr_mode = (case kind of
                      PodmanKind \<Rightarrow> MountReadonly | DockerKind \<Rightarrow> MountReadonly
                    | KubernetesKind \<Rightarrow> Extract | FirecrackerKind \<Rightarrow> Extract
                    | _ \<Rightarrow> AutoMode),
         sr_use_tool_resolver_fallback = False\<rparr>
      else
        \<lparr>sr_materializer_name = ''ToolResolver'',
         sr_mode = (case kind of KubernetesKind \<Rightarrow> Extract | _ \<Rightarrow> AutoMode),
         sr_use_tool_resolver_fallback = True\<rparr>)"

definition is_local_provider :: "provider_kind \<Rightarrow> bool" where
  "is_local_provider kind = (case kind of PodmanKind \<Rightarrow> True | DockerKind \<Rightarrow> True | LocalKind \<Rightarrow> True | _ \<Rightarrow> False)"

definition preferred_sync_backend :: "provider_kind \<Rightarrow> string" where
  "preferred_sync_backend kind = (if is_local_provider kind then ''rsync'' else ''tar_stream'')"

lemma resolve_strategy_fallback:
  "catalog_ok cat \<Longrightarrow>
     sr_use_tool_resolver_fallback (resolve_strategy cap kind cat) \<longleftrightarrow> find_by_capability cat cap = []"
  by (simp add: resolve_strategy_def artifact_resolve_eq split: list.split)

text \<open>Every chosen mode is one that the materializer for podman carries out.\<close>

lemma resolve_strategy_mode: "sr_mode (resolve_strategy cap kind cat) \<in> {AutoMode, MountReadonly, Extract}"
  by (cases kind) (simp_all add: resolve_strategy_def)

section \<open>The artifact store\<close>

definition artifact_path :: "string \<Rightarrow> string \<Rightarrow> string \<Rightarrow> string" where
  "artifact_path root i digest = path_join root (replace_slash i @ ''-'' @ take 16 digest @ ''.tar.gz'')"

definition store_fetch ::
    "(string \<Rightarrow> (string, 8 word list) result) \<Rightarrow> string \<Rightarrow> string \<Rightarrow> string \<Rightarrow> (domain_error, 8 word list) result" where
  "store_fetch read root i digest =
     (case read (artifact_path root i digest) of
        Inl e \<Rightarrow> Err (NotFound (''Artifact '' @ i @ '' not found at '' @ artifact_path root i digest @ '': '' @ e))
      | Inr content \<Rightarrow> Ok content)"

definition store_is_cached :: "(string \<Rightarrow> bool) \<Rightarrow> string \<Rightarrow> string \<Rightarrow> string \<Rightarrow> (domain_error, bool) result" where
  "store_is_cached there root i digest = Ok (there (artifact_path root i digest))"

text \<open>Two digests that agree in their first sixteen characters share one file, nine of them hexadecimal.\<close>

lemma artifact_path_prefix: "take 16 d = take 16 d' \<Longrightarrow> artifact_path root i d = artifact_path root i d'"
  by (simp add: artifact_path_def)

section \<open>Names of snapshots\<close>

definition image_tag :: "string \<Rightarrow> string" where
  "image_tag name = ''bastion-snap-'' @ replace_slash name @ '':latest''"

definition rsplit_once :: "char \<Rightarrow> string \<Rightarrow> (string \<times> string) option" where
  "rsplit_once c s =
     (let parts = split_on c s in
      if length parts = 1 then None else Some (join_with c (butlast parts), last parts))"

definition strip_prefix :: "string \<Rightarrow> string \<Rightarrow> string option" where
  "strip_prefix p s = (if starts_with p s then Some (drop (length p) s) else None)"

definition snapshot_name_from_id :: "string \<Rightarrow> string" where
  "snapshot_name_from_id snapshot_id =
     (let i = (case strip_prefix ''snap:'' snapshot_id of Some r \<Rightarrow> r | None \<Rightarrow> snapshot_id) in
      case rsplit_once (CHR ''-'') i of
        Some (name, digits) \<Rightarrow> if list_all is_ascii_digit digits \<and> 10 \<le> length digits then name else i
      | None \<Rightarrow> i)"

definition ends_with :: "string \<Rightarrow> string \<Rightarrow> bool" where
  "ends_with p s = (length p \<le> length s \<and> drop (length s - length p) s = p)"

function trim_end_matches :: "string \<Rightarrow> string \<Rightarrow> string" where
  "trim_end_matches p s =
     (if p \<noteq> [] \<and> ends_with p s then trim_end_matches p (take (length s - length p) s) else s)"
  by auto
termination
  by (relation "measure (\<lambda>(p, s). length s)") (auto simp: ends_with_def neq_Nil_conv)

definition is_snapshot_image :: "string \<Rightarrow> bool" where
  "is_snapshot_image repo_tag = starts_with ''bastion-snap-'' (file_name repo_tag)"

definition parse_snapshot_name :: "string \<Rightarrow> string option" where
  "parse_snapshot_name repo_tag =
     map_option (trim_end_matches '':latest'') (strip_prefix ''bastion-snap-'' (file_name repo_tag))"

text \<open>The identifier a new snapshot gets, and the one under which it is listed.\<close>

definition created_snapshot_id :: "string \<Rightarrow> int \<Rightarrow> string" where
  "created_snapshot_id name time = ''snap:'' @ replace_slash name @ ''-'' @ int_to_string time"

definition listed_snapshot_id :: "string \<Rightarrow> string option" where
  "listed_snapshot_id repo_tag =
     (if is_snapshot_image repo_tag then map_option ((@) ''snap:'') (parse_snapshot_name repo_tag) else None)"

declare trim_end_matches.simps [simp del]

lemma replace_slash_simps [simp]: "replace_slash (replace_slash s) = replace_slash s" "CHR ''/'' \<notin> set (replace_slash s)"
  by (auto simp: replace_slash_def)

lemma rsplit_once_append:
  "c \<notin> set v \<Longrightarrow> rsplit_once c (u @ c # v) = Some (u, v)"
  by (simp add: rsplit_once_def split_on_append_sep split_on_absent butlast_append join_split_on Let_def)

lemma rsplit_once_Some: "rsplit_once c s = Some (u, v) \<Longrightarrow> s = u @ c # v \<and> c \<notin> set v"
proof -
  assume a: "rsplit_once c s = Some (u, v)"
  let ?b = "butlast (split_on c s)"
  have v: "v = last (split_on c s)" "u = join_with c ?b" "length (split_on c s) \<noteq> 1"
    using a by (auto simp: rsplit_once_def Let_def split: if_splits)
  have b: "?b \<noteq> []" using v(3) by (cases "split_on c s"; cases "tl (split_on c s)") auto
  have "split_on c s = ?b @ [v]" using v(1) by simp
  then have "s = join_with c (?b @ [v])" by (metis join_split_on)
  moreover have "v \<in> set (split_on c s)" using v(1) by simp
  ultimately show ?thesis using v(2) split_on_no_sep by (simp add: join_with_snoc [OF b])
qed

lemma digits_no_dash: "list_all is_ascii_digit d \<Longrightarrow> CHR ''-'' \<notin> set d"
  by (auto simp: list_all_iff dest: is_ascii_digit_sign)

lemma nat_to_string_length: "10 ^ k \<le> n \<Longrightarrow> Suc k \<le> length (nat_to_string n)"
proof (induction k arbitrary: n)
  case 0
  then show ?case using nat_to_string_digits [of n] by (cases "nat_to_string n") auto
next
  case (Suc k)
  have "10 * (1 :: nat) \<le> 10 * 10 ^ k" by (intro mult_le_mono) simp_all
  then have "10 \<le> n" using Suc.prems by (metis mult.right_neutral order_trans power_Suc)
  moreover have "10 ^ k \<le> n div 10" using Suc.prems by (simp add: less_eq_div_iff_mult_less_eq mult.commute)
  ultimately show ?case using Suc.IH [of "n div 10"] by (simp add: nat_to_string.simps [of n])
qed

lemma trim_end_matches_append:
  "p \<noteq> [] \<Longrightarrow> trim_end_matches p (s @ p) = trim_end_matches p s"
  by (subst trim_end_matches.simps) (simp add: ends_with_def)

lemma trim_end_matches_id: "\<not> ends_with p s \<Longrightarrow> trim_end_matches p s = s"
  by (subst trim_end_matches.simps) simp

definition timestamped :: "string \<Rightarrow> bool" where
  "timestamped n \<longleftrightarrow> (\<exists>m d. n = m @ ''-'' @ d \<and> list_all is_ascii_digit d \<and> 10 \<le> length d)"

lemma snapshot_name_timestamped:
  assumes "list_all is_ascii_digit d" "10 \<le> length d"
  shows "snapshot_name_from_id (''snap:'' @ m @ ''-'' @ d) = m"
  using assms rsplit_once_append [of "CHR ''-''" d m] digits_no_dash [OF assms(1)]
  by (simp add: snapshot_name_from_id_def strip_prefix_def Let_def)

lemma snapshot_name_plain: "\<not> timestamped n \<Longrightarrow> snapshot_name_from_id (''snap:'' @ n) = n"
  using rsplit_once_Some [of "CHR ''-''" n]
  by (force simp: snapshot_name_from_id_def strip_prefix_def Let_def timestamped_def split: option.splits)

lemma file_name_image_tag: "file_name (image_tag name) = image_tag name"
proof -
  have "CHR ''/'' \<notin> set (image_tag name)" by (simp add: image_tag_def)
  then show ?thesis by (simp add: file_name_def split_on_absent)
qed

lemma image_tag_inject: "image_tag m = image_tag n \<longleftrightarrow> replace_slash m = replace_slash n"
  by (simp add: image_tag_def)

text \<open>
  C40: snapshots are found again. The identifier of a new snapshot, made of its name and the time in seconds, leads
  back to the image of the snapshot, as long as the time has at least ten digits. The image is recognised as a
  snapshot, and for a name that does not itself end like a tag it is listed under the name; this listed
  identifier leads back to the image exactly when the name does not end in a dash and ten or more digits.
\<close>

theorem snapshot_identifiers:
  assumes "1000000000 \<le> time" "\<not> ends_with '':latest'' (replace_slash name)"
  shows "image_tag (snapshot_name_from_id (created_snapshot_id name time)) = image_tag name \<and>
    listed_snapshot_id (image_tag name) = Some (''snap:'' @ replace_slash name) \<and>
    (image_tag (snapshot_name_from_id (''snap:'' @ replace_slash name)) = image_tag name \<longleftrightarrow>
       \<not> timestamped (replace_slash name))"
proof (intro conjI)
  have "10 ^ 9 \<le> nat time" using assms(1) by simp
  from nat_to_string_length [OF this] have "10 \<le> length (int_to_string time)"
    using assms(1) by (simp add: int_to_string_def)
  moreover have "list_all is_ascii_digit (int_to_string time)"
    using assms(1) nat_to_string_digits by (simp add: int_to_string_def)
  ultimately show "image_tag (snapshot_name_from_id (created_snapshot_id name time)) = image_tag name"
    using snapshot_name_timestamped by (simp add: created_snapshot_id_def image_tag_inject)
  show "listed_snapshot_id (image_tag name) = Some (''snap:'' @ replace_slash name)"
    using trim_end_matches_append [of "'':latest''" "replace_slash name"] trim_end_matches_id [OF assms(2)]
    by (simp add: listed_snapshot_id_def is_snapshot_image_def parse_snapshot_name_def file_name_image_tag)
      (simp add: image_tag_def strip_prefix_def)
  show "image_tag (snapshot_name_from_id (''snap:'' @ replace_slash name)) = image_tag name \<longleftrightarrow>
      \<not> timestamped (replace_slash name)"
  proof (cases "timestamped (replace_slash name)")
    case True
    then obtain m d where m: "replace_slash name = m @ ''-'' @ d" "list_all is_ascii_digit d" "10 \<le> length d"
      by (auto simp: timestamped_def)
    then have "length (replace_slash m) \<noteq> length (replace_slash name)" by (simp add: replace_slash_def)
    moreover have "snapshot_name_from_id (''snap:'' @ replace_slash name) = m"
      unfolding m(1) by (rule snapshot_name_timestamped [OF m(2,3)])
    ultimately show ?thesis using True by (auto simp: image_tag_inject)
  next
    case False
    then show ?thesis using snapshot_name_plain [OF False] by (simp add: image_tag_inject)
  qed
qed

theorem snapshot_identifiers_witness:
  "created_snapshot_id ''team/db'' 1700000000 = ''snap:team-db-1700000000'' \<and>
   image_tag (snapshot_name_from_id ''snap:team-db-1700000000'') = ''bastion-snap-team-db:latest'' \<and>
   listed_snapshot_id ''bastion-snap-team-db:latest'' = Some ''snap:team-db''"
proof -
  have n: "replace_slash ''team/db'' = ''team-db''" by (simp add: replace_slash_def)
  have i: "int_to_string 1700000000 = ''1700000000''"
    unfolding int_to_string_def by (simp add: nat_to_string.simps digit_char_def) code_simp
  have "\<not> ends_with '':latest'' (replace_slash ''team/db'')" unfolding n by (simp add: ends_with_def)
  from snapshot_identifiers [of 1700000000, OF _ this] show ?thesis
    by (simp add: n i created_snapshot_id_def image_tag_def)
qed

end
