(* ===== verification/Template_Toolchain.thy ===== *)
theory Template_Toolchain
  imports Template_Catalog
begin

text \<open>
  Toolchains: \<open>template/toolchain.rs\<close> of \<open>bastion-domain/src\<close>, the adapters for \<open>apt\<close>, \<open>asdf\<close>, \<open>sdkman\<close> and the
  content-addressed store, and the capability files and their registry in \<open>bastion-infrastructure/src/template\<close>.
  An adapter plans on the state of the host, which only the content-addressed store reads and changes. Text is
  ASCII. A hash map is an association list in the order in which it happens to be iterated.
\<close>

section \<open>Requests and plans\<close>

datatype toolchain_strategy = AutoStrategy | SystemPackage | VersionManager | ContentAddressed

fun strategy_accepts :: "toolchain_strategy \<Rightarrow> manager_type \<Rightarrow> bool" where
  "strategy_accepts AutoStrategy mt = True"
| "strategy_accepts SystemPackage mt = (mt = Apt \<or> mt = Brew)"
| "strategy_accepts VersionManager mt = (mt = Asdf \<or> mt = Sdkman)"
| "strategy_accepts ContentAddressed mt = (mt = CaStore)"

fun strategy_debug :: "toolchain_strategy \<Rightarrow> string" where
  "strategy_debug AutoStrategy = ''Auto''"
| "strategy_debug SystemPackage = ''SystemPackage''"
| "strategy_debug VersionManager = ''VersionManager''"
| "strategy_debug ContentAddressed = ''ContentAddressed''"

record toolchain_request =
  tq_sandbox_id :: sandbox_id
  tq_capability :: string
  tq_constraints :: "(string \<times> string) list"
  tq_strategy :: toolchain_strategy

record toolchain_step =
  ts_description :: string
  ts_command :: string
  ts_env :: "(string \<times> string) list"
  ts_timeout_ms :: "64 word"
  ts_expected_exit_code :: "32 word"

record tool_verify_step =
  tv_label :: string
  tv_command :: string
  tv_expected_output_contains :: "string option"
  tv_expected_exit_code :: "32 word"

record toolchain_plan =
  tp_capability :: string
  tp_adapter_used :: string
  tp_steps :: "toolchain_step list"
  tp_verification :: "tool_verify_step list"
  tp_env :: "(string \<times> string) list"
  tp_path_prefix :: "string list"

datatype support_level = NoSupport | PartialSupport | FullSupport

text \<open>The trait \<open>ToolManagerAdapter\<close>.\<close>

record 'w tool_adapter =
  ta_id :: string
  ta_name :: string
  ta_manager_type :: manager_type
  ta_supports :: "toolchain_request \<Rightarrow> support_level"
  ta_plan :: "toolchain_request \<Rightarrow> ('w, toolchain_plan) port_call"

section \<open>The resolver\<close>

text \<open>The adapters in the order of their registration.\<close>

type_synonym 'w tool_resolver = "'w tool_adapter list"

definition resolver_register :: "'w tool_adapter \<Rightarrow> 'w tool_resolver \<Rightarrow> 'w tool_resolver" where
  "resolver_register a adapters = adapters @ [a]"

fun try_adapters ::
    "support_level \<Rightarrow> toolchain_request \<Rightarrow> 'w tool_adapter list \<Rightarrow> ('w, toolchain_plan) port_call option" where
  "try_adapters level req [] = None"
| "try_adapters level req (a # adapters) =
     (if strategy_accepts (tq_strategy req) (ta_manager_type a) \<and> ta_supports a req = level
      then Some (ta_plan a req)
      else try_adapters level req adapters)"

definition resolver_resolve :: "'w tool_resolver \<Rightarrow> toolchain_request \<Rightarrow> ('w, toolchain_plan) port_call" where
  "resolver_resolve adapters req w =
     (case try_adapters FullSupport req adapters of
        Some plan \<Rightarrow> plan w
      | None \<Rightarrow>
          (case try_adapters PartialSupport req adapters of
             Some plan \<Rightarrow> plan w
           | None \<Rightarrow> (Err (NotFound (''No tool manager available for capability '' @ quote (tq_capability req)
                            @ '' with strategy '' @ strategy_debug (tq_strategy req))), w)))"

definition list_adapters :: "'w tool_resolver \<Rightarrow> string list" where
  "list_adapters adapters = map ta_id adapters"

section \<open>The adapter for apt\<close>

definition plain_step :: "string \<Rightarrow> string \<Rightarrow> 64 word \<Rightarrow> toolchain_step" where
  "plain_step description command timeout =
     \<lparr>ts_description = description, ts_command = command, ts_env = [], ts_timeout_ms = timeout,
      ts_expected_exit_code = 0\<rparr>"

definition plain_verify :: "string \<Rightarrow> string \<Rightarrow> string option \<Rightarrow> tool_verify_step" where
  "plain_verify label command expected =
     \<lparr>tv_label = label, tv_command = command, tv_expected_output_contains = expected, tv_expected_exit_code = 0\<rparr>"

definition apt_supports :: "toolchain_request \<Rightarrow> support_level" where
  "apt_supports req =
     (let c = tq_capability req in
      if c = ''jvm-build'' \<or> c = ''node-build'' \<or> c = ''python-build'' then FullSupport
      else if c = ''rust-build'' \<or> c = ''go-build'' then PartialSupport
      else NoSupport)"

text \<open>The packages, the variables, the home of Java and the verifications of a capability.\<close>

definition apt_tools ::
    "string \<Rightarrow> (string \<times> (string \<times> string) list \<times> string option \<times> (string \<times> string \<times> string option) list) option" where
  "apt_tools c =
     (let base_packages = ''git curl ca-certificates'' in
      if c = ''jvm-build'' then
        Some (''default-jdk maven '' @ base_packages,
              [(''JAVA_HOME'', ''/usr/lib/jvm/default-java'')],
              Some ''/usr/lib/jvm/default-java'',
              [(''Java version'', ''java -version'', Some ''openjdk''),
               (''Maven version'', ''mvn -version'', Some ''Apache Maven''),
               (''Git version'', ''git --version'', Some ''git version'')])
      else if c = ''node-build'' then
        Some (''nodejs npm '' @ base_packages, [], None,
              [(''Node version'', ''node --version'', None),
               (''NPM version'', ''npm --version'', None)])
      else if c = ''python-build'' then
        Some (''python3 python3-pip python3-venv '' @ base_packages, [], None,
              [(''Python version'', ''python3 --version'', None),
               (''Pip version'', ''pip3 --version'', None)])
      else None)"

definition apt_plan :: "toolchain_request \<Rightarrow> (domain_error, toolchain_plan) result" where
  "apt_plan req =
     (case apt_tools (tq_capability req) of
        None \<Rightarrow> Err (UnsupportedOperation (''apt doesn'' @ [CHR 0x27] @ ''t know how to install '' @ tq_capability req))
      | Some (packages, env, java_home, verifications) \<Rightarrow>
          Ok \<lparr>tp_capability = tq_capability req, tp_adapter_used = ''apt'',
              tp_steps = [plain_step ''Update package lists and install tools''
                (''apt-get update && apt-get install -y --no-install-recommends '' @ packages) 300000],
              tp_verification = map (\<lambda>(label, cmd, expected). plain_verify label cmd expected) verifications,
              tp_env = env,
              tp_path_prefix = (case java_home of Some jh \<Rightarrow> [jh @ ''/bin''] | None \<Rightarrow> [])\<rparr>)"

definition apt_adapter :: "'w tool_adapter" where
  "apt_adapter =
     \<lparr>ta_id = ''apt'', ta_name = ''APT Package Manager'', ta_manager_type = Apt, ta_supports = apt_supports,
      ta_plan = (\<lambda>req w. (apt_plan req, w))\<rparr>"

section \<open>The adapter for asdf\<close>

definition asdf_setup :: string where
  "asdf_setup = ''git clone https://github.com/asdf-vm/asdf.git ~/.asdf --branch v0.14.0''"

definition double_quote :: "string \<Rightarrow> string" where
  "double_quote s = [CHR 0x22] @ s @ [CHR 0x22]"

definition asdf_source :: string where
  "asdf_source = ''export ASDF_DIR='' @ double_quote ''$HOME/.asdf'' @ '' && . '' @ double_quote ''$ASDF_DIR/asdf.sh''"

definition prereq_install :: string where
  "prereq_install = ''apt-get update && apt-get install -y git curl unzip''"

definition asdf_supports :: "toolchain_request \<Rightarrow> support_level" where
  "asdf_supports req =
     (if tq_capability req
           \<in> set [''jvm-build'', ''node-build'', ''python-build'', ''ruby-build'', ''go-build'', ''rust-build'']
      then FullSupport else NoSupport)"

definition asdf_plan :: "toolchain_request \<Rightarrow> (domain_error, toolchain_plan) result" where
  "asdf_plan req =
     (let common =
            [plain_step ''Install prerequisites for asdf (git, curl)'' prereq_install 120000,
             plain_step ''Clone asdf-vm'' asdf_setup 120000,
             plain_step ''Setup asdf in shell'' (''echo '' @ quote ''. ~/.asdf/asdf.sh'' @ '' >> ~/.bashrc'') 5000];
          finish = (\<lambda>steps verification.
            Ok \<lparr>tp_capability = tq_capability req, tp_adapter_used = ''asdf'', tp_steps = common @ steps,
                tp_verification = verification, tp_env = [], tp_path_prefix = [''~/.asdf/shims'']\<rparr>)
      in
      if tq_capability req = ''jvm-build'' then
        finish
          [plain_step ''Add asdf-java plugin''
             (asdf_source @ '' && asdf plugin add java https://github.com/halcyon/asdf-java.git'') 60000,
           plain_step ''Install Java 17 via asdf''
             (asdf_source @ '' && asdf install java adoptopenjdk-17.0.8+7 && asdf global java adoptopenjdk-17.0.8+7'')
             600000,
           plain_step ''Install Maven via asdf''
             (asdf_source @ '' && asdf plugin add maven && asdf install maven 3.9.5 && asdf global maven 3.9.5'')
             300000]
          [plain_verify ''Java version'' (asdf_source @ '' && java -version'') (Some ''openjdk''),
           plain_verify ''Maven version'' (asdf_source @ '' && mvn -version'') (Some ''Apache Maven'')]
      else if tq_capability req = ''node-build'' then
        finish
          [plain_step ''Install Node.js via asdf''
             (asdf_source @ '' && asdf plugin add nodejs && asdf install nodejs 20.0.0 && asdf global nodejs 20.0.0'')
             300000]
          [plain_verify ''Node version'' (asdf_source @ '' && node --version'') None]
      else Err (UnsupportedOperation (''asdf doesn'' @ [CHR 0x27] @ ''t know how to install '' @ tq_capability req)))"

definition asdf_adapter :: "'w tool_adapter" where
  "asdf_adapter =
     \<lparr>ta_id = ''asdf'', ta_name = ''asdf Version Manager'', ta_manager_type = Asdf, ta_supports = asdf_supports,
      ta_plan = (\<lambda>req w. (asdf_plan req, w))\<rparr>"

section \<open>The adapter for sdkman\<close>

definition sdkman_install :: string where
  "sdkman_install = ''curl -s '' @ double_quote ''https://get.sdkman.io'' @ '' | bash''"

definition sdkman_source :: string where
  "sdkman_source = ''source ~/.sdkman/bin/sdkman-init.sh''"

definition sdkman_supports :: "toolchain_request \<Rightarrow> support_level" where
  "sdkman_supports req =
     (if tq_capability req = ''jvm-build'' then FullSupport
      else if tq_capability req = ''java-build'' then FullSupport
      else NoSupport)"

definition sdkman_plan :: "toolchain_request \<Rightarrow> (domain_error, toolchain_plan) result" where
  "sdkman_plan req =
     (let constraint = map_of (tq_constraints req);
          java_version = (case constraint ''java'' of Some v \<Rightarrow> v | None \<Rightarrow> ''17.0.8-tem'');
          maven_version = (case constraint ''maven'' of Some v \<Rightarrow> v | None \<Rightarrow> ''3.9.5'');
          gradle = (case constraint ''gradle'' of
              Some gv \<Rightarrow> [plain_step (''Install Gradle '' @ gv) (sdkman_source @ '' && sdk install gradle '' @ gv) 300000]
            | None \<Rightarrow> []);
          java_home = ''/root/.sdkman/candidates/java/'' @ java_version
      in
      Ok \<lparr>tp_capability = tq_capability req, tp_adapter_used = ''sdkman'',
          tp_steps =
            [plain_step ''Install SDKMAN!'' sdkman_install 120000,
             plain_step (''Install Java '' @ java_version) (sdkman_source @ '' && sdk install java '' @ java_version) 600000,
             plain_step (''Install Maven '' @ maven_version)
               (sdkman_source @ '' && sdk install maven '' @ maven_version) 300000] @ gradle,
          tp_verification =
            [plain_verify ''Java version'' (sdkman_source @ '' && java -version'') (Some ''openjdk''),
             plain_verify ''Maven version'' (sdkman_source @ '' && mvn -version'') (Some ''Apache Maven'')],
          tp_env = [(''JAVA_HOME'', java_home), (''SDKMAN_DIR'', ''/root/.sdkman'')],
          tp_path_prefix = [java_home @ ''/bin'']\<rparr>)"

definition sdkman_adapter :: "'w tool_adapter" where
  "sdkman_adapter =
     \<lparr>ta_id = ''sdkman'', ta_name = ''SDKMAN! Java Version Manager'', ta_manager_type = Sdkman,
      ta_supports = sdkman_supports, ta_plan = (\<lambda>req w. (sdkman_plan req, w))\<rparr>"

section \<open>The content-addressed store\<close>

text \<open>The files of the host, with the digest of their contents as hexadecimal text.\<close>

record 'w host_files =
  hf_exists :: "string \<Rightarrow> 'w \<Rightarrow> bool"
  hf_read :: "string \<Rightarrow> 'w \<Rightarrow> (string, 8 word list) result"
  hf_create_dir_all :: "string \<Rightarrow> 'w \<Rightarrow> (string, unit) result \<times> 'w"
  hf_hard_link :: "string \<Rightarrow> string \<Rightarrow> 'w \<Rightarrow> (string, unit) result \<times> 'w"
  hf_sha256 :: "8 word list \<Rightarrow> string"

text \<open>\<open>Path::parent\<close>, for a path without components that are a single dot.\<close>

definition trim_slashes :: "string \<Rightarrow> string" where
  "trim_slashes p = rev (dropWhile (\<lambda>c. c = CHR ''/'') (rev p))"

definition path_parent :: "string \<Rightarrow> string option" where
  "path_parent p =
     (if trim_slashes p = [] then None
      else Some (case rsplit_once (CHR ''/'') (trim_slashes p) of
                   None \<Rightarrow> []
                 | Some (dir, _) \<Rightarrow> if trim_slashes dir = [] then ''/'' else trim_slashes dir))"

record ca_store_adapter =
  ca_store_root :: string
  ca_provision_root :: string

definition ca_lookup :: "'w host_files \<Rightarrow> ca_store_adapter \<Rightarrow> string \<Rightarrow> 'w \<Rightarrow> string option" where
  "ca_lookup H ca h w =
     (let store_path = path_join (ca_store_root ca) h in if hf_exists H store_path w then Some store_path else None)"

definition ca_verify :: "'w host_files \<Rightarrow> string \<Rightarrow> string \<Rightarrow> 'w \<Rightarrow> (domain_error, unit) result" where
  "ca_verify H path expected_hash w =
     (case hf_read H path w of
        Inl e \<Rightarrow> Err (Internal (''Failed to read tool file: '' @ e))
      | Inr bytes \<Rightarrow>
          (let computed = ''sha256:'' @ hf_sha256 H bytes in
           if computed = expected_hash then Ok ()
           else Err (Internal (''checksum mismatch: expected '' @ expected_hash @ '', got '' @ computed))))"

definition ca_create_hardlink ::
    "'w host_files \<Rightarrow> ca_store_adapter \<Rightarrow> string \<Rightarrow> string \<Rightarrow> ('w, string) port_call" where
  "ca_create_hardlink H ca h tool_name =
     (let store_path = path_join (ca_store_root ca) h;
          provision_path = path_join (ca_provision_root ca) tool_name
      in and_then
           (\<lambda>w. case path_parent provision_path of
                  None \<Rightarrow> (Ok (), w)
                | Some parent \<Rightarrow>
                    (case hf_create_dir_all H parent w of
                       (Inl e, w') \<Rightarrow> (Err (Internal (''Failed to create provision dir: '' @ e)), w')
                     | (Inr _, w') \<Rightarrow> (Ok (), w')))
           (\<lambda>_ w. case hf_hard_link H store_path provision_path w of
                    (Inl e, w') \<Rightarrow> (Err (Internal (''Failed to create hardlink: '' @ e)), w')
                  | (Inr _, w') \<Rightarrow> (Ok provision_path, w')))"

definition ca_supports :: "toolchain_request \<Rightarrow> support_level" where
  "ca_supports req = (if tq_strategy req = ContentAddressed then FullSupport else NoSupport)"

definition ca_plan :: "'w host_files \<Rightarrow> ca_store_adapter \<Rightarrow> toolchain_request \<Rightarrow> ('w, toolchain_plan) port_call" where
  "ca_plan H ca req w =
     (case map_of (tq_constraints req) ''tool_hash'' of
        None \<Rightarrow> (Err (Validation ''Missing tool_hash constraint''), w)
      | Some tool_hash \<Rightarrow>
          (let tool_name = (case map_of (tq_constraints req) ''tool_name'' of Some n \<Rightarrow> n | None \<Rightarrow> tq_capability req) in
           case ca_lookup H ca tool_hash w of
             None \<Rightarrow> (Err (NotFound (''Tool '' @ tool_hash @ '' not found in CA store'')), w)
           | Some store_path \<Rightarrow>
               (case ca_create_hardlink H ca tool_hash tool_name w of
                  (Inl e, w') \<Rightarrow> (Err e, w')
                | (Inr provision_path, w') \<Rightarrow>
                    (case hf_read H store_path w' of
                       Inl e \<Rightarrow> (Err (Internal (''Failed to read store file: '' @ e)), w')
                     | Inr bytes \<Rightarrow>
                         (Ok \<lparr>tp_capability = tq_capability req, tp_adapter_used = ''ca-store'',
                              tp_steps =
                                [plain_step (''Provision tool from CA store via hardlink to '' @ provision_path)
                                   (''ln '' @ store_path @ '' '' @ provision_path) 10000],
                              tp_verification =
                                [plain_verify (''Verify '' @ tool_name @ '' checksum'') (''sha256sum '' @ provision_path)
                                   (Some (''sha256:'' @ hf_sha256 H bytes))],
                              tp_env = [],
                              tp_path_prefix =
                                [case path_parent provision_path of Some p \<Rightarrow> p | None \<Rightarrow> []]\<rparr>, w')))))"

definition ca_adapter :: "'w host_files \<Rightarrow> ca_store_adapter \<Rightarrow> 'w tool_adapter" where
  "ca_adapter H ca =
     \<lparr>ta_id = ''ca-store'', ta_name = ''Content-Addressed Store'', ta_manager_type = CaStore,
      ta_supports = ca_supports, ta_plan = ca_plan H ca\<rparr>"

section \<open>Capability files\<close>

record toolchain_step_def =
  sd_description :: string
  sd_command :: string
  sd_timeout_ms :: "64 word"
  sd_expected_exit_code :: "32 word"
  sd_env :: "(string \<times> string) list option"

record toolchain_def =
  tc_manager :: string
  tc_priority :: "32 word"
  tc_packages :: "string list option"
  tc_steps :: "toolchain_step_def list option"
  tc_verification :: "tool_verify_step list option"
  tc_env :: "(string \<times> string) list option"
  tc_path_prefix :: "string list option"

record capability_config =
  cc_name :: string
  cc_description :: "string option"
  cc_toolchains :: "toolchain_def list"

definition or_empty :: "'a list option \<Rightarrow> 'a list" where
  "or_empty x = (case x of Some xs \<Rightarrow> xs | None \<Rightarrow> [])"

text \<open>Variables of the toolchain are added where the step does not set them itself.\<close>

definition merge_env :: "(string \<times> string) list \<Rightarrow> (string \<times> string) list \<Rightarrow> (string \<times> string) list" where
  "merge_env env step_env =
     fold (\<lambda>(k, v) m. if map_of m k = None then AList.update k v m else m) env step_env"

definition explicit_step :: "(string \<times> string) list \<Rightarrow> toolchain_step_def \<Rightarrow> toolchain_step" where
  "explicit_step env s =
     \<lparr>ts_description = sd_description s, ts_command = sd_command s, ts_env = merge_env env (or_empty (sd_env s)),
      ts_timeout_ms = sd_timeout_ms s, ts_expected_exit_code = sd_expected_exit_code s\<rparr>"

definition config_steps :: "toolchain_def \<Rightarrow> toolchain_step list" where
  "config_steps t =
     (if tc_manager t = ''apt'' then
        (let packages = or_empty (tc_packages t) in
         if packages = [] then []
         else
           [plain_step ''Update apt package index'' ''apt-get update'' 120000,
            plain_step (''Install packages: '' @ join_with (CHR '' '') packages)
              (''apt-get install -y '' @ join_with (CHR '' '') packages) 300000])
      else if tc_manager t = ''brew'' then
        map (\<lambda>pkg. plain_step (''Install '' @ pkg @ '' via brew'') (''brew install '' @ pkg) 300000)
          (or_empty (tc_packages t))
      else map (explicit_step (or_empty (tc_env t))) (or_empty (tc_steps t)))"

definition into_toolchain_plan :: "string \<Rightarrow> capability_config \<Rightarrow> toolchain_plan option" where
  "into_toolchain_plan capability cfg =
     (case cc_toolchains cfg of
        [] \<Rightarrow> None
      | t # _ \<Rightarrow>
          Some \<lparr>tp_capability = capability, tp_adapter_used = tc_manager t, tp_steps = config_steps t,
                tp_verification = or_empty (tc_verification t), tp_env = or_empty (tc_env t),
                tp_path_prefix = or_empty (tc_path_prefix t)\<rparr>)"

definition ascii_lower :: "char \<Rightarrow> char" where
  "ascii_lower c =
     (let n = of_char c :: nat in if 65 \<le> n \<and> n \<le> 90 then char_of (n + 32) else c)"

definition manager_to_type :: "string \<Rightarrow> manager_type" where
  "manager_to_type manager =
     (let m = map ascii_lower manager in
      if m = ''apt'' then Apt
      else if m = ''asdf'' then Asdf
      else if m = ''sdkman'' then Sdkman
      else if m = ''brew'' then Brew
      else if m = ''nix'' then Nix
      else CaStore)"

section \<open>The capability registry\<close>

text \<open>\<open>CapabilityRegistryError\<close> has the shape of the errors of the catalog files.\<close>

type_synonym capability_registry = "(string \<times> capability_config) list"

definition capability_load_file ::
    "catalog_fs \<Rightarrow> (string \<Rightarrow> (string, capability_config) result) \<Rightarrow> string \<Rightarrow>
     (catalog_error, capability_config) result" where
  "capability_load_file fs toml path =
     (case fs_read_to_string fs path of
        Inl e \<Rightarrow> Err (ReadDir e)
      | Inr content \<Rightarrow> (case toml content of Inl e \<Rightarrow> Err (TomlParse e) | Inr cfg \<Rightarrow> Ok cfg))"

fun capability_load_loop ::
    "(string \<Rightarrow> (catalog_error, capability_config) result) \<Rightarrow> (string, string) result list \<Rightarrow> nat \<Rightarrow>
     capability_registry \<Rightarrow> (catalog_error, nat) result \<times> capability_registry" where
  "capability_load_loop load [] loaded reg = (Ok loaded, reg)"
| "capability_load_loop load (Inl e # entries) loaded reg = (Err (ReadDir e), reg)"
| "capability_load_loop load (Inr path # entries) loaded reg =
     (if \<not> is_toml path then capability_load_loop load entries loaded reg
      else case load path of
             Inr cfg \<Rightarrow> capability_load_loop load entries (loaded + 1) (AList.update (cc_name cfg) cfg reg)
           | Inl e \<Rightarrow> capability_load_loop load entries loaded reg)"

definition capability_load_from_dir ::
    "catalog_fs \<Rightarrow> (string \<Rightarrow> (string, capability_config) result) \<Rightarrow> string \<Rightarrow> capability_registry \<Rightarrow>
     (catalog_error, nat) result \<times> capability_registry" where
  "capability_load_from_dir fs toml dir reg =
     (if \<not> fs_exists fs dir then (Ok 0, reg)
      else case fs_read_dir fs dir of
             Inl e \<Rightarrow> (Err (ReadDir e), reg)
           | Inr entries \<Rightarrow> capability_load_loop (capability_load_file fs toml) entries 0 reg)"

definition capability_resolve ::
    "capability_registry \<Rightarrow> string \<Rightarrow> toolchain_strategy \<Rightarrow> toolchain_plan option" where
  "capability_resolve reg capability strategy =
     (case map_of reg capability of
        None \<Rightarrow> None
      | Some config \<Rightarrow>
          (let accepted = filter (\<lambda>t. strategy_accepts strategy (manager_to_type (tc_manager t))) (cc_toolchains config);
               filtered = (if accepted = [] then cc_toolchains config else accepted)
           in into_toolchain_plan capability (config\<lparr>cc_toolchains := sort_key tc_priority filtered\<rparr>)))"

definition capability_contains :: "capability_registry \<Rightarrow> string \<Rightarrow> bool" where
  "capability_contains reg capability \<longleftrightarrow> map_of reg capability \<noteq> None"

definition list_capabilities :: "capability_registry \<Rightarrow> string list" where
  "list_capabilities reg = map fst reg"

definition capability_get_config :: "capability_registry \<Rightarrow> string \<Rightarrow> capability_config option" where
  "capability_get_config reg capability = map_of reg capability"

section \<open>Which plan is made\<close>

text \<open>An adapter that has a plan for whatever it claims to support fully.\<close>

locale reliable_adapter =
  fixes A :: "'w tool_adapter"
  assumes full_plan:
    "ta_supports A req = FullSupport \<Longrightarrow>
       \<exists>p. ta_plan A req w = (Ok p, w) \<and> tp_capability p = tq_capability req \<and> tp_adapter_used p = ta_id A"
begin

lemma chosen:
  assumes "strategy_accepts (tq_strategy req) (ta_manager_type A)" "ta_supports A req = FullSupport"
    and "list_all (\<lambda>a. \<not> (strategy_accepts (tq_strategy req) (ta_manager_type a) \<and> ta_supports a req = FullSupport)) before"
  shows "\<exists>p. resolver_resolve (before @ A # others) req w = (Ok p, w) \<and> tp_capability p = tq_capability req \<and>
    tp_adapter_used p = ta_id A"
proof -
  have "try_adapters FullSupport req (before @ A # others) = Some (ta_plan A req)"
    using assms(3) by (induction before) (auto simp: assms(1,2))
  then show ?thesis using full_plan [OF assms(2)] by (simp add: resolver_resolve_def)
qed

end

lemmas apt_defs = apt_adapter_def apt_supports_def apt_plan_def apt_tools_def
lemmas sdkman_defs = sdkman_adapter_def sdkman_supports_def sdkman_plan_def
lemmas asdf_defs = asdf_adapter_def asdf_supports_def asdf_plan_def

interpretation apt: reliable_adapter apt_adapter
  by unfold_locales (auto simp: apt_defs Let_def split: if_splits)

interpretation sdkman: reliable_adapter sdkman_adapter
  by unfold_locales (auto simp: sdkman_defs Let_def split: if_splits)

text \<open>The adapter for asdf does not belong here: it claims four capabilities for which it has no plan.\<close>

lemma asdf_unreliable:
  "asdf_supports req = FullSupport \<and> \<not> is_ok (asdf_plan req) \<longleftrightarrow>
     tq_capability req \<in> {''python-build'', ''ruby-build'', ''go-build'', ''rust-build''}"
  by (auto simp: asdf_supports_def asdf_plan_def Let_def)

definition gateway_adapters :: "'w tool_resolver" where
  "gateway_adapters =
     resolver_register sdkman_adapter (resolver_register asdf_adapter (resolver_register apt_adapter []))"

text \<open>The answer of the resolver, as the name of the adapter whose plan it is.\<close>

definition plan_by :: "(domain_error, toolchain_plan) result \<times> 'w \<Rightarrow> (domain_error, string) result" where
  "plan_by r = (case fst r of Inl e \<Rightarrow> Err e | Inr p \<Rightarrow> Ok (tp_adapter_used p))"

definition cannot_install :: "string \<Rightarrow> string \<Rightarrow> (domain_error, string) result" where
  "cannot_install a c = Err (UnsupportedOperation (a @ '' doesn'' @ [CHR 0x27] @ ''t know how to install '' @ c))"

definition no_manager :: "toolchain_request \<Rightarrow> (domain_error, string) result" where
  "no_manager req = Err (NotFound (''No tool manager available for capability '' @ quote (tq_capability req)
     @ '' with strategy '' @ strategy_debug (tq_strategy req)))"

lemma gateway_adapters_eq: "gateway_adapters = [apt_adapter, asdf_adapter, sdkman_adapter]"
  by (simp add: gateway_adapters_def resolver_register_def)

lemma asdf_plan_by:
  "plan_by (asdf_plan req, w) =
     (if tq_capability req = ''jvm-build'' \<or> tq_capability req = ''node-build'' then Ok ''asdf''
      else cannot_install ''asdf'' (tq_capability req))"
  by (simp add: plan_by_def asdf_plan_def cannot_install_def Let_def)

lemma apt_plan_by:
  "plan_by (apt_plan req, w) =
     (if tq_capability req = ''jvm-build'' \<or> tq_capability req = ''node-build'' \<or> tq_capability req = ''python-build''
      then Ok ''apt'' else cannot_install ''apt'' (tq_capability req))"
  by (simp add: plan_by_def apt_plan_def apt_tools_def cannot_install_def Let_def)

lemma sdkman_plan_by: "plan_by (sdkman_plan req, w) = Ok ''sdkman''"
  by (simp add: plan_by_def sdkman_plan_def Let_def)

lemmas plans_by = asdf_plan_by apt_plan_by sdkman_plan_by

lemma gateway_adapters_fields:
  "ta_manager_type apt_adapter = Apt" "ta_manager_type asdf_adapter = Asdf" "ta_manager_type sdkman_adapter = Sdkman"
  "ta_supports apt_adapter = apt_supports" "ta_supports asdf_adapter = asdf_supports"
  "ta_supports sdkman_adapter = sdkman_supports"
  "ta_plan apt_adapter req w = (apt_plan req, w)" "ta_plan asdf_adapter req w = (asdf_plan req, w)"
  "ta_plan sdkman_adapter req w = (sdkman_plan req, w)"
  by (simp_all add: apt_adapter_def asdf_adapter_def sdkman_adapter_def)

lemma asdf_supports_iff:
  "asdf_supports req =
     (if tq_capability req = ''jvm-build'' \<or> tq_capability req = ''node-build'' \<or> tq_capability req = ''python-build'' \<or>
         tq_capability req = ''ruby-build'' \<or> tq_capability req = ''go-build'' \<or> tq_capability req = ''rust-build''
      then FullSupport else NoSupport)"
  by (simp add: asdf_supports_def)

text \<open>
  C0: which toolchain the gateway installs. The resolver takes the first accepted adapter with full support, or else
  the first with partial support. With the adapters in the order of the gateway this makes the table below: for
  Python, Ruby, Go and Rust several strategies lead to an adapter that claims the capability and then fails,
  even where a later adapter has a plan, and the content-addressed strategy never finds an adapter.
\<close>

theorem gateway_toolchains:
  "case tq_capability req of c \<Rightarrow>
     plan_by (resolver_resolve gateway_adapters req w) =
       (case tq_strategy req of
          AutoStrategy \<Rightarrow>
            if c = ''jvm-build'' \<or> c = ''node-build'' \<or> c = ''python-build'' then Ok ''apt''
            else if c = ''ruby-build'' \<or> c = ''go-build'' \<or> c = ''rust-build'' then cannot_install ''asdf'' c
            else if c = ''java-build'' then Ok ''sdkman'' else no_manager req
        | SystemPackage \<Rightarrow>
            if c = ''jvm-build'' \<or> c = ''node-build'' \<or> c = ''python-build'' then Ok ''apt''
            else if c = ''go-build'' \<or> c = ''rust-build'' then cannot_install ''apt'' c else no_manager req
        | VersionManager \<Rightarrow>
            if c = ''jvm-build'' \<or> c = ''node-build'' then Ok ''asdf''
            else if c = ''python-build'' \<or> c = ''ruby-build'' \<or> c = ''go-build'' \<or> c = ''rust-build''
            then cannot_install ''asdf'' c
            else if c = ''java-build'' then Ok ''sdkman'' else no_manager req
        | ContentAddressed \<Rightarrow> no_manager req) \<and>
     snd (resolver_resolve gateway_adapters req w) = w"
proof -
  have n: "plan_by (Err (NotFound t), w) = Err (NotFound t)" for t by (simp add: plan_by_def)
  show ?thesis
    by (cases "tq_strategy req")
      (simp_all add: resolver_resolve_def gateway_adapters_eq gateway_adapters_fields apt_supports_def
        asdf_supports_iff sdkman_supports_def plans_by n no_manager_def Let_def)
qed

section \<open>Capabilities from files\<close>

interpretation capabilities: catalog_registry cc_name "\<lambda>c. AList.update (cc_name c) c" capability_get_config capability_load_loop
  by unfold_locales (simp_all add: capability_get_config_def update_conv' split: sum.split)

lemma hd_insort_key:
  "hd (insort_key f x ys) = (if ys = [] \<or> f x \<le> f (hd ys) then x else hd ys)"
  by (cases ys) auto

text \<open>The first element of the sorted list is the first of the smallest keys.\<close>

lemma hd_sort_key:
  fixes f :: "'a \<Rightarrow> 'b :: linorder"
  assumes "xs \<noteq> []"
  shows "Some (hd (sort_key f xs)) = find (\<lambda>x. list_all (\<lambda>y. f x \<le> f y) xs) xs"
  using assms
proof (induction xs)
  case (Cons x xs)
  let ?m = "hd (sort_key f xs)"
  show ?case
  proof (cases "xs = []")
    case False
    then have ih: "Some ?m = find (\<lambda>x. list_all (\<lambda>y. f x \<le> f y) xs) xs" by (rule Cons.IH)
    from ih [symmetric] have m: "list_all (\<lambda>y. f ?m \<le> f y) xs" "?m \<in> set xs"
      by (auto simp: find_Some_iff)
    have le: "f x \<le> f ?m \<longleftrightarrow> list_all (\<lambda>y. f x \<le> f y) xs"
      using m by (auto simp: list_all_iff intro: order_trans)
    have hd: "hd (sort_key f (x # xs)) = (if f x \<le> f ?m then x else ?m)"
    proof -
      have "sort_key f xs \<noteq> []" using False by (metis length_0_conv length_sort)
      then show ?thesis using hd_insort_key [of f x "sort_key f xs"] by simp
    qed
    show ?thesis
    proof (cases "f x \<le> f ?m")
      case True
      then show ?thesis using le unfolding hd by simp
    next
      case False
      have "find (\<lambda>z. list_all (\<lambda>y. f z \<le> f y) (x # xs)) xs = find (\<lambda>z. list_all (\<lambda>y. f z \<le> f y) xs) xs"
        using False m by (intro find_cong) (auto simp: list_all_iff)
      then show ?thesis using False le ih unfolding hd by simp
    qed
  qed simp
qed simp

definition accepted_toolchains :: "toolchain_strategy \<Rightarrow> capability_config \<Rightarrow> toolchain_def list" where
  "accepted_toolchains strategy config =
     (case filter (\<lambda>t. strategy_accepts strategy (manager_to_type (tc_manager t))) (cc_toolchains config) of
        [] \<Rightarrow> cc_toolchains config | ts \<Rightarrow> ts)"

definition best_toolchain :: "toolchain_def list \<Rightarrow> toolchain_def option" where
  "best_toolchain ts = find (\<lambda>t. list_all (\<lambda>u. tc_priority t \<le> tc_priority u) ts) ts"

definition toolchain_as_plan :: "string \<Rightarrow> toolchain_def \<Rightarrow> toolchain_plan" where
  "toolchain_as_plan capability t =
     \<lparr>tp_capability = capability, tp_adapter_used = tc_manager t, tp_steps = config_steps t,
      tp_verification = or_empty (tc_verification t), tp_env = or_empty (tc_env t),
      tp_path_prefix = or_empty (tc_path_prefix t)\<rparr>"

lemma into_plan_sorted:
  "into_toolchain_plan capability (config\<lparr>cc_toolchains := sort_key tc_priority ts\<rparr>) =
     map_option (toolchain_as_plan capability) (best_toolchain ts)"
proof (cases "ts = []")
  case False
  then obtain t rest where s: "sort_key tc_priority ts = t # rest"
    by (metis length_0_conv length_sort neq_Nil_conv)
  then have "best_toolchain ts = Some t" using hd_sort_key [OF False, of tc_priority] by (simp add: best_toolchain_def)
  then show ?thesis using s by (simp add: into_toolchain_plan_def toolchain_as_plan_def)
qed (simp add: into_toolchain_plan_def best_toolchain_def)

lemma capability_resolve_eq:
  "capability_resolve reg capability strategy =
     Option.bind (map_of reg capability)
       (\<lambda>c. map_option (toolchain_as_plan capability) (best_toolchain (accepted_toolchains strategy c)))"
  by (auto simp: capability_resolve_def accepted_toolchains_def into_plan_sorted Let_def split: option.split list.split)

lemma merge_env_map_of:
  "map_of (merge_env env m) k = (case map_of m k of Some v \<Rightarrow> Some v | None \<Rightarrow> map_of env k)"
proof (induction env arbitrary: m)
  case (Cons kv env)
  then show ?case
    by (cases kv) (auto simp: merge_env_def update_conv' split: option.splits)
qed (simp add: merge_env_def split: option.split)

text \<open>
  C0: capabilities from files. After loading a directory into an empty registry, a capability has a plan exactly when
  some readable file of the listing defines it and the last of these has a toolchain. The plan is that of the
  toolchain with the smallest priority, the first of them in the file, among those the strategy accepts, or among
  all when it accepts none. A variable of a step has the value of the step, or else that of the toolchain.
\<close>

theorem capability_plans:
  "case fs_read_dir fs dir of
     Inl e \<Rightarrow> True
   | Inr entries \<Rightarrow>
       capability_resolve (snd (capability_load_from_dir fs toml dir [])) capability strategy =
         (if fs_exists fs dir then
            (case last_with cc_name capability (readable (capability_load_file fs toml) entries) of
               None \<Rightarrow> None
             | Some c \<Rightarrow> map_option (toolchain_as_plan capability) (best_toolchain (accepted_toolchains strategy c)))
          else None) \<and>
       map_of (ts_env (explicit_step env step)) k =
         (case map_of (or_empty (sd_env step)) k of Some v \<Rightarrow> Some v | None \<Rightarrow> map_of env k)"
proof (cases "fs_read_dir fs dir")
  case (Inr entries)
  let ?load = "capability_load_file fs toml"
  have "map_of (snd (capability_load_loop ?load entries 0 [])) capability =
      last_with cc_name capability (readable ?load entries)"
    using capabilities.loop_get [of ?load entries 0 "[]" capability]
    by (simp add: capability_get_config_def last_with_def split: option.splits)
  then show ?thesis
    by (simp add: Inr capability_load_from_dir_def capability_resolve_eq explicit_step_def merge_env_map_of
        split: option.split)
qed simp

section \<open>Linking from the store\<close>

text \<open>
  Planning already makes the link. On a file system where a link is never made over an existing file, a second plan
  for the same tool is refused, and so is the link that the plan asks for.
\<close>

lemma ca_create_hardlink_Ok:
  assumes "ca_create_hardlink H ca h n w = (Ok path, w')"
  shows "\<exists>w1. hf_hard_link H (path_join (ca_store_root ca) h) (path_join (ca_provision_root ca) n) w1 = (Ok (), w') \<and>
    path = path_join (ca_provision_root ca) n \<and> (w1 = w \<or> (\<exists>q. w1 = snd (hf_create_dir_all H q w)))"
proof (cases "path_parent (path_join (ca_provision_root ca) n)")
  case None
  then show ?thesis
    using assms by (auto simp: ca_create_hardlink_def and_then_def Let_def split: prod.splits sum.splits)
next
  case (Some q)
  then show ?thesis
    using assms
    by (cases "hf_create_dir_all H q w")
      (auto simp: ca_create_hardlink_def and_then_def Let_def split: prod.splits sum.splits intro!: exI [of _ q])
qed

lemma ca_plan_twice:
  assumes "\<And>s d w. hf_exists H d w \<Longrightarrow> \<not> is_ok (fst (hf_hard_link H s d w)) \<and> snd (hf_hard_link H s d w) = w"
    and "\<And>s d w. is_ok (fst (hf_hard_link H s d w)) \<Longrightarrow> hf_exists H d (snd (hf_hard_link H s d w))"
    and "\<And>p d w. hf_exists H p w \<Longrightarrow> hf_exists H p (snd (hf_create_dir_all H d w))"
    and "ca_create_hardlink H ca h n w = (Ok path, w')"
  shows "\<not> is_ok (fst (ca_create_hardlink H ca h n w')) \<and> path = path_join (ca_provision_root ca) n \<and>
    \<not> is_ok (fst (hf_hard_link H (path_join (ca_store_root ca) h) path w'))"
proof -
  let ?s = "path_join (ca_store_root ca) h" and ?d = "path_join (ca_provision_root ca) n"
  obtain w1 where l: "hf_hard_link H ?s ?d w1 = (Ok (), w')" and p: "path = ?d"
    using ca_create_hardlink_Ok [OF assms(4)] by (elim exE conjE)
  have e: "hf_exists H ?d w'" using assms(2) [of ?s ?d w1] by (simp add: l)
  have "\<not> is_ok (fst (ca_create_hardlink H ca h n w'))"
  proof
    assume "is_ok (fst (ca_create_hardlink H ca h n w'))"
    then obtain path2 w2 where "ca_create_hardlink H ca h n w' = (Ok path2, w2)"
      by (cases "ca_create_hardlink H ca h n w'") (auto simp: is_ok_iff)
    from ca_create_hardlink_Ok [OF this]
    obtain w3 where l3: "hf_hard_link H ?s ?d w3 = (Ok (), w2)"
      and w3: "w3 = w' \<or> (\<exists>q. w3 = snd (hf_create_dir_all H q w'))"
      by (elim exE conjE)
    have "hf_exists H ?d w3" using w3 e assms(3) by blast
    then show False using assms(1) [of ?d w3 ?s] by (simp add: l3)
  qed
  then show ?thesis using p assms(1) [OF e] by simp
qed

end
