(* ===== verification/Enrichment_Stats.thy ===== *)
theory Enrichment_Stats
  imports Complex_Main Bastion_Prelude "HOL-Library.AList" "HOL-Library.Word"
begin

text \<open>
  What the enrichment engine remembers of its runs: \<open>truncate.rs\<close>, \<open>metrics.rs\<close>, \<open>models/run_record.rs\<close>,
  \<open>models/utility_metrics.rs\<close> and \<open>optimizer.rs\<close> of \<open>enrichment-engine/src\<close>. Floating point numbers are rationals;
  the length of a vector is a natural number; sums of machine integers wrap around. A hash map is an association
  list in the order in which it happens to be iterated.
\<close>

section \<open>Truncated output\<close>

text \<open>
  Characters are Unicode scalar values \<open>'c\<close>, with the white space among them and the ellipsis U+2026. The loop
  adds the first character without a test, since its byte index is zero.
\<close>

fun truncate_loop :: "nat \<Rightarrow> bool \<Rightarrow> 'c list \<Rightarrow> 'c list \<Rightarrow> 'c list" where
  "truncate_loop limit at_start [] truncated = truncated"
| "truncate_loop limit at_start (c # cs) truncated =
     (if at_start then truncate_loop limit False cs (truncated @ [c])
      else if length truncated < limit then truncate_loop limit False cs (truncated @ [c])
      else truncated)"

definition truncate_string :: "('c \<Rightarrow> bool) \<Rightarrow> 'c \<Rightarrow> 'c list \<Rightarrow> nat \<Rightarrow> 'c list option" where
  "truncate_string white ellipsis s limit =
     (if limit = 0 then None
      else if list_all white s then None
      else if length s \<le> limit then Some s
      else Some (truncate_loop limit True s [] @ [ellipsis]))"

definition truncate_string_at :: "('c \<Rightarrow> bool) \<Rightarrow> 'c \<Rightarrow> 'c list \<Rightarrow> nat \<Rightarrow> 'c list option" where
  "truncate_string_at white ellipsis s limit =
     (if limit = 0 then None
      else if list_all white s then None
      else if length s \<le> limit then Some s
      else Some (take limit s @ [ellipsis]))"

lemma truncate_loop_take:
  "length acc \<le> limit \<Longrightarrow> truncate_loop limit False cs acc = acc @ take (limit - length acc) cs"
proof (induction cs arbitrary: acc)
  case (Cons c cs)
  show ?case
  proof (cases "length acc < limit")
    case True
    then have "limit - length acc = Suc (limit - length (acc @ [c]))" by simp
    then show ?thesis using True Cons.IH [of "acc @ [c]"] by simp
  qed (use Cons.prems in simp)
qed simp

lemma truncate_loop_start: "0 < limit \<Longrightarrow> truncate_loop limit True s [] = take limit s"
  by (cases s; cases limit) (simp_all add: truncate_loop_take)

text \<open>
  truncation of stored output. Both truncation functions are the same function. A result exists exactly for a
  positive limit and text that is not all white space; it is the whole text when this has at most as many
  characters as the limit says, and otherwise as many characters from its beginning and an ellipsis, never more.
\<close>

theorem truncation:
  "truncate_string white ellipsis s limit = truncate_string_at white ellipsis s limit \<and>
   (case truncate_string white ellipsis s limit of
      None \<Rightarrow> limit = 0 \<or> (\<forall>c \<in> set s. white c)
    | Some t \<Rightarrow> 0 < limit \<and> (\<exists>c \<in> set s. \<not> white c) \<and>
        (if length s \<le> limit then t = s else t = take limit s @ [ellipsis] \<and> length t = limit + 1))"
  by (auto simp: truncate_string_def truncate_string_at_def truncate_loop_start list_all_iff)

section \<open>Run records\<close>

record run_record =
  rr_id :: string
  rr_timestamp :: string
  rr_command :: string
  rr_enricher_id :: string
  rr_exit_code :: "32 word"
  rr_duration_ms :: "64 word"
  rr_stdout :: "string option"
  rr_stderr :: "string option"
  rr_facts_count :: "32 word"
  rr_derived_facts_count :: "32 word"
  rr_rule_hits_count :: "32 word"
  rr_diagnostics_count :: "32 word"
  rr_artifact_count :: "32 word"
  rr_confidence_avg :: rat
  rr_verdict :: "string option"
  rr_recommendation_count :: "32 word"
  rr_error :: "string option"

record utility_metrics =
  um_facts_count :: "32 word"
  um_derived_facts_count :: "32 word"
  um_rule_hits_count :: "32 word"
  um_diagnostics_count :: "32 word"
  um_artifact_count :: "32 word"
  um_aggregate_confidence :: rat
  um_verdict_present :: bool
  um_recommendation_count :: "32 word"
  um_elapsed_ms :: "64 word"
  um_errored :: bool

definition from_run :: "run_record \<Rightarrow> utility_metrics" where
  "from_run r =
     \<lparr>um_facts_count = rr_facts_count r, um_derived_facts_count = rr_derived_facts_count r,
      um_rule_hits_count = rr_rule_hits_count r, um_diagnostics_count = rr_diagnostics_count r,
      um_artifact_count = rr_artifact_count r, um_aggregate_confidence = rr_confidence_avg r,
      um_verdict_present = (rr_verdict r \<noteq> None), um_recommendation_count = rr_recommendation_count r,
      um_elapsed_ms = rr_duration_ms r, um_errored = (rr_error r \<noteq> None)\<rparr>"

section \<open>Metrics\<close>

definition ring_capacity :: nat where
  "ring_capacity = 10000"

text \<open>The clock is an argument of the operations; times count nanoseconds.\<close>

record enrichment_metrics =
  em_total_success :: "64 word"
  em_total_failure :: "64 word"
  em_saturation_drops :: "64 word"
  em_facts_total :: "64 word"
  em_latencies :: "64 word list"
  em_run_timestamps :: "int list"

definition metrics_new :: enrichment_metrics where
  "metrics_new =
     \<lparr>em_total_success = 0, em_total_failure = 0, em_saturation_drops = 0, em_facts_total = 0,
      em_latencies = [], em_run_timestamps = []\<rparr>"

definition prune_old :: "int \<Rightarrow> int list \<Rightarrow> int list" where
  "prune_old now ts = dropWhile (\<lambda>t. t < now - 300 * 1000000000) ts"

definition cap_ring :: "int list \<Rightarrow> int list" where
  "cap_ring ts = drop (length ts - ring_capacity) ts"

definition record_success :: "int \<Rightarrow> int \<Rightarrow> enrichment_metrics \<Rightarrow> enrichment_metrics" where
  "record_success now now' m =
     m\<lparr>em_total_success := em_total_success m + 1,
       em_run_timestamps := cap_ring (prune_old now' (em_run_timestamps m @ [now]))\<rparr>"

definition record_failure :: "int \<Rightarrow> int \<Rightarrow> enrichment_metrics \<Rightarrow> enrichment_metrics" where
  "record_failure now now' m =
     m\<lparr>em_total_failure := em_total_failure m + 1,
       em_run_timestamps := cap_ring (prune_old now' (em_run_timestamps m @ [now]))\<rparr>"

definition recent_runs_5min :: "int \<Rightarrow> enrichment_metrics \<Rightarrow> nat \<times> enrichment_metrics" where
  "recent_runs_5min now m =
     (let ts = prune_old now (em_run_timestamps m) in (length ts, m\<lparr>em_run_timestamps := ts\<rparr>))"

definition record_saturation_drop :: "enrichment_metrics \<Rightarrow> enrichment_metrics" where
  "record_saturation_drop m = m\<lparr>em_saturation_drops := em_saturation_drops m + 1\<rparr>"

definition record_facts :: "32 word \<Rightarrow> enrichment_metrics \<Rightarrow> enrichment_metrics" where
  "record_facts n m = m\<lparr>em_facts_total := em_facts_total m + ucast n\<rparr>"

definition record_latency :: "64 word \<Rightarrow> enrichment_metrics \<Rightarrow> enrichment_metrics" where
  "record_latency ms m = m\<lparr>em_latencies := em_latencies m @ [ms]\<rparr>"

text \<open>The cast of a non-negative floating point number to \<open>u64\<close> truncates.\<close>

definition percentile_rank :: "nat \<Rightarrow> nat \<Rightarrow> rat" where
  "percentile_rank p len = of_nat p / 100 * (of_nat len - 1)"

definition percentile :: "64 word list \<Rightarrow> nat \<Rightarrow> 64 word option" where
  "percentile xs p =
     (if xs = [] then None
      else if length xs = 1 then Some (xs ! 0)
      else let rank = percentile_rank p (length xs);
               lower = nat \<lfloor>rank\<rfloor>; upper = nat \<lceil>rank\<rceil>
           in if lower = upper then Some (xs ! lower)
              else let weight = rank - of_nat lower
                   in Some (of_int \<lfloor>of_nat (unat (xs ! lower)) * (1 - weight) +
                                    of_nat (unat (xs ! upper)) * weight\<rfloor>))"

record metrics_snapshot =
  ms_total_success :: "64 word"
  ms_total_failure :: "64 word"
  ms_saturation_drops :: "64 word"
  ms_facts_total :: "64 word"
  ms_p50 :: "64 word option"
  ms_p99 :: "64 word option"

definition metrics_take_snapshot :: "enrichment_metrics \<Rightarrow> metrics_snapshot" where
  "metrics_take_snapshot m =
     \<lparr>ms_total_success = em_total_success m, ms_total_failure = em_total_failure m,
      ms_saturation_drops = em_saturation_drops m, ms_facts_total = em_facts_total m,
      ms_p50 = percentile (em_latencies m) 50, ms_p99 = percentile (em_latencies m) 99\<rparr>"

definition snapshot_zero :: metrics_snapshot where
  "snapshot_zero =
     \<lparr>ms_total_success = 0, ms_total_failure = 0, ms_saturation_drops = 0, ms_facts_total = 0,
      ms_p50 = None, ms_p99 = None\<rparr>"

lemma snapshot_new: "metrics_take_snapshot metrics_new = snapshot_zero"
  by (simp add: metrics_take_snapshot_def metrics_new_def snapshot_zero_def percentile_def)

subsection \<open>The window of recent runs\<close>

datatype metrics_call =
    MSuccess int int
  | MFailure int int
  | MDrop
  | MFacts "32 word"
  | MLatency "64 word"

fun metrics_step :: "metrics_call \<Rightarrow> enrichment_metrics \<Rightarrow> enrichment_metrics" where
  "metrics_step (MSuccess now now') m = record_success now now' m"
| "metrics_step (MFailure now now') m = record_failure now now' m"
| "metrics_step MDrop m = record_saturation_drop m"
| "metrics_step (MFacts n) m = record_facts n m"
| "metrics_step (MLatency ms) m = record_latency ms m"

text \<open>The readings of the clock during a call, and the one that is kept.\<close>

fun call_times :: "metrics_call \<Rightarrow> int list" where
  "call_times (MSuccess now now') = [now, now']"
| "call_times (MFailure now now') = [now, now']"
| "call_times _ = []"

fun run_time :: "metrics_call \<Rightarrow> int list" where
  "run_time (MSuccess now now') = [now]"
| "run_time (MFailure now now') = [now]"
| "run_time _ = []"

definition run_times :: "metrics_call list \<Rightarrow> int list" where
  "run_times calls = concat (map run_time calls)"

lemmas metrics_defs = record_success_def record_failure_def record_saturation_drop_def record_facts_def
  record_latency_def

lemma cap_ring_append: "ring_capacity \<le> length v \<Longrightarrow> cap_ring (u @ v) = cap_ring v"
  by (simp add: cap_ring_def)

lemma length_cap_ring: "length (cap_ring ts) = min ring_capacity (length ts)"
  by (simp add: cap_ring_def)

lemma sorted_dropWhile: "sorted ts \<Longrightarrow> dropWhile (\<lambda>t. t < c) ts = filter (\<lambda>t. c \<le> t) (ts :: int list)"
  by (induction ts) (auto intro!: filter_True [symmetric])

text \<open>Cutting a list to its end makes no difference before the next cut.\<close>

lemma cap_ring_cap: "cap_ring (cap_ring u @ v) = cap_ring (u @ v)"
  by (cases "length u \<le> ring_capacity") (auto simp: cap_ring_def add.commute)

lemma cap_ring_cong: "cap_ring u = cap_ring u' \<Longrightarrow> cap_ring (u @ v) = cap_ring (u' @ v)"
  by (metis cap_ring_cap)

lemma cap_ring_filter:
  assumes "sorted xs"
  shows "cap_ring (filter (\<lambda>t. c \<le> t) (cap_ring xs)) = cap_ring (filter (\<lambda>t. c \<le> t) xs)"
proof (cases "length xs \<le> ring_capacity")
  case False
  let ?k = "length xs - ring_capacity" and ?Q = "\<lambda>t. c \<le> (t :: int)"
  have split: "filter ?Q xs = filter ?Q (take ?k xs) @ filter ?Q (cap_ring xs)"
    unfolding cap_ring_def by (metis append_take_drop_id filter_append)
  show ?thesis
  proof (cases "filter ?Q (take ?k xs) = []")
    case nonempty: False
    then obtain t where t: "t \<in> set (take ?k xs)" "c \<le> t" by (auto simp: filter_empty_conv)
    have "sorted (take ?k xs @ cap_ring xs)" using assms by (simp add: cap_ring_def)
    then have "\<forall>u \<in> set (cap_ring xs). c \<le> u" using t by (fastforce simp: sorted_append)
    then have "ring_capacity \<le> length (filter ?Q (cap_ring xs))"
      using False by (simp add: length_cap_ring)
    then show ?thesis unfolding split by (simp only: cap_ring_append)
  qed (simp add: split)
qed (simp add: cap_ring_def)

lemma sorted_cap_ring: "sorted xs \<Longrightarrow> sorted (cap_ring xs)"
  by (simp add: cap_ring_def)

text \<open>What a call that completes a run does to the list of times.\<close>

definition push_run :: "int \<Rightarrow> int \<Rightarrow> int list \<Rightarrow> int list" where
  "push_run t t' ts = cap_ring (prune_old t' (ts @ [t]))"

lemma push_run_window:
  assumes "sorted (ts @ [t])" "t \<le> t'" "t' \<le> now"
    and "cap_ring (filter (\<lambda>t. now - 300000000000 \<le> t) ts) = cap_ring (filter (\<lambda>t. now - 300000000000 \<le> t) rt)"
  shows "cap_ring (filter (\<lambda>t. now - 300000000000 \<le> t) (push_run t t' ts)) =
      cap_ring (filter (\<lambda>t. now - 300000000000 \<le> t) (rt @ [t]))"
    and "sorted (push_run t t' ts @ [now])"
proof -
  let ?Q = "\<lambda>t. now - 300000000000 \<le> t" and ?R = "\<lambda>u. t' - 300000000000 \<le> u"
  have p: "prune_old t' (ts @ [t]) = filter ?R (ts @ [t])"
    using sorted_dropWhile [OF assms(1)] by (simp add: prune_old_def)
  have "filter ?Q (filter ?R (ts @ [t])) = filter ?Q ts @ filter ?Q [t]"
    using assms(3) by (auto simp: filter_filter intro: filter_cong)
  then show "cap_ring (filter ?Q (push_run t t' ts)) = cap_ring (filter ?Q (rt @ [t]))"
    using cap_ring_filter [OF sorted_wrt_filter [OF assms(1)]] cap_ring_cong [OF assms(4)]
    by (simp add: push_run_def p)
  have "\<forall>u \<in> set (ts @ [t]). u \<le> now" using assms(1-3) by (force simp: sorted_append)
  then have "\<forall>u \<in> set (push_run t t' ts). u \<le> now"
    unfolding push_run_def p cap_ring_def by (auto dest: in_set_dropD)
  then show "sorted (push_run t t' ts @ [now])"
    using assms(1) by (simp add: sorted_append push_run_def p sorted_cap_ring sorted_wrt_filter)
qed

lemma metrics_timestamps:
  assumes "sorted (concat (map call_times calls) @ [now])"
  shows "cap_ring (filter (\<lambda>t. now - 300000000000 \<le> t) (em_run_timestamps (fold metrics_step calls metrics_new))) =
      cap_ring (filter (\<lambda>t. now - 300000000000 \<le> t) (run_times calls)) \<and>
    sorted (em_run_timestamps (fold metrics_step calls metrics_new) @ [now])"
  using assms
proof (induction calls arbitrary: now rule: rev_induct)
  case Nil
  then show ?case by (simp add: metrics_new_def run_times_def)
next
  case (snoc c calls)
  let ?m = "fold metrics_step calls metrics_new"
  have run: "?case" if "\<And>m. em_run_timestamps (metrics_step c m) = push_run t t' (em_run_timestamps m)"
    "run_time c = [t]" "call_times c = [t, t']" for t t'
  proof -
    have s: "sorted (concat (map call_times calls) @ [t])" "sorted (concat (map call_times calls) @ [now])"
      "t \<le> t'" "t' \<le> now"
      using snoc.prems that(3) by (auto simp: sorted_append)
    from push_run_window [OF conjunct2 [OF snoc.IH [OF s(1)]] s(3,4) conjunct1 [OF snoc.IH [OF s(2)]]]
    show ?thesis by (simp add: that run_times_def)
  qed
  show ?case
    using run snoc.IH [of now] snoc.prems by (cases c) (auto simp: metrics_defs push_run_def run_times_def)
qed

lemma metrics_step_bounded:
  "length (em_run_timestamps m) \<le> ring_capacity \<Longrightarrow> length (em_run_timestamps (metrics_step c m)) \<le> ring_capacity"
  by (cases c) (simp_all add: metrics_defs length_cap_ring)



subsection \<open>Percentiles\<close>

text \<open>The value lies between the entries at the two neighbouring ranks; on a sorted list, between first and last.\<close>

lemma percentile_ranks:
  assumes "2 \<le> length xs" "p \<le> 100"
  defines "r \<equiv> percentile_rank p (length xs)"
  shows "nat \<lfloor>r\<rfloor> \<le> nat \<lceil>r\<rceil>" "nat \<lceil>r\<rceil> < length xs" "0 \<le> r" "of_nat (nat \<lfloor>r\<rfloor>) \<le> r" "r < of_nat (nat \<lfloor>r\<rfloor>) + 1"
proof -
  have n: "(1 :: rat) \<le> of_nat (length xs) - 1" using assms(1) by linarith
  then show r0: "0 \<le> r" unfolding r_def percentile_rank_def by simp
  show "nat \<lfloor>r\<rfloor> \<le> nat \<lceil>r\<rceil>" by (simp add: floor_le_ceiling nat_mono)
  have "of_nat p / 100 \<le> (1 :: rat)" using assms(2) by simp
  then have "r \<le> of_nat (length xs) - 1" unfolding r_def percentile_rank_def
    using n mult_right_mono [of "of_nat p / 100" 1 "of_nat (length xs) - 1 :: rat"] by simp
  then have "r \<le> of_int (int (length xs) - 1)" by simp
  then have "\<lceil>r\<rceil> \<le> int (length xs) - 1" by (simp only: ceiling_le_iff)
  then show "nat \<lceil>r\<rceil> < length xs" using assms(1) by linarith
  have f: "of_nat (nat \<lfloor>r\<rfloor>) = (of_int \<lfloor>r\<rfloor> :: rat)" using r0 by simp
  show "of_nat (nat \<lfloor>r\<rfloor>) \<le> r" "r < of_nat (nat \<lfloor>r\<rfloor>) + 1" unfolding f by linarith+
qed

lemma interpolation_between:
  fixes a b :: nat and w :: rat
  assumes "a \<le> b" "0 \<le> w" "w \<le> 1"
  shows "int a \<le> \<lfloor>of_nat a * (1 - w) + of_nat b * w\<rfloor>" "\<lfloor>of_nat a * (1 - w) + of_nat b * w\<rfloor> \<le> int b"
proof -
  let ?v = "of_nat a * (1 - w) + of_nat b * w :: rat"
  have v: "?v = of_nat a + (of_nat b - of_nat a) * w" by (simp add: algebra_simps)
  have d: "0 \<le> (of_nat b - of_nat a :: rat)" using assms(1) by simp
  have "(of_nat a :: rat) \<le> ?v" unfolding v using d assms(2) by simp
  then show "int a \<le> \<lfloor>?v\<rfloor>" by (simp add: le_floor_iff)
  have "?v \<le> of_nat b" unfolding v using mult_left_le [OF assms(3) d] by simp
  then show "\<lfloor>?v\<rfloor> \<le> int b" by (metis floor_mono floor_of_nat)
qed

lemma word_of_int_between:
  fixes a b :: "64 word"
  assumes "uint a \<le> v" "v \<le> uint b"
  shows "a \<le> word_of_int v \<and> word_of_int v \<le> b"
proof -
  have "0 \<le> v" using assms(1) uint_ge_0 [of a] by linarith
  moreover have "v < 2 ^ 64" using assms(2) uint_bounded [of b] by simp
  ultimately have "uint (word_of_int v :: 64 word) = v" by (simp add: uint_word_of_int)
  then show ?thesis using assms by (simp add: word_le_def)
qed

lemma percentile_between:
  assumes "sorted xs" "xs \<noteq> []" "p \<le> 100"
  shows "\<exists>v. percentile xs p = Some v \<and> hd xs \<le> v \<and> v \<le> last xs"
proof (cases "length xs = 1")
  case True
  then obtain x where "xs = [x]" by (metis One_nat_def length_0_conv length_Suc_conv)
  then show ?thesis by (simp add: percentile_def)
next
  case False
  then have two: "2 \<le> length xs" using assms(2) by (cases xs; cases "tl xs") auto
  define r where "r = percentile_rank p (length xs)"
  note k = percentile_ranks [OF two assms(3), folded r_def]
  let ?l = "nat \<lfloor>r\<rfloor>" and ?u = "nat \<lceil>r\<rceil>" and ?w = "r - of_nat (nat \<lfloor>r\<rfloor>)"
  have ends: "hd xs \<le> xs ! ?l" "xs ! ?u \<le> last xs" "xs ! ?l \<le> xs ! ?u"
    using assms(1,2) k(1,2) two by (auto simp: hd_conv_nth last_conv_nth intro!: sorted_nth_mono)
  show ?thesis
  proof (cases "?l = ?u")
    case True
    then show ?thesis using False assms(2) ends
      by (simp add: percentile_def Let_def flip: r_def)
  next
    case ne: False
    let ?v = "\<lfloor>of_nat (unat (xs ! ?l)) * (1 - ?w) + of_nat (unat (xs ! ?u)) * ?w\<rfloor>"
    have b: "int (unat (xs ! ?l)) \<le> ?v" "?v \<le> int (unat (xs ! ?u))"
      using interpolation_between [of "unat (xs ! ?l)" "unat (xs ! ?u)" ?w] ends(3) k(4,5)
      by (simp_all add: word_le_nat_alt)
    have "xs ! ?l \<le> word_of_int ?v \<and> word_of_int ?v \<le> xs ! ?u"
      using b by (intro word_of_int_between) (simp_all only: uint_nat)
    moreover have "percentile xs p = Some (word_of_int ?v)"
      using False assms(2) ne by (simp add: percentile_def Let_def flip: r_def)
    ultimately show ?thesis using ends(1,2) by (meson order_trans)
  qed
qed

text \<open>The snapshot hands the samples over as they were recorded, not sorted: the median of 9, 1 and 5 is 1.\<close>

lemma snapshot_median_unsorted:
  "ms_p50 (metrics_take_snapshot (fold metrics_step [MLatency 9, MLatency 1, MLatency 5] metrics_new)) = Some 1"
  "percentile (sort [9, 1, 5 :: 64 word]) 50 = Some 5"
  by (simp_all add: metrics_take_snapshot_def percentile_def percentile_rank_def metrics_defs metrics_new_def word_le_def)

section \<open>The optimizer\<close>

text \<open>\<open>f64::round\<close> rounds half away from zero; every value here is non-negative.\<close>

definition round4 :: "rat \<Rightarrow> rat" where
  "round4 v = (if 0 \<le> v then of_int \<lfloor>v * 10000 + 1 / 2\<rfloor> else of_int \<lceil>v * 10000 - 1 / 2\<rceil>) / 10000"

record aggregate_stats =
  ag_enricher_id :: string
  ag_total_runs :: nat
  ag_avg_latency_ms :: rat
  ag_artifact_yield :: rat
  ag_diagnostic_hit_rate :: rat
  ag_false_positive_rate :: rat
  ag_never_fired_rules :: nat
  ag_error_rate :: rat

record enricher_score =
  es_enricher_id :: string
  es_total_runs :: nat
  es_artifact_yield :: rat
  es_diagnostic_hit_rate :: rat
  es_false_positive_rate :: rat
  es_avg_latency_ms :: rat
  es_never_fired_rules :: nat
  es_utility_score :: rat

datatype rec_action = Keep | Review | Deprioritize | Remove

fun rec_action_display :: "rec_action \<Rightarrow> string" where
  "rec_action_display Keep = ''Keep''"
| "rec_action_display Review = ''Review''"
| "rec_action_display Deprioritize = ''Deprioritize''"
| "rec_action_display Remove = ''Remove''"

record recommendation =
  rm_enricher_id :: string
  rm_action :: rec_action
  rm_reason :: string
  rm_confidence :: rat

record optimizer_report =
  op_generated_at :: string
  op_scores :: "enricher_score list"
  op_recommendations :: "recommendation list"
  op_total_runs_analyzed :: nat

definition compute_enricher_score :: "aggregate_stats \<Rightarrow> enricher_score" where
  "compute_enricher_score s =
     (let latency_score = 1 - min (ag_avg_latency_ms s / 5000) 1;
          accuracy_score = 1 - ag_false_positive_rate s;
          utility = (if ag_total_runs s = 0 then 0
                     else (ag_artifact_yield s + ag_diagnostic_hit_rate s + latency_score + accuracy_score) / 4)
      in \<lparr>es_enricher_id = ag_enricher_id s, es_total_runs = ag_total_runs s,
          es_artifact_yield = round4 (ag_artifact_yield s),
          es_diagnostic_hit_rate = round4 (ag_diagnostic_hit_rate s),
          es_false_positive_rate = round4 (ag_false_positive_rate s),
          es_avg_latency_ms = round4 (ag_avg_latency_ms s),
          es_never_fired_rules = ag_never_fired_rules s,
          es_utility_score = round4 (max 0 (min 1 utility))\<rparr>)"

definition compute_confidence :: "nat \<Rightarrow> rat" where
  "compute_confidence runs = (if 10 \<le> runs then 1 else round4 (of_nat runs / 10))"

text \<open>\<open>sh\<close> and \<open>sh2\<close> are the formats of a number, plain and with two decimals.\<close>

definition build_component_breakdown :: "(rat \<Rightarrow> string) \<Rightarrow> enricher_score \<Rightarrow> string" where
  "build_component_breakdown sh s =
     '' (artifact_yield='' @ sh (es_artifact_yield s) @ '', latency='' @
     nat_to_string (nat \<lfloor>es_avg_latency_ms s\<rfloor>) @ ''ms, error_rate='' @ sh (es_false_positive_rate s) @ '')''"

definition determine_action_and_reason ::
    "(rat \<Rightarrow> string) \<Rightarrow> (rat \<Rightarrow> string) \<Rightarrow> enricher_score \<Rightarrow> rat \<Rightarrow> rec_action \<times> string" where
  "determine_action_and_reason sh sh2 s confidence =
     (let utility = es_utility_score s; runs = es_total_runs s; breakdown = build_component_breakdown sh s in
      if confidence < 8 / 10 then
        (Review, if runs = 0 then ''No runs recorded for this enricher.'' @ breakdown
                 else ''Insufficient data ('' @ nat_to_string runs @ '' runs). Need 10 for full confidence.'' @ breakdown)
      else if utility < 2 / 10 then
        (Remove, ''Very low utility score ('' @ sh2 utility @ ''). Recommend removal.'' @ breakdown)
      else if utility < 4 / 10 then
        (Deprioritize, ''Low utility score ('' @ sh2 utility @ ''). Consider deprioritizing in catalog.'' @ breakdown)
      else if utility > 7 / 10 then
        (Keep, ''High utility score ('' @ sh2 utility @ ''). Keep in catalog.'' @ breakdown)
      else (Review, ''Moderate utility score ('' @ sh2 utility @ ''). Review configuration.'' @ breakdown))"

definition generate_recommendation ::
    "(rat \<Rightarrow> string) \<Rightarrow> (rat \<Rightarrow> string) \<Rightarrow> enricher_score \<Rightarrow> recommendation" where
  "generate_recommendation sh sh2 s =
     (let confidence = compute_confidence (es_total_runs s);
          (action, reason) = determine_action_and_reason sh sh2 s confidence
      in \<lparr>rm_enricher_id = es_enricher_id s, rm_action = action, rm_reason = reason, rm_confidence = confidence\<rparr>)"

definition fraction :: "('r \<Rightarrow> bool) \<Rightarrow> 'r list \<Rightarrow> rat" where
  "fraction p rs = of_nat (length (filter p rs)) / of_nat (length rs)"

definition compute_aggregate_stats :: "string \<Rightarrow> run_record list \<Rightarrow> aggregate_stats" where
  "compute_aggregate_stats i rs =
     (if rs = [] then
        \<lparr>ag_enricher_id = i, ag_total_runs = 0, ag_avg_latency_ms = 0, ag_artifact_yield = 0,
         ag_diagnostic_hit_rate = 0, ag_false_positive_rate = 0, ag_never_fired_rules = 0, ag_error_rate = 0\<rparr>
      else
        \<lparr>ag_enricher_id = i, ag_total_runs = length rs,
         ag_avg_latency_ms = round4 (of_nat (unat (sum_list (map rr_duration_ms rs))) / of_nat (length rs)),
         ag_artifact_yield = round4 (fraction (\<lambda>r. rr_artifact_count r > 0) rs),
         ag_diagnostic_hit_rate = round4 (fraction (\<lambda>r. rr_diagnostics_count r > 0) rs),
         ag_false_positive_rate = round4 (fraction (\<lambda>r. rr_artifact_count r = 0) rs),
         ag_never_fired_rules = length (filter (\<lambda>r. rr_rule_hits_count r = 0) rs),
         ag_error_rate = round4 (fraction (\<lambda>r. rr_error r \<noteq> None) rs)\<rparr>)"

text \<open>\<open>entry(id).or_default().push(record)\<close>.\<close>

definition push_by :: "('r \<Rightarrow> 'k) \<Rightarrow> 'r \<Rightarrow> ('k \<times> 'r list) list \<Rightarrow> ('k \<times> 'r list) list" where
  "push_by key r m =
     AList.update (key r) ((case map_of m (key r) of Some rs \<Rightarrow> rs | None \<Rightarrow> []) @ [r]) m"

definition compute_all_stats :: "run_record list \<Rightarrow> aggregate_stats list" where
  "compute_all_stats records =
     map (\<lambda>(i, rs). compute_aggregate_stats i rs) (fold (push_by rr_enricher_id) records [])"

definition compute_scores :: "aggregate_stats list \<Rightarrow> enricher_score list" where
  "compute_scores = map compute_enricher_score"

definition generate_recommendations ::
    "(rat \<Rightarrow> string) \<Rightarrow> (rat \<Rightarrow> string) \<Rightarrow> enricher_score list \<Rightarrow> recommendation list" where
  "generate_recommendations sh sh2 = map (generate_recommendation sh sh2)"

definition generate_report ::
    "(rat \<Rightarrow> string) \<Rightarrow> (rat \<Rightarrow> string) \<Rightarrow> string \<Rightarrow> run_record list \<Rightarrow> optimizer_report" where
  "generate_report sh sh2 now records =
     (let scores = compute_scores (compute_all_stats records)
      in \<lparr>op_generated_at = now, op_scores = scores,
          op_recommendations = generate_recommendations sh sh2 scores,
          op_total_runs_analyzed = length records\<rparr>)"

subsection \<open>Grouping\<close>

lemma push_by_map_of:
  "map_of (fold (push_by key) rs m) k =
     (let xs = filter (\<lambda>r. key r = k) rs in
      case map_of m k of Some ys \<Rightarrow> Some (ys @ xs) | None \<Rightarrow> if xs = [] then None else Some xs)"
  by (induction rs arbitrary: m) (auto simp: push_by_def update_conv' Let_def split: option.splits)

lemma push_by_distinct: "distinct (map fst m) \<Longrightarrow> distinct (map fst (fold (push_by key) rs m))"
  by (induction rs arbitrary: m) (simp_all add: push_by_def distinct_update)

lemma grouped_iff:
  "(k, xs) \<in> set (fold (push_by key) rs []) \<longleftrightarrow> xs = filter (\<lambda>r. key r = k) rs \<and> xs \<noteq> []"
proof -
  have "(k, xs) \<in> set (fold (push_by key) rs []) \<longleftrightarrow> map_of (fold (push_by key) rs []) k = Some xs"
    by (simp add: push_by_distinct)
  then show ?thesis by (auto simp: push_by_map_of Let_def)
qed

subsection \<open>Scores\<close>

lemma round4_mono: "0 \<le> a \<Longrightarrow> a \<le> b \<Longrightarrow> round4 a \<le> round4 b"
  by (auto simp: round4_def intro!: divide_right_mono floor_mono)

lemma round4_exact: "round4 (of_nat k / 10000) = of_nat k / 10000"
proof -
  have "\<lfloor>of_nat k + 1 / 2 :: rat\<rfloor> = int k" by (rule floor_unique) auto
  then show ?thesis by (simp add: round4_def)
qed

lemma round4_0 [simp]: "round4 0 = 0"
  using round4_exact [of 0] by simp

lemma round4_1 [simp]: "round4 1 = 1"
  using round4_exact [of 10000] by simp

lemma round4_unit: "0 \<le> a \<Longrightarrow> a \<le> 1 \<Longrightarrow> 0 \<le> round4 a \<and> round4 a \<le> 1"
  using round4_mono [of 0 a] round4_mono [of a 1] by simp

lemma compute_confidence_eq: "compute_confidence n = min 1 (of_nat n / 10)"
proof (cases "10 \<le> n")
  case False
  have "of_nat n / 10 = (of_nat (1000 * n) / 10000 :: rat)" by simp
  then have "round4 (of_nat n / 10) = of_nat n / 10" by (metis round4_exact)
  then show ?thesis using False by (simp add: compute_confidence_def)
qed (simp add: compute_confidence_def)

lemma utility_unit: "0 \<le> es_utility_score (compute_enricher_score s) \<and> es_utility_score (compute_enricher_score s) \<le> 1"
  unfolding compute_enricher_score_def Let_def by (simp add: round4_unit)

lemma score_of_stats [simp]:
  "es_enricher_id (compute_enricher_score (compute_aggregate_stats i rs)) = i"
  "es_total_runs (compute_enricher_score (compute_aggregate_stats i rs)) = length rs"
  by (simp_all add: compute_enricher_score_def compute_aggregate_stats_def Let_def)

text \<open>What is called the rate of false positives is the rest of the artifact yield.\<close>

lemma false_positive_rest:
  "rs \<noteq> [] \<Longrightarrow> fraction (\<lambda>r. rr_artifact_count r = 0) rs = 1 - fraction (\<lambda>r. rr_artifact_count r > 0) rs"
proof -
  assume "rs \<noteq> []"
  moreover have "length (filter (\<lambda>r. rr_artifact_count r > 0) rs) + length (filter (\<lambda>r. rr_artifact_count r = 0) rs) = length rs"
    using sum_length_filter_compl [of "\<lambda>r. rr_artifact_count r > 0" rs] by (simp add: word_gt_0)
  then have "(of_nat (length (filter (\<lambda>r. rr_artifact_count r > 0) rs)) +
      of_nat (length (filter (\<lambda>r. rr_artifact_count r = 0) rs)) :: rat) = of_nat (length rs)"
    by (metis of_nat_add)
  ultimately show ?thesis by (simp add: fraction_def field_simps)
qed

lemma group_total: "sum_list (map (\<lambda>(k, xs). length xs) (fold (push_by key) rs m)) =
    sum_list (map (\<lambda>(k, xs). length xs) m) + length rs"
proof (induction rs arbitrary: m)
  case (Cons r rs)
  have "sum_list (map (\<lambda>(k, xs). length xs) (AList.update k ((case map_of m k of Some ys \<Rightarrow> ys | None \<Rightarrow> []) @ [r]) m)) =
      Suc (sum_list (map (\<lambda>(k, xs). length xs) m))" for k
    by (induction m) auto
  then show ?case using Cons.IH by (simp add: push_by_def)
qed simp

text \<open>
  C39: the report of the optimizer. It has one score for each enricher that occurs in the records, and the runs of
  the scores add up to the number of records; the score of an enricher is computed from the records with its
  identifier, in their order, and its utility lies between zero and one. There is one recommendation for each
  score, in the same order: with fewer than eight runs always a review, otherwise removal below a fifth, a lower
  priority below two fifths, and keeping above seven tenths of the possible utility.
\<close>

theorem optimizer_report_sound:
  "case generate_report sh sh2 now records of rep \<Rightarrow>
     op_total_runs_analyzed rep = length records \<and>
     distinct (map es_enricher_id (op_scores rep)) \<and>
     set (map es_enricher_id (op_scores rep)) = rr_enricher_id ` set records \<and>
     sum_list (map es_total_runs (op_scores rep)) = length records \<and>
     list_all (\<lambda>s. 0 \<le> es_utility_score s \<and> es_utility_score s \<le> 1 \<and>
       s = compute_enricher_score (compute_aggregate_stats (es_enricher_id s)
             (filter (\<lambda>r. rr_enricher_id r = es_enricher_id s) records))) (op_scores rep) \<and>
     map rm_enricher_id (op_recommendations rep) = map es_enricher_id (op_scores rep) \<and>
     map rm_confidence (op_recommendations rep) = map (\<lambda>s. min 1 (of_nat (es_total_runs s) / 10)) (op_scores rep) \<and>
     map rm_action (op_recommendations rep) =
       map (\<lambda>s. if es_total_runs s < 8 then Review
                else if es_utility_score s < 1 / 5 then Remove
                else if es_utility_score s < 2 / 5 then Deprioritize
                else if es_utility_score s > 7 / 10 then Keep else Review) (op_scores rep)"
proof -
  let ?g = "fold (push_by rr_enricher_id) records []"
  have g: "distinct (map fst ?g)" "sum_list (map (\<lambda>(k, xs). length xs) ?g) = length records"
    by (simp_all add: push_by_distinct group_total)
  have scores: "op_scores (generate_report sh sh2 now records) =
      map (\<lambda>(i, rs). compute_enricher_score (compute_aggregate_stats i rs)) ?g"
    by (simp add: generate_report_def compute_scores_def compute_all_stats_def Let_def case_prod_unfold)
  have ids: "map es_enricher_id (op_scores (generate_report sh sh2 now records)) = map fst ?g"
    by (simp add: scores case_prod_unfold)
  have "k \<in> fst ` set ?g \<longleftrightarrow> k \<in> rr_enricher_id ` set records" for k
    using grouped_iff [of k _ rr_enricher_id records] by (force simp: image_iff filter_empty_conv)
  then have "set (map fst ?g) = rr_enricher_id ` set records" by auto
  moreover have "sum_list (map es_total_runs (op_scores (generate_report sh sh2 now records))) = length records"
    using g(2) by (simp add: scores case_prod_unfold o_def)
  moreover have "list_all (\<lambda>s. 0 \<le> es_utility_score s \<and> es_utility_score s \<le> 1 \<and>
       s = compute_enricher_score (compute_aggregate_stats (es_enricher_id s)
             (filter (\<lambda>r. rr_enricher_id r = es_enricher_id s) records))) (op_scores (generate_report sh sh2 now records))"
    by (auto simp: scores list_all_iff utility_unit grouped_iff)
  moreover have action: "rm_action (generate_recommendation sh sh2 s) =
      (if es_total_runs s < 8 then Review else if es_utility_score s < 1 / 5 then Remove
       else if es_utility_score s < 2 / 5 then Deprioritize else if es_utility_score s > 7 / 10 then Keep else Review)"
    "rm_confidence (generate_recommendation sh sh2 s) = min 1 (of_nat (es_total_runs s) / 10)"
    "rm_enricher_id (generate_recommendation sh sh2 s) = es_enricher_id s" for s
    by (auto simp: generate_recommendation_def determine_action_and_reason_def compute_confidence_eq Let_def
        min_def split: if_splits)
  moreover have "op_recommendations (generate_report sh sh2 now records) =
      map (generate_recommendation sh sh2) (op_scores (generate_report sh sh2 now records))"
    "op_total_runs_analyzed (generate_report sh sh2 now records) = length records"
    by (simp_all add: generate_report_def generate_recommendations_def Let_def)
  ultimately show ?thesis using g(1) by (simp add: ids o_def)
qed

end
