(* ===== verification/Spec2Isabelle.thy ===== *)
theory Spec2Isabelle
  imports Brn_Auth Sandbox_Pool Command_Sanitizer Fact_Pipeline Bastion_Worker Catalog_Tools Legacy_Shim Template_Toolchain Enrichment_Stats
begin

text \<open>
  Bastion is a gateway that runs the commands of an agent in isolated sandboxes. A client calls the gateway;
  the gateway's use cases look the sandbox up in a repository and hand the work to a provider; inside the
  sandbox a worker process holds a gRPC stream to the gateway's registry, receives commands and answers with
  messages; a warm pool keeps sandboxes ready; after each command the enrichment engine derives facts from
  its output and evaluates rules over them.

  \<^bold>\<open>Theories and the code they model\<close> (paths under src/crates).

  \<^item> Bastion_Prelude: results as sums (Err/Ok), string and association list functions of the Rust standard
    library, generic lemmas, the collections of simplification rules shared by the components.
  \<^item> Brn_Auth: bastion-domain/src/shared/brn.rs. Resource names (brn_parse, brn_to_string), capability sets
    as words, the policy required_capabilities/authorize. Lemmas: parser and printer are inverse exactly on
    printable names, every parse error is characterised, the policy equals a table of access rights.
  \<^item> Sandbox_Lifecycle: bastion-domain/src/sandbox and both state_machine.rs files. The entity and the two
    concurrent maps of statuses; invariants over arbitrary sequences of calls.
  \<^item> Sandbox_Usecases: bastion-application/src/\{sandbox,execution,file_ops\} and persistence/in_memory.rs.
    Use cases over the ports repository and provider; a locale states the contract of a repository, the
    in-memory repository interprets it, and the use cases refine an abstract registry of live sandboxes.
  \<^item> Sandbox_Pool: bastion-infrastructure/src/pool/manager.rs. Queues, counters as 64-bit words, refill,
    eviction, recovery; the books of the pool balance after any run.
  \<^item> Cel_Lexer, Cel_Parser, Cel_Printer, Cel_Rules: enrichment-engine/src/rules. Lexer, recursive descent
    parser, evaluation and the rule evaluator; termination, the round trip with a minimal printer, and the
    declarative meaning of a rule set.
  \<^item> Command_Sanitizer: enrichment-engine/src/sanitizer.rs. The redaction of secrets on the bytes of UTF-8 text,
    with every string slice that could panic; totality, and the marker after every introduction of a secret.
  \<^item> Command_Extractor: extractors/command_extractor.rs. Tokenizer and classification of command lines; round
    trip with quoting, the accepted plain commands, the effect of the policy.
  \<^item> Fact_Pipeline: pipeline.rs, intent.rs, normalizer.rs and the other extractors. The caches change no
    result, normalization key by key.
  \<^item> Worker_Registry: bastion-gateway/src/registry.rs and the messages of proto/sandbox/v1/sandbox.proto.
    Registration with HMAC challenge, message routing, rate limiter, circuit breaker, the route_ functions; a
    step relation interleaves any number of calls with incoming messages, timers and registrations.
  \<^item> Bastion_Worker: bastion-worker/src/main.rs. Handshake, path validation, file handlers, command
    execution split at its await points, cancellation, the session as a step relation.
  \<^item> Catalog_Records: bastion-domain/src/catalog/experience.rs and assertion.rs with their use cases. Records of
    tool runs, the summary of their output on UTF-8 bytes, assertion checks; the summary never cuts a character.
  \<^item> Catalog_Checks: catalog/doctor.rs, advice.rs, run_doctor.rs, suggest_advice.rs. What a doctor run reports and
    when it panics; what advice a context calls for.
  \<^item> Catalog_Files: the three toml_*_parser.rs of bastion-infrastructure/src/catalog. A locale states what the
    three registries share when they load a directory, and each of them interprets it; the settings store.
  \<^item> Catalog_Tools: catalog_tools.rs, doctor_tools.rs, advice_tools.rs of the gateway. The tools against the use
    cases they repeat, and the settings across a restart.
  \<^item> Legacy_Shim: bastion-infrastructure/src/evaluation/legacy_cel_shim.rs. Checks evaluated directly and as
    conditions of the rule language, with the exact agreement of the two.
  \<^item> Provider_Model: bastion-domain/src/provider. Capabilities, provider types, constraints, locations and their
    conversions (a locale with two interpretations), instance configurations, the instance and its status.
  \<^item> Provider_Store: toml_repository.rs, factory.rs, registry.rs, config.rs of bastion-infrastructure/src/provider.
    The repository refines a map from names to instances; what loading a directory of providers registers.
  \<^item> Enrichment_Stats: truncate.rs, metrics.rs, optimizer.rs of enrichment-engine/src. Truncation, the ring of
    recent runs (exact up to its capacity), percentiles, and the report of the optimizer as a function of the records.
  \<^item> Template_Catalog: template/artifact.rs, catalog.rs, layer.rs of bastion-domain/src, materialization_resolver.rs,
    store.rs, snapshot_ops.rs. Artifacts, layer stacks, and the identifiers of snapshots read back.
  \<^item> This theory: gateway and worker composed, over the messages the worker sends.

  \<^bold>\<open>Conventions.\<close> A Rust Result is a sum with Err on the left; every early return is a branch. Asynchronous code
  is cut at its await points where interleaving matters (registry calls, command execution), otherwise an
  operation is atomic, as its lock makes it. Locks, channels and maps become lists and association lists.
  Clocks, uuids, the HMAC function, the regex crate, the operating system, the provider and the repository
  are arguments. Times are integers (nanoseconds) and token buckets count in rationals where the code uses
  floating point. Counters that can wrap are words of their width.

  \<^bold>\<open>Recursion.\<close> All loops are structural recursions or have a termination proof, except the recursive descent
  parser, which carries fuel: parse starts it with the length of the input plus two, and parse_total
  shows that this always yields an answer. The retry loop of the worker is modelled over the list of its
  session outcomes.

  \<^bold>\<open>Not modelled.\<close> Providers (they drive podman, docker, runsc, firecracker and a WebAssembly engine), SQLite
  stores, TLS and server start-up, the MCP wrappers of the sandbox tools, the dashboard, TOML parsing, probes of the host: they
  are I/O or conversions around the parts above.
\<close>

section \<open>Gateway and worker together\<close>

text \<open>
  The command router of the gateway over the replies of a worker: a call is accepted and sent, the worker
  handles it, and its messages arrive before the deadline, mixed in any way with the messages of other
  commands.
\<close>

lemma run_collected:
  assumes "is_ok (fst (collect_start now sb (command_for uuid (Run req)) r))" "uuid \<noteq> []"
    and "Run req = run_request command args wd env tmo"
    and "filter (\<lambda>m. wm_command_id m = uuid) stream =
           reply uuid (CommandAck Executing) # run_replies uuid d x"
  shows "fst (route_run_command now later (fold (route_message epoch i) stream) uuid sb
              command args wd env tmo r) =
      (case x of
         Inr (so, se, code) \<Rightarrow>
           Ok \<lparr>res_exit_code = code, res_stdout = so, res_stderr = se, res_duration_ms = d,
               res_timed_out = False\<rparr>
       | Inl e \<Rightarrow> Err (Internal e))"
proof -
  have "fst (collect_responses now later (fold (route_message epoch i) stream) sb
        (command_for uuid (Run req)) r) = Inr (reply uuid (CommandAck Executing) # run_replies uuid d x)"
    using collect_responses_result [OF assms(1), of later epoch i stream] assms(2,4)
    by (simp add: run_replies_collected del: upto_terminal.simps)
  then show ?thesis
    by (simp add: route_run_command_def assms(3) [symmetric] split_beta map_err_def
        run_replies_aggregated del: aggregate_run.simps)
qed

lemma run_streamed:
  assumes "is_ok (fst (collect_start now sb (command_for uuid (Run req)) r))" "uuid \<noteq> []"
    and "Run req = run_request command args wd env tmo"
    and "filter (\<lambda>m. wm_command_id m = uuid) stream =
           reply uuid (CommandAck Executing) # run_replies uuid d x"
  shows "fst (route_run_command_stream now (fold (route_message epoch i) stream) 3 uuid sb
              command args wd env tmo r) = Ok (chunks_of_run x)"
proof -
  obtain u r1 where start: "stream_start now sb (command_for uuid (Run req)) r = (Inr u, r1)"
    using assms(1) by (cases "stream_start now sb (command_for uuid (Run req)) r")
      (simp add: collect_start_stream_start, auto simp: is_ok_iff)
  have "chan uuid (fold (route_message epoch i) stream r1) =
      Some (map Inr (reply uuid (CommandAck Executing) # run_replies uuid d x))"
    using chan_deliver_all [OF assms(2), of r1 "[]" epoch i stream] stream_start_chan [OF start] assms(4)
    by simp
  then show ?thesis
    using run_replies_forwarded [of 3 uuid d x]
    by (simp del: forward_loop.simps add: route_run_command_stream_def assms(3) [symmetric] start Let_def
        channel_of_def chan_def)
qed


lemma demo_can_send: "is_ok (fst (collect_start now ''a'' cmd demo_worker))"
  using demo_start [of now cmd] by auto

definition echo_request :: run_command_request where
  "echo_request =
     \<lparr>rc_command = ''ls'', rc_args = [''-l''], rc_working_dir = [], rc_env = [], rc_timeout_ms = 5,
      rc_persistent = False, rc_session_id = []\<rparr>"


text \<open>
  C14: Reading a file end to end. When the path is allowed and the worker reads the file in any number of
  non-empty pieces, the router returns the content of a non-empty file; for an empty file the worker sends
  no message at all, and the call ends in a timeout.
\<close>

theorem read_file_end_to_end:
  assumes "is_ok (fst (collect_start now sb
              (command_for uuid (ReadFile \<lparr>rf_path = path, rf_offset = 0, rf_length = -1\<rparr>)) r))"
    and "uuid \<noteq> []"
    and "filter (\<lambda>m. wm_command_id m = uuid) stream =
           handle_read os \<lparr>rf_path = path, rf_offset = 0, rf_length = -1\<rparr> uuid w"
    and "validate_path os path w = Inr safe"
    and "os_metadata_len os safe w = Inr (of_nat (length (concat pieces)))"
    and "os_open_read os safe w = Inr (map Inr pieces @ [Inr []])"
    and "list_all (\<lambda>d. d \<noteq> []) pieces" "length (concat pieces) < 2 ^ 63"
  shows "fst (route_read_file now later (fold (route_message epoch i) stream) uuid sb path r) =
     (if pieces = [] then Err (Internal (''Command '' @ uuid @ '' timed out''))
      else Ok (concat pieces))"
proof -
  let ?size = "of_nat (length (concat pieces)) :: 64 word"
  define ms where "ms = read_loop uuid ?size (of_nat (div_ceil (unat ?size) chunk_size)) 0 0
      (map Inr pieces @ [Inr []])"
  have facts: "upto_terminal ms = (if pieces = [] then None else Some ms)"
      "aggregate_file [] ms = Ok (concat pieces)"
    using read_loop_pieces [of 0 pieces ?size uuid
        "of_nat (div_ceil (unat ?size) chunk_size)" 0 "[]"] assms(7,8)
    by (auto simp: ms_def)
  have "filter (\<lambda>m. wm_command_id m = uuid) stream = ms"
    using assms(3-6) by (simp add: handle_read_def ms_def)
  then have "fst (collect_responses now later (fold (route_message epoch i) stream) sb
      (command_for uuid (ReadFile \<lparr>rf_path = path, rf_offset = 0, rf_length = -1\<rparr>)) r) =
      (if pieces = [] then Inl (CommandTimeout uuid) else Inr ms)"
    using collect_responses_result [OF assms(1), of later epoch i stream] assms(2) facts(1) by simp
  then show ?thesis
    using facts(2) by (simp add: route_read_file_def split_beta map_err_def)
qed

theorem read_file_end_to_end_witness:
  "fst (route_read_file 1 2
      (fold (route_message 0 ''a'')
        (handle_read mem_os \<lparr>rf_path = ''/tmp/f'', rf_offset = 0, rf_length = -1\<rparr> ''c1''
           [(''/tmp/f'', [1, 2, 3])]))
      ''c1'' ''a'' ''/tmp/f'' demo_worker) = Ok [1, 2, 3]"
proof -
  let ?req = "\<lparr>rf_path = ''/tmp/f'', rf_offset = 0, rf_length = -1\<rparr>"
  let ?w = "[(''/tmp/f'', [1, 2, 3])]"
  have msgs: "handle_read mem_os ?req ''c1'' ?w =
      [reply ''c1'' (FileChunk [1, 2, 3] 0 True 0 1)]"
    by (simp add: handle_read_def validate_path_def ALLOWED_PREFIXES_def div_ceil_def chunk_size_def)
  have mine: "filter (\<lambda>m. wm_command_id m = ''c1'') (handle_read mem_os ?req ''c1'' ?w) =
      handle_read mem_os ?req ''c1'' ?w"
    unfolding msgs by (simp add: reply_def)
  have path: "validate_path mem_os ''/tmp/f'' ?w = Inr ''/tmp/f''"
    by (simp add: validate_path_def ALLOWED_PREFIXES_def)
  show ?thesis
    using read_file_end_to_end [OF demo_can_send _ mine path, of "[[1, 2, 3]]" 1 2 0 "''a''"]
    by (simp del: fold_simps)
qed

text \<open>
  C15: Writing a file end to end. The router never reports success. When the worker has written the
  file, it answers with an acknowledgement, which is not a terminal message, and the call ends in a timeout although
  the content is in the file; when the path is refused or the write fails, the call returns that error.
\<close>

theorem write_file_end_to_end:
  assumes "is_ok (fst (collect_start now sb (command_for uuid (WriteFile req)) r))" "uuid \<noteq> []"
    and "req = \<lparr>wf_path = path, wf_mode = 420, wf_total_size = of_nat (length content),
                wf_chunk_index = 0, wf_total_chunks = 1, wf_content = content\<rparr>"
    and "filter (\<lambda>m. wm_command_id m = uuid) stream = fst (handle_write os req uuid pending w)"
  shows "fst (route_write_file now later (fold (route_message epoch i) stream) uuid sb path content r) =
           (case validate_path os path w of
              Inl e \<Rightarrow> Err (Internal e)
            | Inr safe \<Rightarrow>
                (case fst (os_write os safe content w) of
                   Inl e \<Rightarrow> Err (Internal (io_message e))
                 | Inr _ \<Rightarrow> Err (Internal (''Command '' @ uuid @ '' timed out''))))
       \<and> snd (snd (handle_write os req uuid pending w)) =
           (case validate_path os path w of
              Inl e \<Rightarrow> w
            | Inr safe \<Rightarrow>
                (case os_write os safe content w of
                   (Inl e, w1) \<Rightarrow> w1
                 | (Inr _, w1) \<Rightarrow> os_set_permissions os safe 420 w1))"
proof -
  have "fst (collect_responses now later (fold (route_message epoch i) stream) sb
      (command_for uuid (WriteFile req)) r) =
      (case upto_terminal (fst (handle_write os req uuid pending w)) of
         Some ms \<Rightarrow> Inr ms | None \<Rightarrow> Inl (CommandTimeout uuid))"
    using collect_responses_result [OF assms(1), unfolded command_for_id, OF assms(2), of later epoch i stream]
      assms(4) by simp
  then show ?thesis
    by (auto simp: assms(3) route_write_file_def mode_0o644_def handle_write_def write_whole_def
          path_failure_def io_failure_def reply_def is_terminal_def apply_file_mode_def map_err_def
        split: prod.splits sum.splits)
qed

theorem write_file_end_to_end_witness:
  "let req = \<lparr>wf_path = ''/tmp/f'', wf_mode = 420, wf_total_size = of_nat (length [1, 2 :: 8 word]),
              wf_chunk_index = 0, wf_total_chunks = 1, wf_content = [1, 2]\<rparr>
   in fst (route_write_file 1 2
        (fold (route_message 0 ''a'') (fst (handle_write mem_os req ''c1'' [] [])))
        ''c1'' ''a'' ''/tmp/f'' [1, 2] demo_worker) = Err (Internal ''Command c1 timed out'')
    \<and> snd (snd (handle_write mem_os req ''c1'' [] [])) = [(''/tmp/f'', [1, 2])]"
proof -
  define req where "req = \<lparr>wf_path = ''/tmp/f'', wf_mode = 420,
      wf_total_size = of_nat (length [1, 2 :: 8 word]),
      wf_chunk_index = 0, wf_total_chunks = 1, wf_content = [1, 2]\<rparr>"
  have mine: "filter (\<lambda>m. wm_command_id m = ''c1'') (fst (handle_write mem_os req ''c1'' [] [])) =
      fst (handle_write mem_os req ''c1'' [] [])"
    by (simp add: req_def handle_write_def validate_path_def ALLOWED_PREFIXES_def write_whole_def
        reply_def)
  have "''c1'' \<noteq> []" by simp
  from write_file_end_to_end [OF demo_can_send this req_def mine, of 1 2 0 "''a''"]
  show ?thesis
    unfolding Let_def req_def [symmetric]
    by (simp add: validate_path_def ALLOWED_PREFIXES_def del: fold_simps)
qed

end
